(* ===== verification/Prober_Prelude.thy ===== *)
theory Prober_Prelude
  imports Main "HOL-Library.Word" "HOL-Library.Signed_Division" "HOL-Library.Char_ord"
    "HOL-Library.List_Lexorder"
begin

section \<open>Prelude: faults, checked integers, runs of handlers\<close>

text \<open>
  Shared by every component of the development:
  \<^item> \<open>fault\<close>, \<open>'a res\<close> and \<open>rbind\<close>: a C++ operation either returns (\<open>Inr\<close>) or does
    something the language leaves undefined or that ends the process (\<open>Inl\<close> of the reason).
    Each such point of the source is a branch of the model;
  \<^item> \<open>ck_int\<close>, \<open>ck_long\<close>: the result of an arithmetic operation on \<open>int\<close> (32 bit) and on
    \<open>long\<close>/\<open>time_t\<close> (64 bit), undefined when it does not fit;
  \<^item> \<open>fold_res\<close>: a loop over a list whose body may fault;
  \<^item> \<open>res_machine\<close>: the interface of a component driven by a sequence of events, with the
    lemma that lifts a one-step invariant to every run; \<open>guarded_machine\<close> and \<open>safe_machine\<close> are
    about progress, \<open>refines_machine\<close> adds an abstract view of the state.
\<close>

subsection \<open>Collections of facts\<close>

named_theorems frame_simps \<open>fields an operation does not write\<close>
named_theorems inv_intros \<open>operations that keep an invariant\<close>

subsection \<open>Fault results\<close>

datatype fault =
    NullDeref            \<comment> \<open>a null pointer is dereferenced\<close>
  | UseAfterFree         \<comment> \<open>an object is used after \<open>delete\<close>\<close>
  | UninitRead           \<comment> \<open>an indeterminate pointer is followed\<close>
  | OutOfBounds          \<comment> \<open>an array is read or written outside its bounds\<close>
  | SignedOverflow       \<comment> \<open>a signed operation does not fit its type\<close>
  | DivByZero            \<comment> \<open>integer division by zero\<close>
  | UncaughtException    \<comment> \<open>a library call throws and nothing catches\<close>
  | MissingReturn        \<comment> \<open>a non-void function runs off its end\<close>
  | BadCast              \<comment> \<open>an object is used as one of another class\<close>

type_synonym 'a res = "fault + 'a"

fun rbind :: "'a res \<Rightarrow> ('a \<Rightarrow> 'b res) \<Rightarrow> 'b res" where
  "rbind (Inl e) f = Inl e"
| "rbind (Inr x) f = f x"

lemma rbind_eq_Inr [simp]: "rbind m f = Inr y \<longleftrightarrow> (\<exists>x. m = Inr x \<and> f x = Inr y)"
  by (cases m) auto

lemma rbind_Inr_right [simp]: "rbind m Inr = m"
  by (cases m) auto

lemma rbind_assoc: "rbind (rbind m f) g = rbind m (\<lambda>x. rbind (f x) g)"
  by (cases m) auto

lemma rbind_cong [fundef_cong]:
  "m = m' \<Longrightarrow> (\<And>x. m' = Inr x \<Longrightarrow> f x = f' x) \<Longrightarrow> rbind m f = rbind m' f'"
  by (cases m') auto

text \<open>
  Elimination rules that follow a handler's branches one at a time, without rewriting the
  conditions: \<open>elim res_elims\<close>.
\<close>

lemma rbindE:
  "rbind m f = Inr y \<Longrightarrow> (\<And>x. m = Inr x \<Longrightarrow> f x = Inr y \<Longrightarrow> P) \<Longrightarrow> P"
  by (cases m) auto

lemma if_InrE:
  "(if c then a else b) = (Inr y :: 'a res) \<Longrightarrow> (c \<Longrightarrow> a = Inr y \<Longrightarrow> P) \<Longrightarrow>
   (\<not> c \<Longrightarrow> b = Inr y \<Longrightarrow> P) \<Longrightarrow> P"
  by (cases c) auto

lemma Inl_InrE: "Inl e = (Inr y :: 'a res) \<Longrightarrow> P"
  by simp

lemma Inr_PairE:
  "(Inr (a, b) :: ('a \<times> 'b) res) = Inr (r, t) \<Longrightarrow> (r = a \<Longrightarrow> t = b \<Longrightarrow> P) \<Longrightarrow> P"
  by simp

lemmas res_elims = rbindE if_InrE Inl_InrE Inr_PairE

text \<open>A fault an operation never has: \<open>intro no_fault_intros\<close> asks it of the parts.\<close>

lemma rbind_no_fault:
  "m \<noteq> Inl e \<Longrightarrow> (\<And>x. m = Inr x \<Longrightarrow> f x \<noteq> Inl e) \<Longrightarrow> rbind m f \<noteq> Inl e"
  by (cases m) auto

lemma if_no_fault:
  "(c \<Longrightarrow> a \<noteq> Inl e) \<Longrightarrow> (\<not> c \<Longrightarrow> b \<noteq> Inl e) \<Longrightarrow> (if c then a else b) \<noteq> (Inl e :: 'a res)"
  by (cases c) auto

lemma Inr_no_fault: "Inr x \<noteq> (Inl e :: 'a res)"
  by simp

lemmas no_fault_intros = rbind_no_fault if_no_fault Inr_no_fault

text \<open>The same as equations, for the simplifier: where a fault comes from.\<close>

lemma rbind_eq_Inl: "rbind m f = Inl e \<longleftrightarrow> m = Inl e \<or> (\<exists>x. m = Inr x \<and> f x = Inl e)"
  by (cases m) auto

text \<open>A value that is present, or the fault that its absence means.\<close>

fun need :: "fault \<Rightarrow> 'a option \<Rightarrow> 'a res" where
  "need e None = Inl e"
| "need e (Some x) = Inr x"

lemma need_eq_Inr [simp]: "need e m = Inr x \<longleftrightarrow> m = Some x"
  by (cases m) auto

lemma need_eq_Inl: "need f m = Inl e \<longleftrightarrow> e = f \<and> m = None"
  by (cases m) auto

subsection \<open>Checked signed arithmetic\<close>

definition int_range :: "int \<Rightarrow> bool" where
  "int_range x \<longleftrightarrow> - (2 ^ 31) \<le> x \<and> x < 2 ^ 31"

definition long_range :: "int \<Rightarrow> bool" where
  "long_range x \<longleftrightarrow> - (2 ^ 63) \<le> x \<and> x < 2 ^ 63"

definition ck_int :: "int \<Rightarrow> int res" where
  "ck_int x = (if int_range x then Inr x else Inl SignedOverflow)"

definition ck_long :: "int \<Rightarrow> int res" where
  "ck_long x = (if long_range x then Inr x else Inl SignedOverflow)"

lemma ck_int_Inr [simp]: "ck_int x = Inr y \<longleftrightarrow> y = x \<and> int_range x"
  by (auto simp: ck_int_def)

lemma ck_long_Inr [simp]: "ck_long x = Inr y \<longleftrightarrow> y = x \<and> long_range x"
  by (auto simp: ck_long_def)

lemma ck_int_Inl: "ck_int x = Inl e \<longleftrightarrow> e = SignedOverflow \<and> \<not> int_range x"
  by (auto simp: ck_int_def)

lemma ck_long_Inl: "ck_long x = Inl e \<longleftrightarrow> e = SignedOverflow \<and> \<not> long_range x"
  by (auto simp: ck_long_def)

lemmas fault_origins = rbind_eq_Inl need_eq_Inl ck_int_Inl ck_long_Inl

subsection \<open>Loops whose body may fault\<close>

fun fold_res :: "('x \<Rightarrow> 's \<Rightarrow> 's res) \<Rightarrow> 'x list \<Rightarrow> 's \<Rightarrow> 's res" where
  "fold_res f [] s = Inr s"
| "fold_res f (x # xs) s = rbind (f x s) (fold_res f xs)"

lemma fold_res_append [simp]:
  "fold_res f (xs @ ys) s = rbind (fold_res f xs s) (fold_res f ys)"
  by (induction xs arbitrary: s) (auto simp: rbind_assoc cong: rbind_cong)

lemma fold_res_no_fault: "(\<And>x s. f x s \<noteq> Inl e) \<Longrightarrow> fold_res f xs s \<noteq> Inl e"
  by (induction xs arbitrary: s) (simp_all add: rbind_eq_Inl)

lemma fold_res_Inr_fold: "fold_res (\<lambda>x s. Inr (f x s)) xs s = Inr (fold f xs s)"
  by (induction xs arbitrary: s) auto

lemma fold_res_cong [fundef_cong]:
  "xs = ys \<Longrightarrow> s = t \<Longrightarrow> (\<And>x u. x \<in> set ys \<Longrightarrow> f x u = g x u) \<Longrightarrow>
   fold_res f xs s = fold_res g ys t"
  by (induction ys arbitrary: xs s t) (auto intro!: rbind_cong)

subsection \<open>Components driven by events\<close>

text \<open>
  A handler-driven component: \<open>step e s\<close> is what the handler of event \<open>e\<close> does in state
  \<open>s\<close>. The client of the interface is the event loop, which runs handlers one after the
  other; the provider promises that every handler keeps \<open>inv\<close>.
\<close>

locale res_machine =
  fixes step :: "'e \<Rightarrow> 's \<Rightarrow> 's res"
    and inv :: "'s \<Rightarrow> bool"
  assumes step_inv: "inv s \<Longrightarrow> step e s = Inr s' \<Longrightarrow> inv s'"
begin

lemma run_inv: "inv s \<Longrightarrow> fold_res step es s = Inr s' \<Longrightarrow> inv s'"
  by (induction es arbitrary: s) (auto dest: step_inv)

lemma prefix_inv:
  assumes "inv s" "fold_res step (es @ fs) s = Inr s'"
  obtains t where "fold_res step es s = Inr t" "inv t" "fold_res step fs t = Inr s'"
  using assms run_inv by auto

end

text \<open>
  Progress: the events allowed in a state are handled and keep the invariant. The client is a run in
  which every event is allowed in the state it meets.
\<close>

fun allowed_run :: "('e \<Rightarrow> 's \<Rightarrow> 's res) \<Rightarrow> ('e \<Rightarrow> 's \<Rightarrow> bool) \<Rightarrow> 'e list \<Rightarrow> 's \<Rightarrow> bool" where
  "allowed_run step allowed [] s = True"
| "allowed_run step allowed (e # es) s =
     (allowed e s \<and> (case step e s of Inl f \<Rightarrow> True | Inr s' \<Rightarrow> allowed_run step allowed es s'))"

locale guarded_machine =
  fixes step :: "'e \<Rightarrow> 's \<Rightarrow> 's res"
    and inv :: "'s \<Rightarrow> bool"
    and allowed :: "'e \<Rightarrow> 's \<Rightarrow> bool"
  assumes step_ok: "inv s \<Longrightarrow> allowed e s \<Longrightarrow> \<exists>s'. step e s = Inr s' \<and> inv s'"
begin

lemma run_safe:
  "inv s \<Longrightarrow> allowed_run step allowed es s \<Longrightarrow> \<exists>s'. fold_res step es s = Inr s' \<and> inv s'"
proof (induction es arbitrary: s)
  case (Cons e es)
  then obtain t where t: "step e s = Inr t" "inv t" using step_ok [of s e] by auto
  with Cons.prems have "allowed_run step allowed es t" by simp
  with Cons.IH [OF t(2)] t(1) show ?case by simp
qed simp

lemma allowed_all:
  "inv s \<Longrightarrow> allowed_run step allowed es s \<Longrightarrow> (\<And>e s. allowed e s \<Longrightarrow> P e) \<Longrightarrow> list_all P es"
proof (induction es arbitrary: s)
  case (Cons e es)
  then obtain t where t: "step e s = Inr t" "inv t" using step_ok [of s e] by auto
  with Cons.prems have "allowed_run step allowed es t" by simp
  with Cons.IH [OF t(2) _ Cons.prems(3)] Cons.prems(2,3) show ?case by auto
qed simp

end

text \<open>Where the invariant is kept by every input, it suffices that the allowed ones do not fault.\<close>

locale safe_machine = res_machine step inv
  for step :: "'e \<Rightarrow> 's \<Rightarrow> 's res" and inv :: "'s \<Rightarrow> bool" +
  fixes allowed :: "'e \<Rightarrow> 's \<Rightarrow> bool"
  assumes step_safe: "inv s \<Longrightarrow> allowed e s \<Longrightarrow> \<exists>s'. step e s = Inr s'"

sublocale safe_machine \<subseteq> guarded_machine step inv allowed
  by unfold_locales (use step_safe step_inv in blast)

text \<open>
  Refinement: a function of the state, and what each event does to its value. The run lemma says
  that the values along a run are those of the specification.
\<close>

locale refines_machine = res_machine step inv
  for step :: "'e \<Rightarrow> 's \<Rightarrow> 's res" and inv :: "'s \<Rightarrow> bool" +
  fixes absf :: "'s \<Rightarrow> 'a"
    and spec :: "'e \<Rightarrow> 'a \<Rightarrow> 'a"
  assumes step_refines: "inv s \<Longrightarrow> step e s = Inr s' \<Longrightarrow> absf s' = spec e (absf s)"
begin

lemma run_refines:
  "inv s \<Longrightarrow> fold_res step es s = Inr s' \<Longrightarrow> absf s' = fold spec es (absf s) \<and> inv s'"
proof (induction es arbitrary: s)
  case (Cons e es)
  then obtain t where t: "step e s = Inr t" "fold_res step es t = Inr s'" by auto
  with Cons.IH [OF step_inv [OF Cons.prems(1) t(1)] t(2)] step_refines [OF Cons.prems(1) t(1)]
  show ?case by simp
qed simp

end

end
