(* ===== verification/Std_Map.thy ===== *)
theory Std_Map
  imports Prober_Prelude
begin

section \<open>\<open>std::map\<close>: sorted association lists\<close>

text \<open>
  The program keeps its tables in \<open>std::map\<close>: lookup with \<open>find\<close>, insertion and overwriting
  with \<open>m[k] = v\<close>, removal with \<open>erase\<close>, and iteration in the order of the keys (which
  \<open>distribute_conf\<close>, \<open>flush_test_conf\<close> and the search for the least loaded worker depend on).
  The locale \<open>ordered_map\<close> states that interface; \<open>smap_*\<close> below implement it and interpret
  it. The components use the laws through the interpretation \<open>smap\<close>.
\<close>

subsection \<open>The interface\<close>

locale ordered_map =
  fixes empty :: "'m"
    and find :: "'m \<Rightarrow> 'k::linorder \<Rightarrow> 'v option"
    and put :: "'k \<Rightarrow> 'v \<Rightarrow> 'm \<Rightarrow> 'm"
    and erase :: "'k \<Rightarrow> 'm \<Rightarrow> 'm"
    and keys :: "'m \<Rightarrow> 'k list"
    and ok :: "'m \<Rightarrow> bool"
  assumes ok_empty: "ok empty"
    and ok_put: "ok m \<Longrightarrow> ok (put k v m)"
    and ok_erase: "ok m \<Longrightarrow> ok (erase k m)"
    and find_empty: "find empty k = None"
    and find_put: "ok m \<Longrightarrow> find (put k v m) x = (if x = k then Some v else find m x)"
    and find_erase: "ok m \<Longrightarrow> find (erase k m) x = (if x = k then None else find m x)"
    and keys_sorted: "ok m \<Longrightarrow> sorted_wrt (<) (keys m)"
    and set_keys: "ok m \<Longrightarrow> set (keys m) = {k. find m k \<noteq> None}"
begin

lemmas map_laws = ok_empty ok_put ok_erase find_empty find_put find_erase

lemma in_keys_iff: "ok m \<Longrightarrow> k \<in> set (keys m) \<longleftrightarrow> find m k \<noteq> None"
  by (simp add: set_keys)

lemma distinct_keys: "ok m \<Longrightarrow> distinct (keys m)"
  using keys_sorted strict_sorted_iff by blast

lemma length_keys: "ok m \<Longrightarrow> length (keys m) = card {k. find m k \<noteq> None}"
  using distinct_card [OF distinct_keys] set_keys by metis

lemma set_keys_put: "ok m \<Longrightarrow> set (keys (put k v m)) = insert k (set (keys m))"
  by (auto simp: set_keys map_laws split: if_splits)

lemma set_keys_erase: "ok m \<Longrightarrow> set (keys (erase k m)) = set (keys m) - {k}"
  by (auto simp: set_keys map_laws split: if_splits)

lemma length_keys_put_new:
  "ok m \<Longrightarrow> find m k = None \<Longrightarrow> length (keys (put k v m)) = Suc (length (keys m))"
  by (metis List.finite_set card_insert_disjoint distinct_card distinct_keys in_keys_iff ok_put
      set_keys_put)

lemma keys_eqI:
  "ok m \<Longrightarrow> ok n \<Longrightarrow> (\<And>k. find m k = None \<longleftrightarrow> find n k = None) \<Longrightarrow> keys m = keys n"
  by (rule strict_sorted_equal) (auto simp: keys_sorted set_keys)

lemma keys_put_old: "ok m \<Longrightarrow> find m k \<noteq> None \<Longrightarrow> keys (put k v m) = keys m"
  by (rule keys_eqI) (auto simp: map_laws)

text \<open>A load loop: a series of \<open>m[k] = v\<close>; the last write of a key wins.\<close>

lemma ok_put_all: "ok m \<Longrightarrow> ok (fold (\<lambda>(k, v). put k v) kvs m)"
  by (induction kvs arbitrary: m) (auto simp: ok_put)

lemma find_put_all:
  "ok m \<Longrightarrow> find (fold (\<lambda>(k, v). put k v) kvs m) x =
     (case map_of (rev kvs) x of None \<Rightarrow> find m x | Some v \<Rightarrow> Some v)"
  by (induction kvs arbitrary: m)
    (auto simp: map_laws map_add_def split: option.splits)

end

subsection \<open>The implementation\<close>

type_synonym ('k, 'v) smap = "('k \<times> 'v) list"

fun smap_find :: "('k::linorder, 'v) smap \<Rightarrow> 'k \<Rightarrow> 'v option" where
  "smap_find [] k = None"
| "smap_find ((a, b) # m) k = (if k = a then Some b else smap_find m k)"

fun smap_put :: "'k::linorder \<Rightarrow> 'v \<Rightarrow> ('k, 'v) smap \<Rightarrow> ('k, 'v) smap" where
  "smap_put k v [] = [(k, v)]"
| "smap_put k v ((a, b) # m) =
     (if k < a then (k, v) # (a, b) # m
      else if k = a then (k, v) # m
      else (a, b) # smap_put k v m)"

fun smap_erase :: "'k::linorder \<Rightarrow> ('k, 'v) smap \<Rightarrow> ('k, 'v) smap" where
  "smap_erase k [] = []"
| "smap_erase k ((a, b) # m) = (if k = a then m else (a, b) # smap_erase k m)"

definition smap_keys :: "('k::linorder, 'v) smap \<Rightarrow> 'k list" where
  "smap_keys m = map fst m"

definition smap_ok :: "('k::linorder, 'v) smap \<Rightarrow> bool" where
  "smap_ok m \<longleftrightarrow> sorted_wrt (<) (map fst m)"

text \<open>
  \<open>m[k]\<close> as an expression: a missing key is first inserted with the default value of the
  element type.
\<close>

definition smap_index :: "'v \<Rightarrow> 'k::linorder \<Rightarrow> ('k, 'v) smap \<Rightarrow> 'v \<times> ('k, 'v) smap" where
  "smap_index d k m = (case smap_find m k of Some v \<Rightarrow> (v, m) | None \<Rightarrow> (d, smap_put k d m))"

lemma smap_find_below: "\<forall>x \<in> set (map fst m). k < x \<Longrightarrow> smap_find m k = None"
  by (induction m) auto

lemma fst_smap_put: "fst ` set (smap_put k v m) = insert k (fst ` set m)"
  by (induction k v m rule: smap_put.induct) (simp_all add: insert_commute)

lemma fst_smap_erase: "fst ` set (smap_erase k m) \<subseteq> fst ` set m"
  by (induction k m rule: smap_erase.induct) auto

lemma smap_ok_Cons: "smap_ok (p # m) \<longleftrightarrow> smap_ok m \<and> (\<forall>x \<in> fst ` set m. fst p < x)"
  by (auto simp: smap_ok_def)

lemma smap_ok_put: "smap_ok m \<Longrightarrow> smap_ok (smap_put k v m)"
proof (induction k v m rule: smap_put.induct)
  case (2 k v a b m)
  then show ?case
    by (auto simp: smap_ok_Cons fst_smap_put simp del: ball_simps(9))
      (metis fst_conv image_eqI less_trans)
qed (simp add: smap_ok_def)

lemma smap_ok_erase: "smap_ok m \<Longrightarrow> smap_ok (smap_erase k m)"
proof (induction k m rule: smap_erase.induct)
  case (2 k a b m)
  then show ?case
    using fst_smap_erase [of k m] by (auto simp: smap_ok_Cons simp del: ball_simps(9))
qed (simp add: smap_ok_def)

lemma smap_find_put: "smap_find (smap_put k v m) x = (if x = k then Some v else smap_find m x)"
  by (induction m) auto

lemma smap_find_erase:
  "smap_ok m \<Longrightarrow> smap_find (smap_erase k m) x = (if x = k then None else smap_find m x)"
proof (induction m)
  case (Cons p m)
  obtain a b where p: "p = (a, b)" by (cases p)
  with Cons show ?case by (auto simp: smap_ok_def smap_find_below)
qed simp

lemma smap_set_keys: "set (smap_keys m) = {k. smap_find m k \<noteq> None}"
  by (induction m) (auto simp: smap_keys_def)

lemma smap_keys_sorted: "smap_ok m \<Longrightarrow> sorted_wrt (<) (smap_keys m)"
  by (simp add: smap_ok_def smap_keys_def)

interpretation smap: ordered_map "[]" smap_find smap_put smap_erase smap_keys smap_ok
  by unfold_locales
    (simp_all add: smap_ok_put smap_ok_erase smap_find_put smap_find_erase smap_set_keys
      smap_keys_sorted, simp add: smap_ok_def)

subsection \<open>Facts of the implementation the components use\<close>

lemma smap_ok_Nil [simp]: "smap_ok []"
  by (rule smap.ok_empty)

lemma smap_ok_put' [simp, intro]: "smap_ok m \<Longrightarrow> smap_ok (smap_put k v m)"
  by (rule smap.ok_put)

lemma smap_ok_erase' [simp, intro]: "smap_ok m \<Longrightarrow> smap_ok (smap_erase k m)"
  by (rule smap.ok_erase)

declare smap_find_put [simp]

lemma smap_find_erase_ok [simp]:
  "smap_ok m \<Longrightarrow> smap_find (smap_erase k m) x = (if x = k then None else smap_find m x)"
  by (rule smap.find_erase)

lemma smap_find_map_of: "smap_find m = map_of m"
  by (induction m) (auto simp: fun_eq_iff)

lemma smap_in_set: "smap_ok m \<Longrightarrow> (k, v) \<in> set m \<longleftrightarrow> smap_find m k = Some v"
  by (simp add: smap_find_map_of smap_ok_def strict_sorted_iff)

lemma smap_mem_keys: "k \<in> fst ` set m \<longleftrightarrow> smap_find m k \<noteq> None"
  using smap_set_keys [of m] by (auto simp: smap_keys_def)

lemma map_of_inj:
  "map fst m = map fst n \<Longrightarrow> distinct (map fst m) \<Longrightarrow> map_of m = map_of n \<Longrightarrow> m = n"
proof (induction m arbitrary: n)
  case (Cons p m)
  then obtain q n' where n: "n = q # n'" and f: "fst q = fst p" "map fst n' = map fst m"
    by (cases n) auto
  have k: "map_of m (fst p) = None" "map_of n' (fst p) = None"
    using Cons.prems(2) f(2) by (auto simp: map_of_eq_None_iff simp flip: set_map)
  have eq: "map_of (p # m) x = map_of (q # n') x" for x
    using Cons.prems(3) n by (simp only:)
  have "snd p = snd q" using eq [of "fst p"] f by (cases p; cases q) auto
  moreover have "map_of m x = map_of n' x" for x
    using eq [of x] k f by (cases p; cases q) (auto split: if_splits)
  then have "m = n'" using Cons.prems(2) f by (intro Cons.IH) auto
  ultimately show ?case using n f by (simp add: prod_eq_iff)
qed simp

lemma smap_eqI:
  assumes "smap_ok m" "smap_ok n" "\<And>k. smap_find m k = smap_find n k"
  shows "m = n"
proof -
  have "map fst m = map fst n"
    using smap.keys_eqI [of m n] assms by (simp add: smap_keys_def)
  moreover have "map_of m = map_of n"
    using assms(3) by (simp add: smap_find_map_of fun_eq_iff)
  ultimately show ?thesis
    using assms(1,2) by (intro map_of_inj) (simp_all add: smap_ok_def strict_sorted_iff)
qed

lemma smap_put_new_length:
  "smap_find m k = None \<Longrightarrow> length (smap_put k v m) = Suc (length m)"
  by (induction m) (auto split: if_splits)

lemma smap_put_old_length:
  "smap_ok m \<Longrightarrow> smap_find m k \<noteq> None \<Longrightarrow> length (smap_put k v m) = length m"
  using smap.keys_put_old [of m k v] by (metis length_map smap_keys_def)

lemma smap_index_found [simp]: "smap_find m k = Some v \<Longrightarrow> smap_index d k m = (v, m)"
  by (simp add: smap_index_def)

lemma smap_index_missing [simp]:
  "smap_find m k = None \<Longrightarrow> smap_index d k m = (d, smap_put k d m)"
  by (simp add: smap_index_def)

text \<open>Loading a sorted map entry by entry rebuilds it.\<close>

lemma distinct_map_of_rev: "distinct (map fst xs) \<Longrightarrow> map_of (rev xs) = map_of xs"
proof (rule ext)
  fix k assume d: "distinct (map fst xs)"
  have "set (map fst (rev xs)) = set (map fst xs)" by simp
  moreover have "map_of (rev xs) k = Some v \<longleftrightarrow> map_of xs k = Some v" for v
    using d map_of_eq_Some_iff [of xs k v] map_of_eq_Some_iff [of "rev xs" k v]
    by (simp add: rev_map [symmetric])
  ultimately show "map_of (rev xs) k = map_of xs k"
    by (metis not_None_eq)
qed

lemma smap_load_all:
  assumes "smap_ok m"
  shows "fold (\<lambda>(k, v). smap_put k v) m [] = m"
proof (rule smap_eqI)
  show "smap_ok (fold (\<lambda>(k, v). smap_put k v) m [])"
    by (rule smap.ok_put_all) simp
  have "map_of (rev m) = map_of m"
    using assms by (intro distinct_map_of_rev) (simp add: smap_ok_def strict_sorted_iff)
  then show "smap_find (fold (\<lambda>(k, v). smap_put k v) m []) k = smap_find m k" for k
    using smap.find_put_all [OF smap.ok_empty, of m k]
    by (simp add: smap_find_map_of split: option.splits)
qed (fact assms)

end
