(* ===== verification/C_String.thy ===== *)
theory C_String
  imports Prober_Prelude
begin

section \<open>C strings: NUL termination, atoi, decimal output\<close>

text \<open>
  What the program uses of the C string library: reading a \<open>char *\<close> up to its NUL,
  \<open>atoi\<close>, \<open>sprintf("%d")\<close>. A byte is a \<open>char\<close>; \<open>atoi\<close> of a number that does not fit in an
  \<open>int\<close> is undefined and is the fault \<open>SignedOverflow\<close>.
\<close>

abbreviation NUL :: char where "NUL \<equiv> CHR 0x00"
abbreviation LF :: char where "LF \<equiv> CHR 0x0A"
abbreviation SP :: char where "SP \<equiv> CHR 0x20"

definition cstr :: "string \<Rightarrow> string" where
  "cstr s = takeWhile (\<lambda>c. c \<noteq> NUL) s"

lemma cstr_id: "NUL \<notin> set s \<Longrightarrow> cstr s = s"
  by (auto simp: cstr_def takeWhile_eq_all_conv)

lemma cstr_append: "NUL \<notin> set s \<Longrightarrow> cstr (s @ t) = s @ cstr t"
  by (auto simp: cstr_def takeWhile_append)

lemma cstr_no_NUL: "NUL \<notin> set (cstr s)"
  by (auto simp: cstr_def dest: set_takeWhileD)

text \<open>
  Reading an array of bytes as a C string runs past its end when it holds no NUL.
\<close>

definition read_cstr :: "string \<Rightarrow> string res" where
  "read_cstr buf = (if NUL \<in> set buf then Inr (cstr buf) else Inl OutOfBounds)"

text \<open>\<open>sprintf\<close> into a buffer of \<open>n\<close> bytes: the text and its NUL have to fit.\<close>

definition sprintf_buf :: "nat \<Rightarrow> string \<Rightarrow> string res" where
  "sprintf_buf n s = (if length s < n then Inr s else Inl OutOfBounds)"

lemma sprintf_buf_Inr [simp]: "sprintf_buf n s = Inr x \<longleftrightarrow> x = s \<and> length s < n"
  by (auto simp: sprintf_buf_def)

subsection \<open>Numbers\<close>

definition is_digit :: "char \<Rightarrow> bool" where
  "is_digit c \<longleftrightarrow> 48 \<le> (of_char c :: nat) \<and> (of_char c :: nat) \<le> 57"

definition is_space :: "char \<Rightarrow> bool" where
  "is_space c \<longleftrightarrow> (of_char c :: nat) = 32 \<or> (9 \<le> (of_char c :: nat) \<and> (of_char c :: nat) \<le> 13)"

definition digit_val :: "char \<Rightarrow> nat" where
  "digit_val c = of_char c - 48"

definition digit_char :: "nat \<Rightarrow> char" where
  "digit_char d = char_of (48 + d)"

fun num_of :: "nat \<Rightarrow> string \<Rightarrow> nat" where
  "num_of acc [] = acc"
| "num_of acc (c # cs) = (if is_digit c then num_of (10 * acc + digit_val c) cs else acc)"

definition atoi_val :: "string \<Rightarrow> int" where
  "atoi_val s =
     (case dropWhile is_space s of
        [] \<Rightarrow> 0
      | c # cs \<Rightarrow> (if c = CHR ''-'' then - int (num_of 0 cs)
                   else if c = CHR ''+'' then int (num_of 0 cs)
                   else int (num_of 0 (c # cs))))"

definition atoi :: "string \<Rightarrow> int res" where
  "atoi s = ck_int (atoi_val (cstr s))"

fun show_nat :: "nat \<Rightarrow> string" where
  "show_nat n = (if n < 10 then [digit_char n] else show_nat (n div 10) @ [digit_char (n mod 10)])"

declare show_nat.simps [simp del]

definition show_int :: "int \<Rightarrow> string" where
  "show_int x = (if x < 0 then CHR ''-'' # show_nat (nat (- x)) else show_nat (nat x))"

subsection \<open>Decimal round trip\<close>

lemma of_digit_char: "d < 10 \<Longrightarrow> (of_char (digit_char d) :: nat) = 48 + d"
  by (simp add: digit_char_def)

lemma is_digit_digit_char [simp]: "d < 10 \<Longrightarrow> is_digit (digit_char d)"
  by (simp add: is_digit_def of_digit_char)

lemma digit_val_digit_char [simp]: "d < 10 \<Longrightarrow> digit_val (digit_char d) = d"
  by (simp add: digit_val_def of_digit_char)

lemma show_nat_digits: "\<forall>c \<in> set (show_nat n). is_digit c"
proof (induction n rule: show_nat.induct)
  case (1 n)
  then show ?case by (subst show_nat.simps) auto
qed

lemma show_nat_not_Nil [simp]: "show_nat n \<noteq> []"
  by (subst show_nat.simps) simp

lemma num_of_append:
  "\<forall>c \<in> set s. is_digit c \<Longrightarrow> num_of acc (s @ t) = num_of (num_of acc s) t"
  by (induction s arbitrary: acc) auto

lemma num_of_show_nat: "num_of 0 (show_nat n) = n"
proof (induction n rule: show_nat.induct)
  case (1 n)
  show ?case
  proof (cases "n < 10")
    case True
    then show ?thesis by (subst show_nat.simps) simp
  next
    case False
    with 1 have "num_of 0 (show_nat (n div 10)) = n div 10" by simp
    with False show ?thesis
      by (subst show_nat.simps) (simp add: num_of_append show_nat_digits)
  qed
qed

lemma digit_neq:
  assumes "is_digit c"
  shows "c \<noteq> NUL" "c \<noteq> CHR ''-''" "c \<noteq> CHR ''+''" "\<not> is_space c" "c \<noteq> SP" "c \<noteq> LF"
  using assms by (auto simp: is_digit_def is_space_def)

lemma show_nat_no_NUL: "NUL \<notin> set (show_nat n)"
  using show_nat_digits digit_neq(1) by blast

lemma show_int_no_NUL: "NUL \<notin> set (show_int x)"
  by (simp add: show_int_def show_nat_no_NUL)

lemma atoi_val_show_int: "atoi_val (show_int x) = x"
proof -
  obtain c cs where c: "show_nat (nat x) = c # cs" by (cases "show_nat (nat x)") auto
  have "is_digit c" using show_nat_digits [of "nat x"] c by simp
  then have "atoi_val (show_nat (nat x)) = int (nat x)"
    using digit_neq [of c] num_of_show_nat [of "nat x"] c by (simp add: atoi_val_def)
  moreover have "\<not> is_space CHR ''-''" by (simp add: is_space_def)
  ultimately show ?thesis
    by (auto simp: show_int_def atoi_val_def num_of_show_nat)
qed

lemma atoi_show_int: "int_range x \<Longrightarrow> atoi (show_int x) = Inr x"
  by (simp add: atoi_def cstr_id show_int_no_NUL atoi_val_show_int)

lemma atoi_range: "atoi s = Inr x \<Longrightarrow> int_range x"
  by (simp add: atoi_def)

lemma show_nat_bound: "n < 10 ^ length (show_nat n)"
proof (induction n rule: show_nat.induct)
  case (1 n)
  show ?case
  proof (cases "n < 10")
    case True
    then show ?thesis by (subst show_nat.simps) simp
  next
    case False
    then have l: "length (show_nat n) = Suc (length (show_nat (n div 10)))"
      by (subst show_nat.simps) simp
    show ?thesis using 1 [OF False] unfolding l by (simp add: div_less_iff_less_mult mult.commute)
  qed
qed

lemma short_int_range: "length (show_int x) < 6 \<Longrightarrow> int_range x"
proof -
  have b: "n < 10 ^ 5" if "length (show_nat n) < 6" for n
  proof -
    have "n < 10 ^ length (show_nat n)" by (rule show_nat_bound)
    also have "\<dots> \<le> (10 :: nat) ^ 5" using that by (intro power_increasing) simp_all
    finally show ?thesis .
  qed
  assume "length (show_int x) < 6"
  then have "nat (- x) < 10 ^ 5" "nat x < 10 ^ 5"
    using b [of "nat (- x)"] b [of "nat x"] by (auto simp: show_int_def split: if_splits)
  then show ?thesis unfolding int_range_def by simp linarith
qed

lemma length_show_nat: "n < 10 ^ k \<Longrightarrow> 0 < k \<Longrightarrow> length (show_nat n) \<le> k"
proof (induction n arbitrary: k rule: show_nat.induct)
  case (1 n)
  show ?case
  proof (cases "n < 10")
    case True
    with 1 show ?thesis by (subst show_nat.simps) simp
  next
    case False
    from 1 obtain j where k: "k = Suc j" by (cases k) auto
    with 1 False have j: "0 < j" by (cases j) auto
    with 1 k have "n div 10 < 10 ^ j" by (simp add: less_mult_imp_div_less mult.commute)
    with 1 False j have "length (show_nat (n div 10)) \<le> j" by simp
    with False k show ?thesis by (subst show_nat.simps) simp
  qed
qed

lemma length_show_nat_ge: "10 ^ k \<le> n \<Longrightarrow> k < length (show_nat n)"
proof (induction n arbitrary: k rule: show_nat.induct)
  case (1 n)
  show ?case
  proof (cases k)
    case 0
    then show ?thesis by simp
  next
    case (Suc j)
    with 1 have ge: "\<not> n < 10"
      by (metis le_trans linorder_not_less one_le_numeral power_increasing power_one_right
          le_add1 plus_1_eq_Suc)
    with 1 Suc have "10 ^ j \<le> n div 10" by (simp add: less_eq_div_iff_mult_less_eq mult.commute)
    with 1 ge have "j < length (show_nat (n div 10))" by simp
    with ge Suc show ?thesis by (subst show_nat.simps) simp
  qed
qed

end
