(* ===== verification/Logger.thy ===== *)
theory Logger
  imports C_String
begin

section \<open>\<open>logger.cpp\<close>: levels, lines, log rotation\<close>

text \<open>
  The state of a \<open>Logger\<close> is a record; what it does to the file system and its descriptors is
  a list of effects, with the descriptor \<open>open\<close> returns as an argument (the kernel's answer).
  The time string is what \<open>strftime\<close> leaves in \<open>timebuf\<close>, an argument too.
\<close>

datatype log_level = DEBUG | NOTICE | INFO | CRITIAL | ERROR

text \<open>The numeric values of the \<open>LOG_LEVEL_*\<close> macros, and the order they induce.\<close>

fun level_code :: "log_level \<Rightarrow> int" where
  "level_code DEBUG = 0"
| "level_code NOTICE = 1"
| "level_code INFO = 2"
| "level_code CRITIAL = 3"
| "level_code ERROR = 4"

fun level_name :: "log_level \<Rightarrow> string" where
  "level_name DEBUG = ''DEBUG''"
| "level_name NOTICE = ''NOTICE''"
| "level_name INFO = ''INFO''"
| "level_name CRITIAL = ''CRITIAL''"
| "level_name ERROR = ''ERROR''"

lemma level_code_inj: "level_code a = level_code b \<longleftrightarrow> a = b"
  by (cases a; cases b) auto

instantiation log_level :: linorder
begin

definition less_eq_log_level :: "log_level \<Rightarrow> log_level \<Rightarrow> bool" where
  "less_eq_log_level a b \<longleftrightarrow> level_code a \<le> level_code b"

definition less_log_level :: "log_level \<Rightarrow> log_level \<Rightarrow> bool" where
  "less_log_level a b \<longleftrightarrow> level_code a < level_code b"

instance
  by standard (auto simp: less_eq_log_level_def less_log_level_def level_code_inj [symmetric])

end

record logger =
  lg_level :: int
  logfilefd :: int
  logfile :: string

datatype log_effect =
    LgWrite int string                \<comment> \<open>\<open>write(fd, bytes)\<close>\<close>
  | LgClose int
  | LgOpen string int                 \<comment> \<open>path and the descriptor the kernel returned\<close>
  | LgRename string string bool       \<comment> \<open>and whether it succeeds\<close>

definition MAX_FILEPATH :: nat where "MAX_FILEPATH = 256"

text \<open>\<open>bzero(logfile, LOG_LEVEL_INFO)\<close> clears two bytes.\<close>

definition Logger_new :: "logger \<Rightarrow> logger" where
  "Logger_new junk = junk\<lparr>lg_level := level_code INFO, logfilefd := -1,
     logfile := replicate (nat (level_code INFO)) NUL @ drop (nat (level_code INFO)) (logfile junk)\<rparr>"

text \<open>
  \<open>set_logfile\<close> copies a fixed 256 bytes into \<open>logfile\<close>; a longer path leaves it without a
  NUL, which \<open>open\<close> then runs past.
\<close>

definition set_logfile :: "string \<Rightarrow> int \<Rightarrow> logger \<Rightarrow> (logger \<times> log_effect list) res" where
  "set_logfile path newfd l =
     (if MAX_FILEPATH \<le> length path then Inl OutOfBounds
      else Inr (l\<lparr>logfile := path, logfilefd := newfd\<rparr>, [LgOpen path newfd]))"

definition set_level :: "int \<Rightarrow> logger \<Rightarrow> int \<times> logger" where
  "set_level newlevel l = (lg_level l, l\<lparr>lg_level := newlevel\<rparr>)"

definition log_line :: "string \<Rightarrow> log_level \<Rightarrow> string \<Rightarrow> string" where
  "log_line timebuf lev content =
     level_name lev @ ''    '' @ timebuf @ ''    '' @ cstr content @ [LF]"

definition log_output :: "string \<Rightarrow> log_level \<Rightarrow> string \<Rightarrow> logger \<Rightarrow> log_effect list" where
  "log_output timebuf lev content l = [LgWrite (logfilefd l) (log_line timebuf lev content)]"

text \<open>The five entry points \<open>debug\<close>, \<open>notice\<close>, \<open>info\<close>, \<open>critial\<close>, \<open>error\<close>.\<close>

definition log_debug :: "string \<Rightarrow> string \<Rightarrow> logger \<Rightarrow> log_effect list" where
  "log_debug tb content l =
     (if lg_level l < level_code DEBUG then [] else log_output tb DEBUG content l)"
definition log_notice :: "string \<Rightarrow> string \<Rightarrow> logger \<Rightarrow> log_effect list" where
  "log_notice tb content l =
     (if lg_level l < level_code NOTICE then [] else log_output tb NOTICE content l)"
definition log_info :: "string \<Rightarrow> string \<Rightarrow> logger \<Rightarrow> log_effect list" where
  "log_info tb content l =
     (if lg_level l < level_code INFO then [] else log_output tb INFO content l)"
definition log_critial :: "string \<Rightarrow> string \<Rightarrow> logger \<Rightarrow> log_effect list" where
  "log_critial tb content l =
     (if lg_level l < level_code CRITIAL then [] else log_output tb CRITIAL content l)"
definition log_error :: "string \<Rightarrow> string \<Rightarrow> logger \<Rightarrow> log_effect list" where
  "log_error tb content l =
     (if lg_level l < level_code ERROR then [] else log_output tb ERROR content l)"

fun log_at :: "log_level \<Rightarrow> string \<Rightarrow> string \<Rightarrow> logger \<Rightarrow> log_effect list" where
  "log_at DEBUG = log_debug"
| "log_at NOTICE = log_notice"
| "log_at INFO = log_info"
| "log_at CRITIAL = log_critial"
| "log_at ERROR = log_error"

lemmas log_defs = log_debug_def log_notice_def log_info_def log_critial_def log_error_def

definition close_fd :: "logger \<Rightarrow> int \<times> log_effect list" where
  "close_fd l = (logfilefd l, [LgClose (logfilefd l)])"

text \<open>The destructor; \<open>main\<close>'s logger meets it when \<open>main\<close> returns.\<close>

definition Logger_delete :: "logger \<Rightarrow> log_effect list" where
  "Logger_delete l = snd (close_fd l)"

definition set_fd :: "int \<Rightarrow> logger \<Rightarrow> int \<times> logger" where
  "set_fd newfd l = (logfilefd l, l\<lparr>logfilefd := newfd\<rparr>)"

text \<open>
  \<open>renamed\<close> tells whether \<open>rename\<close> succeeds, \<open>newfd\<close> is what \<open>open\<close> returns, -1 when it fails. Neither
  is looked at.
\<close>

definition split_log :: "string \<Rightarrow> bool \<Rightarrow> int \<Rightarrow> logger \<Rightarrow> int \<times> logger \<times> log_effect list" where
  "split_log timebuf renamed newfd l =
     (let bak = cstr (logfile l) @ ''-'' @ timebuf;
          l' = l\<lparr>logfilefd := newfd\<rparr>
      in (logfilefd l', l',
          snd (close_fd l) @ [LgRename (cstr (logfile l)) bak renamed, LgOpen (cstr (logfile l)) newfd]))"

lemma log_at_eq:
  "log_at lev tb content l =
     (if level_code lev \<le> lg_level l
      then [LgWrite (logfilefd l) (log_line tb lev content)] else [])"
  by (cases lev) (auto simp: log_defs log_output_def)

text \<open>
  The file system behind the effects: an append-only map from paths to the files' contents,
  and the open descriptors with the file (by number) each writes to. It is enough to say
  where a line goes: \<open>open\<close> with \<open>O_CREAT\<close> and \<open>O_APPEND\<close> finds or makes the file unless it fails,
  \<open>rename\<close> takes the name of a file away and gives it the other unless it fails, and a \<open>write\<close> to a
  descriptor that is not open does nothing.
\<close>

record files =
  names :: "string \<Rightarrow> nat option"     \<comment> \<open>directory: path to file\<close>
  fdtab :: "int \<Rightarrow> nat option"        \<comment> \<open>descriptor to file\<close>
  contents :: "nat \<Rightarrow> string"
  fresh :: nat                        \<comment> \<open>next unused file number\<close>

fun do_effect :: "log_effect \<Rightarrow> files \<Rightarrow> files" where
  "do_effect (LgWrite fd s) f =
     (case fdtab f fd of None \<Rightarrow> f
      | Some n \<Rightarrow> f\<lparr>contents := (contents f)(n := contents f n @ s)\<rparr>)"
| "do_effect (LgClose fd) f = f\<lparr>fdtab := (fdtab f)(fd := None)\<rparr>"
| "do_effect (LgRename a b ok) f =
     (case names f a of None \<Rightarrow> f
      | Some n \<Rightarrow> if \<not> ok then f else f\<lparr>names := (names f)(a := None, b := Some n)\<rparr>)"
| "do_effect (LgOpen p fd) f =
     (if fd < 0 then f else case names f p of
        Some n \<Rightarrow> f\<lparr>fdtab := (fdtab f)(fd := Some n)\<rparr>
      | None \<Rightarrow> f\<lparr>names := (names f)(p := Some (fresh f)), fdtab := (fdtab f)(fd := Some (fresh f)),
                 contents := (contents f)(fresh f := []), fresh := Suc (fresh f)\<rparr>)"

definition do_effects :: "log_effect list \<Rightarrow> files \<Rightarrow> files" where
  "do_effects es f = fold do_effect es f"

text \<open>The directory and the descriptors refer to files that exist; no negative number is open.\<close>

definition files_ok :: "files \<Rightarrow> bool" where
  "files_ok f \<longleftrightarrow> (\<forall>p n. names f p = Some n \<longrightarrow> n < fresh f) \<and>
                 (\<forall>d n. fdtab f d = Some n \<longrightarrow> 0 \<le> d \<and> n < fresh f)"

lemma files_ok_effect: "files_ok f \<Longrightarrow> files_ok (do_effect e f)"
  by (cases e) (auto simp: files_ok_def less_Suc_eq split: option.splits)

lemma files_ok_effects: "files_ok f \<Longrightarrow> files_ok (do_effects es f)"
  unfolding do_effects_def by (induction es arbitrary: f) (auto simp: files_ok_effect)

text \<open>
  A rotation under a name not yet taken: the old contents stay under the backup name, and the
  descriptor the logger now holds writes to a new, empty file under the log's own name.
\<close>

lemma split_log_rotates:
  assumes "files_ok f" "names f (cstr (logfile l)) = Some n"
    and "split_log tb True newfd l = (fd, l', es)" "0 \<le> newfd"
  shows "fd = newfd \<and> logfilefd l' = newfd \<and>
         names (do_effects es f) (cstr (logfile l) @ ''-'' @ tb) = Some n \<and>
         contents (do_effects es f) n = contents f n \<and>
         names (do_effects es f) (cstr (logfile l)) = fdtab (do_effects es f) newfd \<and>
         (\<exists>m. fdtab (do_effects es f) newfd = Some m \<and> m \<noteq> n \<and> contents (do_effects es f) m = [])"
proof -
  have "n < fresh f" using assms(1,2) by (auto simp: files_ok_def)
  then show ?thesis
    using assms(2-4) by (auto simp: split_log_def close_fd_def do_effects_def Let_def)
qed

text \<open>C32. A log rotation, whatever its system calls answer. If both succeed, what was written stays under
  the backup name, the file under the log's own name is new, and a line logged afterwards goes
  there. If the renaming fails, the line is appended to the old file. If the log cannot be opened,
  the line is lost: no file changes, and the logger keeps the -1.\<close>

theorem rotation_redirects_log:
  assumes "files_ok f" "names f (cstr (logfile l)) = Some n"
    and "split_log tb renamed newfd l = (fd, l', es)" "level_code lev \<le> lg_level l"
    and "g = do_effects es f" "h = do_effects (log_at lev tb' s l') g"
  shows "logfilefd l' = newfd \<and>
    (if newfd < 0 then contents h = contents f
     else if renamed then
       \<exists>m. names g (cstr (logfile l) @ ''-'' @ tb) = Some n \<and> names g (cstr (logfile l)) = Some m \<and> m \<noteq> n \<and>
         contents h m = log_line tb' lev s \<and> contents h n = contents f n
     else names g (cstr (logfile l)) = Some n \<and> contents h n = contents f n @ log_line tb' lev s)"
proof -
  have l': "lg_level l' = lg_level l" "logfilefd l' = newfd"
    using assms(3) by (auto simp: split_log_def Let_def)
  have es: "es = [LgClose (logfilefd l), LgRename (cstr (logfile l)) (cstr (logfile l) @ ''-'' @ tb) renamed,
      LgOpen (cstr (logfile l)) newfd]"
    using assms(3) by (auto simp: split_log_def close_fd_def Let_def)
  have h: "h = do_effect (LgWrite newfd (log_line tb' lev s)) g"
    using assms(4,6) l' by (simp add: log_at_eq do_effects_def)
  consider (lost) "newfd < 0" | (new) "0 \<le> newfd" renamed | (old) "0 \<le> newfd" "\<not> renamed" by linarith
  then show ?thesis
  proof cases
    case lost
    have "files_ok g" using files_ok_effects [OF assms(1)] assms(5) by simp
    then have "fdtab g newfd = None" using lost unfolding files_ok_def by (metis not_None_eq not_le)
    moreover have "contents g = contents f"
      using lost assms(2,5) by (simp add: es do_effects_def)
    ultimately show ?thesis using lost l' by (simp add: h)
  next
    case new
    with assms(3) have "split_log tb True newfd l = (fd, l', es)" by simp
    from split_log_rotates [OF assms(1,2) this new(1)] new l' show ?thesis
      unfolding h assms(5) by auto
  next
    case old
    then show ?thesis using assms(2,5) l' by (simp add: es h do_effects_def)
  qed
qed

definition demo_files :: files where
  "demo_files = \<lparr>names = [''l'' \<mapsto> 0], fdtab = [3 \<mapsto> 0], contents = (\<lambda>n. ''old''), fresh = 1\<rparr>"

definition demo_log :: logger where
  "demo_log = \<lparr>lg_level = 2, logfilefd = 3, logfile = ''l''\<rparr>"

lemma demo_log_facts: "files_ok demo_files" "names demo_files (cstr (logfile demo_log)) = Some 0"
  "level_code INFO \<le> lg_level demo_log" "cstr (logfile demo_log) = ''l''"
  by (auto simp: files_ok_def demo_files_def demo_log_def cstr_def split: if_splits)

theorem rotation_redirects_log_witness:
  "\<exists>es l'. split_log ''t'' True 4 demo_log = (4, l', es) \<and>
     names (do_effects es demo_files) ''l-t'' = Some 0 \<and>
   (\<exists>es l'. split_log ''t'' False 4 demo_log = (4, l', es) \<and>
     contents (do_effects (log_at INFO ''t'' ''x'' l') (do_effects es demo_files)) 0 = ''old'' @ log_line ''t'' INFO ''x'') \<and>
   (\<exists>es l'. split_log ''t'' True (-1) demo_log = (-1, l', es) \<and>
     contents (do_effects (log_at INFO ''t'' ''x'' l') (do_effects es demo_files)) = (\<lambda>n. ''old''))"
proof -
  have s: "\<exists>es l'. split_log ''t'' r fd demo_log = (fd, l', es)" for r fd
    by (simp add: split_log_def Let_def)
  note rot = rotation_redirects_log [OF demo_log_facts(1,2) _ demo_log_facts(3) refl refl]
  have c: "contents demo_files = (\<lambda>n. ''old'')" by (simp add: demo_files_def)
  obtain es1 l1 where d1: "split_log ''t'' True 4 demo_log = (4, l1, es1)" using s by blast
  obtain es2 l2 where d2: "split_log ''t'' False 4 demo_log = (4, l2, es2)" using s by blast
  obtain es3 l3 where d3: "split_log ''t'' True (-1) demo_log = (-1, l3, es3)" using s by blast
  have "names (do_effects es1 demo_files) ''l-t'' = Some 0"
    using rot [OF d1, of "''t''" "''x''"] by (auto simp: demo_log_facts(4))
  moreover have "contents (do_effects (log_at INFO ''t'' ''x'' l2) (do_effects es2 demo_files)) 0 =
      ''old'' @ log_line ''t'' INFO ''x''"
    using rot [OF d2, of "''t''" "''x''"] by (simp add: c)
  moreover have "contents (do_effects (log_at INFO ''t'' ''x'' l3) (do_effects es3 demo_files)) = (\<lambda>n. ''old'')"
    using rot [OF d3, of "''t''" "''x''"] by (simp add: c)
  ultimately show ?thesis using d1 d2 d3 by blast
qed

text \<open>The level test is the wrong way round: at the level INFO that \<open>main\<close> sets, debug lines are
  written and errors are not; a logger that writes a message also writes every less severe one.\<close>

theorem logger_drops_severe:
  "(lg_level l = level_code INFO \<longrightarrow>
     log_debug tb s l = [LgWrite (logfilefd l) (log_line tb DEBUG s)] \<and>
     log_error tb s l = [] \<and> log_critial tb s l = []) \<and>
   (log_at a tb s l \<noteq> [] \<and> b \<le> a \<longrightarrow> log_at b tb s l \<noteq> [])"
  by (auto simp: log_at_eq less_eq_log_level_def log_defs log_output_def split: if_splits)

theorem logger_drops_severe_witness:
  "log_error ''t'' ''disk full'' \<lparr>lg_level = 2, logfilefd = 3, logfile = ''l''\<rparr> = []"
  using logger_drops_severe [of "\<lparr>lg_level = 2, logfilefd = 3, logfile = ''l''\<rparr>" "''t''" "''disk full''" ERROR DEBUG]
  by simp

end
