(* ===== verification/Json_Lib.thy ===== *)
theory Json_Lib
  imports C_String
begin

section \<open>The JSON library the sources call\<close>

text \<open>
  jsoncpp is not part of the repository. What the sources use of it is a parameter of the
  model: a record of its operations over an abstract type \<open>'j\<close> of values. \<open>None\<close> stands for
  the documented failures: \<open>parse\<close> returning false, \<open>isMember\<close> on a value that is not an
  object (an assertion of the library), \<open>asInt\<close>/\<open>asString\<close> on a value that cannot be
  converted (an exception; no caller catches one). \<open>JIndet\<close> is a number the sources store
  whose value the language leaves open (an uninitialised variable, the cast of a double that
  does not fit).
\<close>

datatype jval = JInt int | JStr string | JIndet

text \<open>A metric is the object the tests hand to \<open>Json::FastWriter\<close>.\<close>

type_synonym metric = "(string \<times> jval) list"

record 'j jsonlib =
  j_parse :: "string \<Rightarrow> 'j option"
  j_member :: "'j \<Rightarrow> string \<Rightarrow> bool option"
  j_int :: "'j \<Rightarrow> string \<Rightarrow> int option"
  j_str :: "'j \<Rightarrow> string \<Rightarrow> string option"
  j_write :: "metric \<Rightarrow> string"

definition isMember :: "'j jsonlib \<Rightarrow> 'j \<Rightarrow> string \<Rightarrow> bool res" where
  "isMember J r k = need UncaughtException (j_member J r k)"

definition asInt :: "'j jsonlib \<Rightarrow> 'j \<Rightarrow> string \<Rightarrow> int res" where
  "asInt J r k = need UncaughtException (j_int J r k)"

definition asString :: "'j jsonlib \<Rightarrow> 'j \<Rightarrow> string \<Rightarrow> string res" where
  "asString J r k = need UncaughtException (j_str J r k)"

text \<open>\<open>root.isMember("id") \<and> root.isMember("type")\<close>, in the order of the source.\<close>

definition has_both :: "'j jsonlib \<Rightarrow> 'j \<Rightarrow> string \<Rightarrow> string \<Rightarrow> bool res" where
  "has_both J r a b =
     rbind (isMember J r a) (\<lambda>x. if x then isMember J r b else Inr False)"

text \<open>
  A small instance: objects are association lists, and the parser knows the texts of a table.
  The witnesses of the theorems run the model with it.
\<close>

definition table_json :: "(string \<times> metric) list \<Rightarrow> metric jsonlib" where
  "table_json t = \<lparr>
     j_parse = map_of t,
     j_member = (\<lambda>r k. Some (k \<in> fst ` set r)),
     j_int = (\<lambda>r k. case map_of r k of Some (JInt i) \<Rightarrow> Some i | None \<Rightarrow> Some 0 | _ \<Rightarrow> None),
     j_str = (\<lambda>r k. case map_of r k of Some (JStr s) \<Rightarrow> Some s | None \<Rightarrow> Some [] | _ \<Rightarrow> None),
     j_write = (\<lambda>m. concat (map (\<lambda>(k, v). k @ (case v of JInt i \<Rightarrow> show_int i | JStr s \<Rightarrow> s | JIndet \<Rightarrow> ''?'')) m))\<rparr>"

text \<open>The texts of a table the witnesses use: a UDP test, a PING test, and an unknown type.\<close>

definition demo_texts :: "(string \<times> metric) list" where
  "demo_texts =
     [(''u'', [(''id'', JInt 5), (''type'', JStr ''UDP''), (''host'', JStr ''10.0.0.1''),
               (''port'', JInt 9002), (''frenc'', JInt 60), (''timeout'', JInt 1500)]),
      (''p'', [(''id'', JInt 3), (''type'', JStr ''PING''), (''host'', JStr ''h'')]),
      (''h'', [(''id'', JInt 4), (''type'', JStr ''HTTP'')])]"

definition demo_J :: "metric jsonlib" where "demo_J = table_json demo_texts"

definition demo_root :: "string \<Rightarrow> metric" where
  "demo_root s = the (map_of demo_texts s)"

lemma demo_parse:
  "j_parse demo_J ''u'' = Some (demo_root ''u'')" "j_parse demo_J ''p'' = Some (demo_root ''p'')"
  "j_parse demo_J ''h'' = Some (demo_root ''h'')" "j_parse demo_J ''?'' = None"
  by (simp_all add: demo_J_def table_json_def demo_root_def demo_texts_def)

end
