(* ===== verification/Tool.thy ===== *)
theory Tool
  imports C_String
begin

unbundle bit_operations_syntax

section \<open>\<open>tool.cpp\<close>: time differences, the Internet checksum, descriptor passing, process title\<close>

text \<open>
  The free functions of \<open>tool.cpp\<close>. A \<open>struct timeval\<close> is a record of two 64-bit counts; the
  memory a function reads is the list of its bytes (the machine is little-endian, as the
  shipped x86-64 binary is); \<open>in_cksum\<close> keeps the 32-bit and 16-bit registers of the source.
  The two \<open>recvmsg\<close> calls of \<open>recv_openfd\<close> and the process memory of \<open>setproctitle\<close> are
  arguments. The lemmas give: exact microsecond subtraction, the checksum as a one's
  complement sum and its verification property, which descriptor is received, and that the
  title never leaves the argument area.
\<close>

subsection \<open>\<open>tv_sub\<close>\<close>

record timeval =
  tv_sec :: int
  tv_usec :: int

definition tv_sub :: "timeval \<Rightarrow> timeval \<Rightarrow> timeval res" where
  "tv_sub out inn =
     rbind (ck_long (tv_usec out - tv_usec inn)) (\<lambda>usec.
     rbind (if usec < 0
            then rbind (ck_long (tv_sec out - 1)) (\<lambda>s.
                 rbind (ck_long (usec + 1000000)) (\<lambda>u. Inr (s, u)))
            else Inr (tv_sec out, usec)) (\<lambda>(s, u).
     rbind (ck_long (s - tv_sec inn)) (\<lambda>s'.
     Inr (out\<lparr>tv_sec := s', tv_usec := u\<rparr>))))"

definition tv_normal :: "timeval \<Rightarrow> bool" where
  "tv_normal t \<longleftrightarrow> 0 \<le> tv_usec t \<and> tv_usec t < 1000000 \<and> \<bar>tv_sec t\<bar> < 2 ^ 61"

definition tv_micros :: "timeval \<Rightarrow> int" where
  "tv_micros t = 1000000 * tv_sec t + tv_usec t"

lemma tv_sub_normal:
  assumes "tv_normal a" "tv_normal b"
  shows "\<exists>d. tv_sub a b = Inr d \<and> tv_micros d = tv_micros a - tv_micros b \<and>
             0 \<le> tv_usec d \<and> tv_usec d < 1000000"
  using assms
  by (auto simp: tv_sub_def tv_normal_def tv_micros_def long_range_def ck_long_def)

subsection \<open>Little-endian loads and stores\<close>

fun le_nat :: "8 word list \<Rightarrow> nat" where
  "le_nat [] = 0"
| "le_nat (b # bs) = unat b + 256 * le_nat bs"

fun le_bytes :: "nat \<Rightarrow> nat \<Rightarrow> 8 word list" where
  "le_bytes 0 x = []"
| "le_bytes (Suc n) x = of_nat x # le_bytes n (x div 256)"

lemma length_le_bytes [simp]: "length (le_bytes n x) = n"
  by (induction n arbitrary: x) auto

lemma unat8_less: "unat (b :: 8 word) < 256"
  using unsigned_less [of b] by simp

lemma le_nat_less: "le_nat bs < 256 ^ length bs"
proof (induction bs)
  case (Cons b bs)
  have "unat b < 256" by (rule unat8_less)
  with Cons show ?case by simp
qed simp

lemma le_nat_le_bytes: "le_nat (le_bytes n x) = x mod 256 ^ n"
proof (induction n arbitrary: x)
  case (Suc n)
  have "x mod 256 + 256 * (x div 256 mod 256 ^ n) = x mod (256 * 256 ^ n)"
    by (metis add.commute mod_mult2_eq)
  with Suc show ?case by (simp add: unat_of_nat)
qed simp

lemma le_bytes_le_nat: "le_bytes (length bs) (le_nat bs) = bs"
proof (induction bs)
  case (Cons b bs)
  have "unat b < 256" by (rule unat8_less)
  moreover have "unat (of_nat (unat b + 256 * le_nat bs) :: 8 word) = unat b"
    by (simp only: unat_of_nat) (simp add: \<open>unat b < 256\<close>)
  then have "(of_nat (unat b + 256 * le_nat bs) :: 8 word) = b"
    by (rule word_unat_eq_iff [THEN iffD2])
  ultimately show ?case using Cons by simp
qed simp

lemma le_nat_append: "le_nat (xs @ ys) = le_nat xs + 256 ^ length xs * le_nat ys"
  by (induction xs) (auto simp: algebra_simps)

text \<open>Two's complement fields: \<open>int\<close> in 4 bytes, \<open>long\<close> in 8.\<close>

definition le_signed :: "8 word list \<Rightarrow> int" where
  "le_signed bs =
     (let x = int (le_nat bs); m = 256 ^ length bs in if 2 * x < m then x else x - m)"

definition le_signed_bytes :: "nat \<Rightarrow> int \<Rightarrow> 8 word list" where
  "le_signed_bytes n x = le_bytes n (nat (x mod 256 ^ n))"

lemma length_le_signed_bytes [simp]: "length (le_signed_bytes n x) = n"
  by (simp add: le_signed_bytes_def)

lemma le_signed_round:
  assumes "- (256 ^ n) \<le> 2 * x" "2 * x < 256 ^ n"
  shows "le_signed (le_signed_bytes n x) = x"
proof (cases "0 \<le> x")
  case True
  with assms have "x mod 256 ^ n = x" by (intro mod_pos_pos_trivial) auto
  with True assms show ?thesis
    by (simp add: le_signed_def le_signed_bytes_def le_nat_le_bytes nat_mod_as_int Let_def)
next
  case False
  with assms have "(x + 256 ^ n) mod 256 ^ n = x + 256 ^ n"
    by (intro mod_pos_pos_trivial) auto
  then have "x mod 256 ^ n = x + 256 ^ n" by simp
  with False assms show ?thesis
    by (simp add: le_signed_def le_signed_bytes_def le_nat_le_bytes nat_mod_as_int Let_def)
qed

subsection \<open>\<open>in_cksum\<close>\<close>

text \<open>The loop adds 16-bit words; reading past the memory handed to it is a fault.\<close>

fun cksum_loop :: "int \<Rightarrow> 8 word list \<Rightarrow> 32 word \<Rightarrow> (int \<times> 8 word list \<times> 32 word) res" where
  "cksum_loop nleft (a # b # w) acc =
     (if nleft > 1 then cksum_loop (nleft - 2) w (acc + of_nat (le_nat [a, b]))
      else Inr (nleft, a # b # w, acc))"
| "cksum_loop nleft w acc = (if nleft > 1 then Inl OutOfBounds else Inr (nleft, w, acc))"

definition in_cksum :: "8 word list \<Rightarrow> int \<Rightarrow> 16 word res" where
  "in_cksum addr len =
     rbind (cksum_loop len addr 0) (\<lambda>(nleft, w, acc).
     rbind (if nleft = 1
            then (case w of [] \<Rightarrow> Inl OutOfBounds | b # _ \<Rightarrow> Inr (acc + of_nat (unat b)))
            else Inr acc) (\<lambda>acc1.
     let acc2 = drop_bit 16 acc1 + (acc1 AND 0xffff);
         acc3 = acc2 + drop_bit 16 acc2
     in Inr (ucast (NOT acc3))))"

text \<open>The reference: the sum of the 16-bit words, the odd byte padded with zero.\<close>

fun sum16 :: "8 word list \<Rightarrow> nat" where
  "sum16 (a # b # w) = le_nat [a, b] + sum16 w"
| "sum16 [a] = unat a"
| "sum16 [] = 0"

definition ones_sum :: "nat \<Rightarrow> nat" where
  "ones_sum s = (if s = 0 then 0 else (s - 1) mod 65535 + 1)"

lemma sum16_bound: "sum16 bs \<le> 65535 * ((length bs + 1) div 2)"
proof (induction bs rule: sum16.induct)
  case (1 a b w)
  have "le_nat [a, b] < 256 ^ length [a, b]" by (rule le_nat_less)
  with 1 show ?case by simp
next
  case (2 a)
  have "unat a < 256" by (rule unat8_less)
  then show ?case by simp
qed simp

lemma sum16_append_even: "even (length xs) \<Longrightarrow> sum16 (xs @ ys) = sum16 xs + sum16 ys"
  by (induction xs rule: sum16.induct) auto

text \<open>The loop and the odd byte compute the sum modulo \<open>2 ^ 32\<close>.\<close>

lemma cksum_loop_sum:
  "\<exists>nl w s. cksum_loop (int (length bs)) bs s0 = Inr (nl, w, s) \<and>
     (nl = 1 \<and> (\<exists>b. w = [b] \<and> s + of_nat (unat b) = s0 + of_nat (sum16 bs)) \<or>
      nl = 0 \<and> s = s0 + of_nat (sum16 bs))"
proof (induction bs arbitrary: s0 rule: sum16.induct)
  case (1 a b w)
  from "1" [of "s0 + of_nat (le_nat [a, b])"] show ?case by (simp add: algebra_simps)
qed (auto simp: algebra_simps)

lemma unat_not32: "unat (NOT (x :: 32 word)) = 4294967295 - unat x"
proof -
  have "NOT x = (-1) - x" by (simp add: not_eq_complement)
  moreover have "unat ((-1) - x) = unat (-1 :: 32 word) - unat x"
    by (rule unat_sub) simp
  ultimately show ?thesis by (simp add: unsigned_minus_1_eq_mask mask_eq_exp_minus_1)
qed

lemma compl_mod: "j \<le> 4294967295 \<Longrightarrow> (4294967295 - j) mod 65536 = 65535 - j mod (65536 :: nat)"
proof -
  assume j: "j \<le> 4294967295"
  define q r where "q = j div 65536" and "r = j mod 65536"
  have eq: "j = q * 65536 + r" by (simp add: q_def r_def)
  have r: "r \<le> 65535" using mod_less_divisor [of 65536 j] unfolding r_def by linarith
  have q: "q \<le> 65535" using j unfolding eq by linarith
  have "4294967295 - j = (65535 - r) + (65535 - q) * 65536"
    using r q unfolding eq by (simp add: diff_mult_distrib)
  then have "(4294967295 - j) mod 65536 = (65535 - r) mod 65536" by (simp only: mod_mult_self1)
  with r show ?thesis unfolding r_def by simp
qed

lemma ones_sum_fold: "k \<le> 131070 \<Longrightarrow> (k + k div 65536) mod 65536 = ones_sum k"
proof -
  assume k: "k \<le> 131070"
  consider "k = 0" | "0 < k" "k < 65536" | "65536 \<le> k" by linarith
  then show ?thesis
  proof cases
    case 3
    with k have "k div 65536 = 1" by (simp add: div_nat_eqI)
    moreover have "(k + 1) mod 65536 = k - 65535" using 3 k by (simp add: mod_if)
    moreover have "(k - 1) mod 65535 = k - 65536" using 3 k by (simp add: mod_if)
    ultimately show ?thesis using 3 by (simp add: ones_sum_def)
  qed (auto simp: ones_sum_def)
qed

lemma ones_sum_mod: "n = k + 65535 * m \<Longrightarrow> 0 < k \<Longrightarrow> ones_sum n = ones_sum k"
proof -
  assume "n = k + 65535 * m" "0 < k"
  then have "n - 1 = k - 1 + m * 65535" by simp
  with \<open>0 < k\<close> \<open>n = _\<close> show ?thesis by (simp only: ones_sum_def mod_mult_self1) simp
qed

lemma fold16:
  fixes s :: "32 word"
  defines "s2 \<equiv> drop_bit 16 s + (s AND 0xffff)"
  shows "unat ((ucast (NOT (s2 + drop_bit 16 s2))) :: 16 word) = 65535 - ones_sum (unat s)"
proof -
  define n where "n = unat s"
  have n: "n < 2 ^ 32" unfolding n_def using unsigned_less [of s] by simp
  have m: "s AND 0xffff = take_bit 16 s" by (simp add: take_bit_eq_mask mask_eq_exp_minus_1)
  have u1: "unat (drop_bit 16 s) = n div 65536"
    by (simp add: unat_drop_bit_eq drop_bit_eq_div unat_div n_def)
  have u2: "unat (s AND 0xffff) = n mod 65536"
    by (simp add: m take_bit_eq_mod unat_mod n_def)
  have hi: "n div 65536 < 65536" using n by (simp add: less_mult_imp_div_less)
  have s2: "unat s2 = n div 65536 + n mod 65536"
    using hi mod_less_divisor [of 65536 n]
    by (simp add: s2_def unat_word_ariths u1 u2)
  define k where "k = n div 65536 + n mod 65536"
  have k: "k \<le> 131070"
    using hi mod_less_divisor [of 65536 n] unfolding k_def by linarith
  have u3: "unat (drop_bit 16 s2) = k div 65536"
    by (simp add: unat_drop_bit_eq drop_bit_eq_div unat_div s2 k_def)
  have kd: "k div 65536 \<le> 1" using k by (simp add: less_mult_imp_div_less)
  then have s3: "unat (s2 + drop_bit 16 s2) = k + k div 65536"
    using k by (simp add: unat_word_ariths u3 s2 flip: k_def)
  have "unat ((ucast (NOT (s2 + drop_bit 16 s2))) :: 16 word)
        = (4294967295 - (k + k div 65536)) mod 65536"
    using s3 by (simp add: unsigned_ucast_eq unat_not32 take_bit_eq_mod)
  also have "\<dots> = 65535 - (k + k div 65536) mod 65536"
    using k kd by (intro compl_mod) linarith
  also have "(k + k div 65536) mod 65536 = ones_sum k"
    using k by (rule ones_sum_fold)
  also have "ones_sum k = ones_sum n"
  proof (cases "k = 0")
    case True
    then have "n = 0" using div_mult_mod_eq [of n 65536] unfolding k_def by simp
    with True show ?thesis by simp
  next
    case False
    have "n = k + 65535 * (n div 65536)"
      using div_mult_mod_eq [of n 65536] unfolding k_def by linarith
    with False show ?thesis by (metis ones_sum_mod neq0_conv)
  qed
  finally show ?thesis by (simp add: n_def)
qed

text \<open>
  Up to 65536 words the 32-bit accumulator does not wrap, and the code computes the one's
  complement checksum; writing it into a zero checksum field makes the whole packet check.
\<close>

lemma in_cksum_ones:
  assumes "length bs \<le> 131072"
  shows "in_cksum bs (int (length bs)) = Inr (of_nat (65535 - ones_sum (sum16 bs)))"
proof -
  have b: "sum16 bs < 2 ^ 32"
  proof -
    have "(length bs + 1) div 2 \<le> 65536" using assms by linarith
    then have "65535 * ((length bs + 1) div 2) \<le> 65535 * 65536" by (rule mult_le_mono2)
    with sum16_bound [of bs] show ?thesis by simp
  qed
  define r where "r s = (let s2 = drop_bit 16 s + (s AND 0xffff)
     in ucast (NOT (s2 + drop_bit 16 s2)) :: 16 word)" for s :: "32 word"
  have r: "r s = of_nat (65535 - ones_sum (unat s))" for s
    using arg_cong [OF fold16 [of s], of "of_nat :: nat \<Rightarrow> 16 word"]
    by (simp only: r_def Let_def of_nat_unat ucast_id)
  obtain nl w s where l: "cksum_loop (int (length bs)) bs 0 = Inr (nl, w, s)"
    and c: "nl = 1 \<and> (\<exists>b. w = [b] \<and> s + of_nat (unat b) = 0 + of_nat (sum16 bs)) \<or>
      nl = 0 \<and> s = 0 + of_nat (sum16 bs)"
    using cksum_loop_sum [of bs 0] by blast
  from c have "in_cksum bs (int (length bs)) = Inr (r (of_nat (sum16 bs)))"
    by (auto simp: in_cksum_def l r_def Let_def)
  moreover have "unat (of_nat (sum16 bs) :: 32 word) = sum16 bs"
    using b by (simp add: unat_of_nat)
  ultimately show ?thesis by (simp add: r)
qed

text \<open>The checksum of a packet whose checksum word was zero, written into that word.\<close>

lemma ones_sum_le: "ones_sum s \<le> 65535"
  using mod_less_divisor [of 65535 "s - 1"] unfolding ones_sum_def by (simp add: Suc_le_eq)

lemma ones_sum_complement: "ones_sum (s + (65535 - ones_sum s)) = 65535"
proof (cases "s = 0")
  case False
  define q where "q = (s - 1) div 65535"
  have o: "ones_sum s = (s - 1) mod 65535 + 1" using False by (simp add: ones_sum_def)
  have "s - 1 = 65535 * q + (s - 1) mod 65535" by (simp add: q_def)
  with False o ones_sum_le [of s] have "s + (65535 - ones_sum s) = 65535 + 65535 * q"
    by linarith
  then show ?thesis by (simp add: ones_sum_mod) (simp add: ones_sum_def)
qed (simp add: ones_sum_def)

lemma in_cksum_verifies:
  assumes "length pre = 2" "length post \<le> 131068"
    and "in_cksum (pre @ [0, 0] @ post) (int (length (pre @ [0, 0] @ post))) = Inr c"
  shows "in_cksum (pre @ le_bytes 2 (unat c) @ post)
           (int (length (pre @ le_bytes 2 (unat c) @ post))) = Inr 0"
proof -
  define s where "s = sum16 (pre @ [0, 0] @ post)"
  have e: "even (length pre)" using assms(1) by simp
  have s: "s = sum16 pre + sum16 post" unfolding s_def by (subst sum16_append_even [OF e]) simp
  have "c = of_nat (65535 - ones_sum s)"
    using assms in_cksum_ones [of "pre @ [0, 0] @ post"] by (simp add: s_def)
  then have c: "unat c = 65535 - ones_sum s"
    by (simp only: unat_of_nat) simp
  have l2: "sum16 (le_bytes 2 x @ post) = x mod 65536 + sum16 post" for x
    using le_nat_le_bytes [of 2 x] by (simp add: numeral_2_eq_2)
  have "sum16 (pre @ le_bytes 2 (unat c) @ post) = s + (65535 - ones_sum s)"
    by (subst sum16_append_even [OF e]) (simp add: l2 c s)
  then have "in_cksum (pre @ le_bytes 2 (unat c) @ post)
      (int (length (pre @ le_bytes 2 (unat c) @ post))) = Inr (of_nat (65535 - 65535))"
    using assms by (subst in_cksum_ones) (simp_all add: ones_sum_complement)
  then show ?thesis by simp
qed

subsection \<open>\<open>send_openfd\<close> and \<open>recv_openfd\<close>\<close>

text \<open>
  What one \<open>recvmsg\<close> on the descriptor channel reports: an error (nothing queued on the
  non-blocking socket), end of file, or a message with or without a control header
  \<open>(level, type, descriptor)\<close>. A failed call leaves the caller's control buffer alone.
\<close>

type_synonym control = "int \<times> int \<times> int"

datatype recv_out = RecvErr | RecvEof | RecvMsg "control option"

definition SOL_SOCKET :: int where "SOL_SOCKET = 1"
definition SCM_RIGHTS :: int where "SCM_RIGHTS = 1"

text \<open>
  The control buffer after a call: \<open>None\<close> is \<open>msg_controllen = 0\<close>, which is what a message without a
  control header leaves; the next call then has no room for one.
\<close>

fun control_after :: "recv_out \<Rightarrow> control option \<Rightarrow> control option" where
  "control_after RecvErr c = c"
| "control_after RecvEof c = None"
| "control_after (RecvMsg m) c = (case c of None \<Rightarrow> None | Some old \<Rightarrow> m)"

text \<open>
  \<open>recv_openfd\<close> calls \<open>recvmsg\<close> twice; its count is unsigned, so \<open>n < 0\<close> is never true, and
  \<open>cmsg_len = CMSG_LEN(...)\<close> is an assignment, always true. \<open>junk\<close> is what the
  uninitialised control buffer holds.
\<close>

definition recv_openfd :: "control \<Rightarrow> recv_out \<Rightarrow> recv_out \<Rightarrow> int" where
  "recv_openfd junk r1 r2 =
     (let c = control_after r2 (control_after r1 (Some junk)) in
      if r2 = RecvEof then -1
      else case c of
        Some (level, typ, fd) \<Rightarrow>
          if level \<noteq> SOL_SOCKET then -1 else if typ \<noteq> SCM_RIGHTS then -1 else fd
      | None \<Rightarrow> -1)"

text \<open>
  The control header \<open>send_openfd\<close> hands to \<open>sendmsg\<close>, whose result it ignores: for the -1 of a failed
  \<open>open\<close> the call fails with \<open>EBADF\<close> and nothing is sent. On its way the descriptor is a reference to
  the open file; \<open>received_as\<close> is what the receiver finds, the number \<open>n\<close> the kernel has given the
  file there.
\<close>

definition send_openfd :: "int \<Rightarrow> control option" where
  "send_openfd openfd = (if openfd < 0 then None else Some (SOL_SOCKET, SCM_RIGHTS, openfd))"

fun received_as :: "int \<Rightarrow> control \<Rightarrow> recv_out" where
  "received_as n (level, typ, fd) = RecvMsg (Some (level, typ, n))"

lemma send_openfd_open: "0 \<le> fd \<Longrightarrow> send_openfd fd = Some (SOL_SOCKET, SCM_RIGHTS, fd)"
  by (simp add: send_openfd_def)

lemma recv_openfd_single: "send_openfd fd = Some c \<Longrightarrow> recv_openfd junk (received_as n c) RecvErr = n"
  by (auto simp: recv_openfd_def send_openfd_def split: if_splits)

lemma recv_openfd_two:
  "send_openfd fd1 = Some c1 \<Longrightarrow> send_openfd fd2 = Some c2 \<Longrightarrow>
   recv_openfd junk (received_as k c1) (received_as n c2) = n"
  by (auto simp: recv_openfd_def send_openfd_def split: if_splits)

text \<open>A byte without a descriptor before one with it: the second call has no room for the header.\<close>

lemma recv_openfd_no_room: "recv_openfd junk (RecvMsg None) (RecvMsg m) = -1"
  by (simp add: recv_openfd_def)

subsection \<open>\<open>setproctitle_init\<close> and \<open>setproctitle\<close>\<close>

text \<open>
  The kernel lays the argument and environment strings out one after the other, each with
  its NUL. The title area runs from \<open>argv[0]\<close> to the NUL of the last string
  (\<open>g_main_LastArgv\<close>), which is the last of the environment, or of the arguments when the
  environment is empty. The strings of the environment are copied away first.
\<close>

definition c_strings :: "string list \<Rightarrow> string" where
  "c_strings ss = concat (map (\<lambda>s. s @ [NUL]) ss)"

definition setproctitle_init :: "string list \<Rightarrow> string list \<Rightarrow> string list \<times> string" where
  "setproctitle_init argv envp = (map cstr envp, butlast (c_strings (argv @ envp)))"

definition MAXLINE :: nat where "MAXLINE = 2048"

text \<open>
  \<open>setproctitle\<close> of an already formatted title \<open>t\<close> over the area: the new contents of the area
  and the name given to \<open>prctl\<close>. \<open>vsprintf\<close> into \<open>buf[MAXLINE]\<close> is unchecked.
\<close>

definition setproctitle :: "string \<Rightarrow> string \<Rightarrow> (string \<times> string) res" where
  "setproctitle t area =
     (if length t \<ge> MAXLINE then Inl OutOfBounds
      else let room = int (length area) - 2;
               i = (if int (length t) > room then room else int (length t))
           in if i < 0 then Inl OutOfBounds
              else Inr (take (nat i) t @ replicate (length area - nat i) NUL, take (nat i) t))"

lemma setproctitle_in_area:
  assumes "NUL \<notin> set t" "length t < MAXLINE" "2 \<le> length area"
  shows "\<exists>area'. setproctitle t area = Inr (area', take (length area - 2) t) \<and>
           length area' = length area \<and> cstr area' = take (length area - 2) t"
proof -
  have n: "NUL \<notin> set (take k t)" for k using assms(1) by (meson in_set_takeD)
  have r: "cstr (replicate k NUL) = []" for k by (cases k) (auto simp: cstr_def)
  show ?thesis
    using assms
    by (auto simp: setproctitle_def Let_def n r cstr_append cstr_id nat_diff_distrib)
qed

subsection \<open>The checksum property\<close>

text \<open>C28. \<open>in_cksum\<close>, over the bytes of a packet whose checksum word (at offset 2) is zero, is the
  complement of the one's complement sum of its 16-bit words, for any packet up to 128 KB; and a
  packet with that value stored in the word has checksum 0, which is how a receiver checks it.\<close>

theorem in_cksum_correct:
  assumes "length pre = 2" "length post \<le> 131068"
  shows "\<exists>c. in_cksum (pre @ [0, 0] @ post) (int (length (pre @ [0, 0] @ post))) = Inr c \<and>
    unat c = 65535 - ones_sum (sum16 (pre @ [0, 0] @ post)) \<and>
    in_cksum (pre @ le_bytes 2 (unat c) @ post)
      (int (length (pre @ le_bytes 2 (unat c) @ post))) = Inr 0"
proof -
  define c :: "16 word" where "c = of_nat (65535 - ones_sum (sum16 (pre @ [0, 0] @ post)))"
  have c: "in_cksum (pre @ [0, 0] @ post) (int (length (pre @ [0, 0] @ post))) = Inr c"
    unfolding c_def by (rule in_cksum_ones) (use assms in simp)
  have "unat c = 65535 - ones_sum (sum16 (pre @ [0, 0] @ post))"
    unfolding c_def by (simp only: unat_of_nat) simp
  with c in_cksum_verifies [OF assms c] show ?thesis by blast
qed

theorem in_cksum_correct_witness:
  "\<exists>c. in_cksum ([8, 0] @ [0, 0] @ [1, 2, 3]) 7 = Inr c \<and>
     in_cksum ([8, 0] @ le_bytes 2 (unat c) @ [1, 2, 3]) 7 = Inr 0"
  using in_cksum_correct [of "[8, 0]" "[1, 2, 3]"] by auto

end
