(* ===== verification/Channel.thy ===== *)
theory Channel
  imports Tool
begin

section \<open>The channel between master and workers: \<open>channel_data\<close> over a byte stream\<close>

text \<open>
  Master and worker exchange \<open>channel_data\<close> structures (\<open>tool.h\<close>) over a stream socket: a
  32-bit type and 1000 bytes of text, 1004 bytes in all. \<open>Master::send_msg\<close> builds and writes
  one; on the receiving side both \<open>deal_channel_data\<close> loops take a structure off the
  \<open>evbuffer\<close> while 1004 bytes are there. The locale \<open>framing\<close> is that contract between a
  fixed-size codec and the loop: whatever the pieces in which the stream arrives, the loop
  delivers the messages that were written, in order. The interpretation \<open>chan\<close> discharges it
  for \<open>channel_data\<close>.
\<close>

subsection \<open>Fixed-size frames on a byte stream\<close>

function deframe :: "nat \<Rightarrow> ('b list \<Rightarrow> 'm) \<Rightarrow> 'b list \<Rightarrow> 'm list \<times> 'b list" where
  "deframe n dec buf =
     (if 0 < n \<and> n \<le> length buf
      then let (ms, rest) = deframe n dec (drop n buf) in (dec (take n buf) # ms, rest)
      else ([], buf))"
  by pat_completeness auto
termination
  by (relation "measure (\<lambda>(n, dec, buf). length buf)") auto

declare deframe.simps [simp del]

text \<open>
  One read event: the new bytes are appended to what was left over, complete structures are
  taken off.
\<close>

definition feed ::
  "nat \<Rightarrow> ('b list \<Rightarrow> 'm) \<Rightarrow> 'b list \<Rightarrow> 'm list \<times> 'b list \<Rightarrow> 'm list \<times> 'b list" where
  "feed n dec chunk st =
     (let (ms, rest) = deframe n dec (snd st @ chunk) in (fst st @ ms, rest))"

locale framing =
  fixes size :: nat
    and enc :: "'m \<Rightarrow> 'b list"
    and dec :: "'b list \<Rightarrow> 'm"
    and valid :: "'m \<Rightarrow> bool"
  assumes size_pos: "0 < size"
    and length_enc: "valid m \<Longrightarrow> length (enc m) = size"
    and dec_enc: "valid m \<Longrightarrow> dec (enc m) = m"
begin

lemma deframe_short: "length buf < size \<Longrightarrow> deframe size dec buf = ([], buf)"
  by (simp add: deframe.simps)

lemma deframe_frame:
  "length b = size \<Longrightarrow>
   deframe size dec (b @ rest) = (dec b # fst (deframe size dec rest), snd (deframe size dec rest))"
  using size_pos by (subst deframe.simps) (simp add: case_prod_beta Let_def)

lemma deframe_rest: "length (snd (deframe size dec buf)) < size"
proof (induction buf rule: measure_induct_rule [where f = length])
  case (less buf)
  show ?case
  proof (cases "size \<le> length buf")
    case True
    with size_pos less [of "drop size buf"] show ?thesis
      by (subst deframe.simps) (simp add: case_prod_beta Let_def)
  qed (simp add: deframe_short)
qed

lemma deframe_encoded:
  "list_all valid ms \<Longrightarrow> length rest < size \<Longrightarrow>
   deframe size dec (concat (map enc ms) @ rest) = (ms, rest)"
  by (induction ms) (simp_all add: deframe_short deframe_frame length_enc dec_enc)

lemma deframe_append:
  "deframe size dec (a @ b) =
     (fst (deframe size dec a) @ fst (deframe size dec (snd (deframe size dec a) @ b)),
      snd (deframe size dec (snd (deframe size dec a) @ b)))"
proof (induction a rule: measure_induct_rule [where f = length])
  case (less a)
  show ?case
  proof (cases "size \<le> length a")
    case True
    define f r where "f = take size a" and "r = drop size a"
    have a: "a = f @ r" and f: "length f = size" using True by (auto simp: f_def r_def)
    have "length r < length a" using True size_pos by (simp add: r_def)
    from less [OF this] show ?thesis
      by (simp add: a deframe_frame [OF f])
  qed (simp add: deframe_short)
qed

text \<open>However the stream is cut into chunks, the same structures come out.\<close>

lemma feed_chunks:
  "fold (feed size dec) chunks ([], []) = deframe size dec (concat chunks)"
proof (induction chunks rule: rev_induct)
  case Nil
  then show ?case using size_pos by (simp add: deframe_short)
next
  case (snoc c cs)
  then show ?case
    by (simp add: feed_def case_prod_beta Let_def deframe_append [of "concat cs" c])
qed

lemma feed_encoded:
  assumes "list_all valid ms" "length rest < size" "concat chunks = concat (map enc ms) @ rest"
  shows "fold (feed size dec) chunks ([], []) = (ms, rest)"
  using assms by (simp add: feed_chunks deframe_encoded)

end

subsection \<open>\<open>channel_data\<close>\<close>

definition MAX_MSG_LEN :: nat where "MAX_MSG_LEN = 1000"

record channel_data =
  cd_type :: int
  cd_msg :: string

definition channel_data_size :: nat where "channel_data_size = 4 + MAX_MSG_LEN"

definition byte_char :: "8 word \<Rightarrow> char" where "byte_char b = char_of (unat b)"
definition char_byte :: "char \<Rightarrow> 8 word" where "char_byte c = of_nat (of_char c)"

definition cd_bytes :: "channel_data \<Rightarrow> string" where
  "cd_bytes d = map byte_char (le_signed_bytes 4 (cd_type d)) @ cd_msg d"

definition cd_of_bytes :: "string \<Rightarrow> channel_data" where
  "cd_of_bytes bs =
     \<lparr>cd_type = le_signed (map char_byte (take 4 bs)), cd_msg = drop 4 bs\<rparr>"

definition cd_valid :: "channel_data \<Rightarrow> bool" where
  "cd_valid d \<longleftrightarrow> int_range (cd_type d) \<and> length (cd_msg d) = MAX_MSG_LEN"

lemma char_byte_byte_char [simp]: "char_byte (byte_char b) = b"
proof -
  have "(of_char (char_of (unat b)) :: nat) = unat b mod 256" by simp
  also have "\<dots> = unat b" using unat8_less [of b] by simp
  finally show ?thesis by (simp add: char_byte_def byte_char_def)
qed

lemma char_byte_comp [simp]: "char_byte \<circ> byte_char = id"
  by (simp add: fun_eq_iff)

interpretation chan: framing channel_data_size cd_bytes cd_of_bytes cd_valid
proof
  show "0 < channel_data_size" by (simp add: channel_data_size_def MAX_MSG_LEN_def)
next
  fix d assume "cd_valid d"
  then show "length (cd_bytes d) = channel_data_size"
    by (simp add: cd_valid_def cd_bytes_def channel_data_size_def)
next
  fix d assume "cd_valid d"
  then have "le_signed (le_signed_bytes 4 (cd_type d)) = cd_type d"
    by (intro le_signed_round) (simp_all add: cd_valid_def int_range_def)
  then show "cd_of_bytes (cd_bytes d) = d"
    by (simp add: cd_of_bytes_def cd_bytes_def)
qed

subsection \<open>\<open>Master::send_msg\<close>\<close>

text \<open>
  The structure is zeroed, then at most \<open>MAX_MSG_LEN\<close> bytes of the text are copied in. A text
  of 1000 bytes or more leaves no NUL behind.
\<close>

definition mk_channel_data :: "int \<Rightarrow> string \<Rightarrow> channel_data" where
  "mk_channel_data type msg =
     (let data_size = (if MAX_MSG_LEN > length msg then length msg else MAX_MSG_LEN)
      in \<lparr>cd_type = type,
          cd_msg = take data_size msg @ replicate (MAX_MSG_LEN - data_size) NUL\<rparr>)"

text \<open>The message types (\<open>master.h\<close>).\<close>

definition MASTER_MSG_TYPE_ADDCONF :: int where "MASTER_MSG_TYPE_ADDCONF = 0"
definition MASTER_MSG_TYPE_DELCONF :: int where "MASTER_MSG_TYPE_DELCONF = 1"
definition MASTER_MSG_TYPE_EDITCONF :: int where "MASTER_MSG_TYPE_EDITCONF = 2"
definition MASTER_MSG_TYPE_REDISPORT :: int where "MASTER_MSG_TYPE_REDISPORT = 6"

lemmas msg_type_defs = MASTER_MSG_TYPE_ADDCONF_def MASTER_MSG_TYPE_DELCONF_def
  MASTER_MSG_TYPE_EDITCONF_def MASTER_MSG_TYPE_REDISPORT_def

text \<open>A write to a descriptor: what the channel's socket is handed.\<close>

type_synonym fd_write = "int \<times> string"

definition send_msg :: "int \<Rightarrow> int \<Rightarrow> string \<Rightarrow> fd_write" where
  "send_msg channelfd type msg = (channelfd, cd_bytes (mk_channel_data type msg))"

text \<open>What the receiver reads out of \<open>data.msg\<close>, a \<open>char *\<close> for it.\<close>

definition msg_text :: "channel_data \<Rightarrow> string res" where
  "msg_text d = read_cstr (cd_msg d)"

lemma mk_channel_data_type [simp]: "cd_type (mk_channel_data t s) = t"
  by (simp add: mk_channel_data_def Let_def)

lemma cd_valid_mk: "int_range t \<Longrightarrow> cd_valid (mk_channel_data t s)"
  by (auto simp: cd_valid_def mk_channel_data_def Let_def)

lemma msg_text_short:
  assumes "length s < MAX_MSG_LEN" "NUL \<notin> set s"
  shows "msg_text (mk_channel_data t s) = Inr s"
proof -
  obtain k where k: "MAX_MSG_LEN - length s = Suc k"
    using assms(1) by (metis Suc_diff_Suc)
  have "cstr (NUL # replicate k NUL) = []" by (simp add: cstr_def)
  then show ?thesis
    using assms by (simp add: msg_text_def read_cstr_def mk_channel_data_def Let_def k cstr_append)
qed

lemma msg_text_long:
  assumes "MAX_MSG_LEN \<le> length s" "NUL \<notin> set s"
  shows "msg_text (mk_channel_data t s) = Inl OutOfBounds"
proof -
  have "NUL \<notin> set (take MAX_MSG_LEN s)" using assms(2) by (meson in_set_takeD)
  then show ?thesis
    using assms(1) by (simp add: msg_text_def read_cstr_def mk_channel_data_def Let_def)
qed

lemma decode_send_msg:
  "int_range t \<Longrightarrow> cd_of_bytes (snd (send_msg fd t s)) = mk_channel_data t s"
  by (simp add: send_msg_def chan.dec_enc cd_valid_mk)

subsection \<open>The worker's acknowledgement\<close>

text \<open>
  After an ADDCONF the worker zeroes \<open>data.msg\<close>, stores the test's id in its first four bytes
  and writes the structure back; the master reads the id with \<open>memcpy\<close>.
\<close>

definition ack_msg :: "int \<Rightarrow> channel_data \<Rightarrow> channel_data" where
  "ack_msg i d =
     d\<lparr>cd_msg := map byte_char (le_signed_bytes 4 i) @ replicate (MAX_MSG_LEN - 4) NUL\<rparr>"

definition ack_id :: "channel_data \<Rightarrow> int" where
  "ack_id d = le_signed (map char_byte (take 4 (cd_msg d)))"

lemma ack_id_msg: "int_range i \<Longrightarrow> ack_id (ack_msg i d) = i"
  by (simp add: ack_id_def ack_msg_def le_signed_round int_range_def)

lemma cd_valid_ack_msg: "cd_valid d \<Longrightarrow> cd_valid (ack_msg i d)"
  by (simp add: cd_valid_def ack_msg_def MAX_MSG_LEN_def)

end
