(* ===== verification/Conf_File.thy ===== *)
theory Conf_File
  imports C_String
begin

section \<open>Reading a file line by line\<close>

text \<open>
  Both configuration readers of the master run the loop
  \<open>while (!fs.eof()) { std::getline(fs, line); ... }\<close> over a \<open>std::fstream\<close>. The stream is
  modelled with the two facts the loop depends on: \<open>getline\<close> sets the end-of-file flag only
  when it runs into the end while reading, and a stream whose \<open>open\<close> failed never sets it. So
  the loop need not end, and it is a \<open>partial_function\<close> into \<open>option\<close>: \<open>None\<close> is the run that
  never returns.
\<close>

record istream =
  is_rest :: "string option"     \<comment> \<open>unread characters; \<open>None\<close> when \<open>open\<close> failed\<close>
  is_eof :: bool

definition is_open :: "string option \<Rightarrow> istream" where
  "is_open file = \<lparr>is_rest = file, is_eof = False\<rparr>"

definition getline :: "istream \<Rightarrow> string \<times> istream" where
  "getline st =
     (case is_rest st of
        None \<Rightarrow> ([], st)
      | Some s \<Rightarrow>
          let line = takeWhile (\<lambda>c. c \<noteq> LF) s in
          case dropWhile (\<lambda>c. c \<noteq> LF) s of
            [] \<Rightarrow> (line, \<lparr>is_rest = Some [], is_eof = True\<rparr>)
          | _ # rest \<Rightarrow> (line, st\<lparr>is_rest := Some rest\<rparr>))"

text \<open>One turn of the loop goes on, or returns from the enclosing function.\<close>

datatype 's turn = Continue 's | Return int 's

partial_function (option) getline_loop ::
  "(string \<Rightarrow> 's \<Rightarrow> 's turn res) \<Rightarrow> istream \<Rightarrow> 's \<Rightarrow> (int \<times> 's) res option" where
  "getline_loop body st s =
     (if is_eof st then Some (Inr (0, s))
      else case body (fst (getline st)) s of
             Inl f \<Rightarrow> Some (Inl f)
           | Inr (Return r s') \<Rightarrow> Some (Inr (r, s'))
           | Inr (Continue s') \<Rightarrow> getline_loop body (snd (getline st)) s')"

text \<open>The lines the loop sees: the pieces between line feeds, the last one possibly empty.\<close>

fun split_lines :: "string \<Rightarrow> string list" where
  "split_lines [] = [[]]"
| "split_lines (c # cs) =
     (if c = LF then [] # split_lines cs
      else case split_lines cs of [] \<Rightarrow> [[c]] | l # ls \<Rightarrow> (c # l) # ls)"

fun line_loop :: "(string \<Rightarrow> 's \<Rightarrow> 's turn res) \<Rightarrow> string list \<Rightarrow> 's \<Rightarrow> (int \<times> 's) res" where
  "line_loop body [] s = Inr (0, s)"
| "line_loop body (l # ls) s =
     rbind (body l s) (\<lambda>t. case t of Return r s' \<Rightarrow> Inr (r, s') | Continue s' \<Rightarrow> line_loop body ls s')"

lemma split_lines_not_Nil [simp]: "split_lines s \<noteq> []"
  by (cases s) (auto split: list.splits)

lemma split_lines_append:
  "LF \<notin> set l \<Longrightarrow> split_lines (l @ LF # rest) = l # split_lines rest"
proof (induction l)
  case (Cons a l)
  then have "a \<noteq> LF" "LF \<notin> set l" by (metis list.set_intros(1), metis list.set_intros(2))
  with Cons.IH show ?case by simp
qed simp

lemma split_lines_last: "LF \<notin> set l \<Longrightarrow> split_lines l = [l]"
proof (induction l)
  case (Cons a l)
  then have "a \<noteq> LF" "LF \<notin> set l" by (metis list.set_intros(1), metis list.set_intros(2))
  with Cons.IH show ?case by simp
qed simp

lemma split_lines_step:
  "split_lines s =
     (case dropWhile (\<lambda>c. c \<noteq> LF) s of
        [] \<Rightarrow> [takeWhile (\<lambda>c. c \<noteq> LF) s]
      | _ # rest \<Rightarrow> takeWhile (\<lambda>c. c \<noteq> LF) s # split_lines rest)"
proof (induction s)
  case (Cons a s)
  then show ?case
    by (cases "a = LF"; cases "dropWhile (\<lambda>c. c \<noteq> LF) s")
      (simp_all del: dropWhile_eq_Nil_conv)
qed simp

lemma length_drop_line: "dropWhile P s = c # rest \<Longrightarrow> length rest < length s"
  using length_dropWhile_le [of P s] by simp

text \<open>On a file that could be opened the loop ends: it handles \<open>split_lines\<close> in order.\<close>

lemma getline_loop_file:
  "getline_loop body \<lparr>is_rest = Some s, is_eof = False\<rparr> st = Some (line_loop body (split_lines s) st)"
proof (induction s arbitrary: st rule: measure_induct_rule [where f = length])
  case (less s)
  define line where "line = takeWhile (\<lambda>c. c \<noteq> LF) s"
  show ?case
  proof (cases "dropWhile (\<lambda>c. c \<noteq> LF) s")
    case Nil
    have g: "getline \<lparr>is_rest = Some s, is_eof = False\<rparr> = (line, \<lparr>is_rest = Some [], is_eof = True\<rparr>)"
      by (simp add: getline_def Nil line_def)
    have l: "split_lines s = [line]" by (subst split_lines_step) (simp add: Nil line_def)
    show ?thesis
      unfolding l getline_loop.simps [of body "\<lparr>is_rest = Some s, is_eof = False\<rparr>"] g
      by (simp add: getline_loop.simps [of _ "\<lparr>is_rest = Some [], is_eof = True\<rparr>"]
          split: sum.split turn.split)
  next
    case (Cons c rest)
    have g: "getline \<lparr>is_rest = Some s, is_eof = False\<rparr> = (line, \<lparr>is_rest = Some rest, is_eof = False\<rparr>)"
      by (simp add: getline_def Cons line_def)
    have l: "split_lines s = line # split_lines rest"
      by (subst split_lines_step) (simp add: Cons line_def)
    have "length rest < length s" by (rule length_drop_line [OF Cons])
    from less [OF this] show ?thesis
      unfolding l getline_loop.simps [of body "\<lparr>is_rest = Some s, is_eof = False\<rparr>"] g
      by (simp split: sum.split turn.split)
  qed
qed

lemma getline_loop_open: "getline_loop body (is_open (Some s)) st = Some (line_loop body (split_lines s) st)"
  by (simp add: is_open_def getline_loop_file)

text \<open>
  On a stream that could not be opened every line is empty and the end is never reached: a body
  that goes on after an empty line makes the loop run forever.
\<close>

lemma getline_loop_missing:
  assumes "\<And>s. \<exists>s'. body [] s = Inr (Continue s')"
  shows "getline_loop body (is_open None) st = None"
proof -
  have "getline_loop body (is_open None) st = Some y \<Longrightarrow> False" for y
  proof -
    assume "getline_loop body (is_open None) st = Some y"
    moreover have "b = body \<longrightarrow> i = is_open None \<longrightarrow> False" if "getline_loop b i s = Some z"
      for b i s and z :: "(int \<times> 'a) res"
    proof (rule getline_loop.raw_induct [OF _ that])
      fix rec and b :: "string \<Rightarrow> 'a \<Rightarrow> 'a turn res" and i s and z :: "(int \<times> 'a) res"
      assume IH: "\<And>b i s z. rec b i s = Some z \<Longrightarrow> b = body \<longrightarrow> i = is_open None \<longrightarrow> False"
        and eq: "(if is_eof i then Some (Inr (0, s))
          else case b (fst (getline i)) s of Inl f \<Rightarrow> Some (Inl f)
            | Inr (Continue s') \<Rightarrow> rec b (snd (getline i)) s'
            | Inr (Return r s') \<Rightarrow> Some (Inr (r, s'))) = Some z"
      obtain s' where "body [] s = Inr (Continue s')" using assms by blast
      with eq IH [of b i s' z] show "b = body \<longrightarrow> i = is_open None \<longrightarrow> False"
        by (auto simp: is_open_def getline_def)
    qed
    ultimately show False by blast
  qed
  then show ?thesis by (cases "getline_loop body (is_open None) st") auto
qed

text \<open>What each turn of the loop keeps, the loop keeps, however it ends.\<close>

lemma line_loop_inv:
  assumes "\<And>l s t. P s \<Longrightarrow> body l s = Inr (Continue t) \<Longrightarrow> P t"
    and "\<And>l s r t. P s \<Longrightarrow> body l s = Inr (Return r t) \<Longrightarrow> P t"
  shows "P s \<Longrightarrow> line_loop body ls s = Inr (r, s') \<Longrightarrow> P s'"
proof (induction ls arbitrary: s)
  case (Cons l ls)
  from Cons.prems(2) obtain t where t: "body l s = Inr t"
    "(case t of Return r s' \<Rightarrow> Inr (r, s') | Continue s' \<Rightarrow> line_loop body ls s') = Inr (r, s')"
    by (auto simp del: turn.case)
  show ?case
  proof (cases t)
    case (Continue s1)
    with t Cons.IH [OF assms(1) [OF Cons.prems(1)]] show ?thesis by simp
  next
    case (Return r1 s1)
    with t assms(2) [OF Cons.prems(1)] show ?thesis by simp
  qed
qed simp

end
