(* ===== verification/Master.thy ===== *)
theory Master
  imports Std_Map Logger Json_Lib Channel Conf_File
begin

section \<open>\<open>master.cpp\<close>: the master process\<close>

text \<open>
  The master keeps the configurations (id to JSON text), hands each to one of its workers over
  the worker's channel, serves the HTTP requests that add, change and delete them, and flushes
  them to the file it loaded them from. The state is a record with the members of the class and
  the traces of what was written: \<open>m_writes\<close> to the channels, \<open>m_fd_writes\<close> to the descriptor
  channels, \<open>m_files\<close> the flushed file, \<open>m_log\<close> the log. An iterator into \<open>configid_map\<close> is the
  key of its element; the program stores iterators and counts them, and follows none.

  Writes to the channels are taken to complete: the sources ignore the result of \<open>write\<close>. A
  function with a result type that ends without \<open>return\<close> is modelled without a fault when no
  caller looks at the result (\<open>distribute_conf\<close>, \<open>run\<close>, \<open>init\<close>).
\<close>

subsection \<open>State\<close>

record master =
  m_workernum :: int
  m_port :: int
  m_logger :: logger
  m_splitlog :: int
  m_flushconf :: int
  m_fifopath :: string
  m_redisport :: int
  m_test_conf_file :: string                       \<comment> \<open>\<open>char[128]\<close>\<close>
  m_server_conf_file :: string
  m_workerpids :: "int list"
  m_configid_map :: "(int, string) smap"           \<comment> \<open>id to JSON text\<close>
  m_config_map :: "(int, int list) smap"           \<comment> \<open>channel to the ids given to it\<close>
  m_configid_channel :: "(int, int) smap"          \<comment> \<open>id to channel\<close>
  m_channels :: "int list"
  m_channels_1 :: "int list"
  m_channel_pid :: "(int, int) smap"
  m_writes :: "fd_write list"
  m_fd_writes :: "(int \<times> control) list"            \<comment> \<open>descriptors sent to the workers\<close>
  m_freed_uris :: "string list"                    \<comment> \<open>strings of libevent's requests it freed\<close>
  m_files :: "(string \<times> string) list"
  m_log :: "log_effect list"

definition Master_new :: "master \<Rightarrow> master" where
  "Master_new junk = junk\<lparr>m_port := 8000, m_workernum := 0, m_redisport := -1, m_fifopath := [],
     m_workerpids := [], m_configid_map := [], m_config_map := [], m_configid_channel := [],
     m_channels := [], m_channels_1 := [], m_channel_pid := [], m_writes := [],
     m_fd_writes := [], m_freed_uris := [], m_files := [], m_log := []\<rparr>"

subsection \<open>Configuration files\<close>

definition MAX_CONFFILE_LEN :: nat where "MAX_CONFFILE_LEN = 128"

text \<open>\<open>bzero\<close>, then \<open>memcpy\<close> of \<open>strlen(filepath)\<close> bytes into 128.\<close>

definition conffile_buf :: "string \<Rightarrow> string res" where
  "conffile_buf path =
     (if length path \<le> MAX_CONFFILE_LEN
      then Inr (path @ replicate (MAX_CONFFILE_LEN - length path) NUL) else Inl OutOfBounds)"

text \<open>
  Each line is copied with \<open>memcpy(buf, line.c_str(), 256)\<close>, whatever its length: after a
  shorter line and its NUL come the bytes of memory behind it, the parameter \<open>over\<close>.
\<close>

definition line_buf :: "string \<Rightarrow> string \<Rightarrow> string" where
  "line_buf over line = take 256 (line @ NUL # over)"

definition skip_spaces :: "string \<Rightarrow> string" where
  "skip_spaces s = dropWhile (\<lambda>c. c = SP) s"

definition set_server :: "string \<Rightarrow> string \<Rightarrow> master \<Rightarrow> master res" where
  "set_server name value m =
     (if name = ''port'' then rbind (atoi value) (\<lambda>n. Inr (m\<lparr>m_port := n\<rparr>))
      else if name = ''workernum'' then rbind (atoi value) (\<lambda>n. Inr (m\<lparr>m_workernum := n\<rparr>))
      else if name = ''splitlog'' then rbind (atoi value) (\<lambda>n. Inr (m\<lparr>m_splitlog := n\<rparr>))
      else if name = ''flushconf'' then rbind (atoi value) (\<lambda>n. Inr (m\<lparr>m_flushconf := n\<rparr>))
      else if name = ''fifopath'' then Inr (m\<lparr>m_fifopath := value\<rparr>)
      else if name = ''redisport'' then rbind (atoi value) (\<lambda>n. Inr (m\<lparr>m_redisport := n\<rparr>))
      else Inr m)"

text \<open>
  The body of the loop of \<open>get_server_conf\<close>: blank lines and comments are skipped, the name
  ends at the first space (\<open>strchr\<close>; without one the line is skipped), the value starts after
  the spaces. A scan that leaves the 256 bytes is out of bounds.
\<close>

definition server_line :: "string \<Rightarrow> string \<Rightarrow> master \<Rightarrow> master turn res" where
  "server_line over line m =
     (case skip_spaces (line_buf over line) of
        [] \<Rightarrow> Inl OutOfBounds
      | c # cs \<Rightarrow>
          if c = NUL \<or> c = LF \<or> c = CHR ''#'' then Inr (Continue m)
          else case dropWhile (\<lambda>c. c \<noteq> SP \<and> c \<noteq> NUL) (c # cs) of
                 [] \<Rightarrow> Inl OutOfBounds
               | d # ds \<Rightarrow>
                   if d = NUL then Inr (Continue m)
                   else rbind (read_cstr (skip_spaces (d # ds))) (\<lambda>value.
                        rbind (set_server (takeWhile (\<lambda>c. c \<noteq> SP \<and> c \<noteq> NUL) (c # cs)) value m)
                          (\<lambda>m'. Inr (Continue m'))))"

definition get_server_conf ::
  "string \<Rightarrow> string option \<Rightarrow> string \<Rightarrow> master \<Rightarrow> (int \<times> master) res option" where
  "get_server_conf over file path m =
     (case conffile_buf path of Inl f \<Rightarrow> Some (Inl f)
      | Inr b \<Rightarrow> getline_loop (server_line over) (is_open file) (m\<lparr>m_server_conf_file := b\<rparr>))"

text \<open>
  \<open>get_test_conf\<close> uses the same copy, in a zeroed buffer of 1024 bytes, to skip blank lines and
  comments; the JSON parser gets the whole line. A line that does not parse, or lacks an id or
  a type, ends the load.
\<close>

definition test_line :: "'j jsonlib \<Rightarrow> string \<Rightarrow> string \<Rightarrow> master \<Rightarrow> master turn res" where
  "test_line J over line m =
     (case skip_spaces (line_buf over line @ replicate 768 NUL) of
        [] \<Rightarrow> Inl OutOfBounds
      | c # cs \<Rightarrow>
          if c = NUL \<or> c = LF \<or> c = CHR ''#'' then Inr (Continue m)
          else case j_parse J line of
                 None \<Rightarrow> Inr (Return (-1) m)
               | Some r \<Rightarrow>
                   rbind (has_both J r ''type'' ''id'') (\<lambda>ok.
                   if \<not> ok then Inr (Return (-1) m)
                   else rbind (asInt J r ''id'') (\<lambda>i.
                        Inr (Continue (m\<lparr>m_configid_map := smap_put i line (m_configid_map m)\<rparr>)))))"

definition get_test_conf ::
  "'j jsonlib \<Rightarrow> string \<Rightarrow> string option \<Rightarrow> string \<Rightarrow> master \<Rightarrow> (int \<times> master) res option" where
  "get_test_conf J over file path m =
     (case conffile_buf path of Inl f \<Rightarrow> Some (Inl f)
      | Inr b \<Rightarrow> getline_loop (test_line J over) (is_open file) (m\<lparr>m_test_conf_file := b\<rparr>))"

text \<open>The file is truncated and rewritten: each text, and two line feeds.\<close>

definition flushed :: "(int, string) smap \<Rightarrow> string" where
  "flushed cm = concat (map (\<lambda>(i, s). s @ [LF, LF]) cm)"

definition flush_test_conf :: "master \<Rightarrow> master res" where
  "flush_test_conf m =
     rbind (read_cstr (m_test_conf_file m)) (\<lambda>path.
     Inr (m\<lparr>m_files := m_files m @ [(path, flushed (m_configid_map m))]\<rparr>))"

subsection \<open>Workers\<close>

text \<open>
  One iteration of \<open>generate_worker\<close> in the parent: the ends it keeps of the two socket pairs,
  and the child's process id.
\<close>

definition spawn_parent :: "int \<times> int \<times> int \<Rightarrow> master \<Rightarrow> master" where
  "spawn_parent k m =
     (case k of (c0, c10, pid) \<Rightarrow>
        m\<lparr>m_channels := m_channels m @ [c0], m_channels_1 := m_channels_1 m @ [c10],
          m_workerpids := m_workerpids m @ [pid],
          m_channel_pid := smap_put c0 pid (m_channel_pid m),
          m_config_map := smap_put c0 [] (m_config_map m)\<rparr>)"

definition generate_worker :: "(int \<times> int \<times> int) list \<Rightarrow> master \<Rightarrow> int \<times> master" where
  "generate_worker ks m =
     (if m_workernum m \<le> 0 then (-1, m)
      else (0, fold spawn_parent (take (nat (m_workernum m)) ks) m))"

text \<open>
  The child of an iteration: it closes the parent's ends of its own pairs, then every end the
  parent had kept so far, and empties the tables it inherited. The result is the
  descriptors it closes before it builds its worker, those it closes afterwards, and its copy of the
  master.
\<close>

definition spawn_child :: "int \<Rightarrow> int \<Rightarrow> master \<Rightarrow> int list \<times> int list \<times> master" where
  "spawn_child c0 c10 m =
     ([c0, c10], m_channels m @ m_channels_1 m,
      m\<lparr>m_channels := [], m_channels_1 := [], m_channel_pid := [], m_config_map := [],
        m_workerpids := []\<rparr>)"

subsection \<open>Distribution\<close>

definition emit :: "int \<Rightarrow> int \<Rightarrow> string \<Rightarrow> master \<Rightarrow> master" where
  "emit fd type msg m = m\<lparr>m_writes := m_writes m @ [send_msg fd type msg]\<rparr>"

text \<open>\<open>channel_fd_vec[i % workernum]\<close>; operands are \<open>int\<close>, the index is unchecked.\<close>

definition pick_channel :: "int \<Rightarrow> master \<Rightarrow> int res" where
  "pick_channel i m =
     (if m_workernum m = 0 then Inl DivByZero
      else let k = i smod m_workernum m in
           if 0 \<le> k \<and> k < int (length (m_channels m)) then Inr (m_channels m ! nat k)
           else Inl OutOfBounds)"

definition assign_channel :: "int \<Rightarrow> int \<Rightarrow> master \<Rightarrow> master" where
  "assign_channel i fd m =
     (let (ids, cm) = smap_index [] fd (m_config_map m) in
      m\<lparr>m_configid_channel := smap_put i fd (m_configid_channel m),
        m_config_map := smap_put fd (ids @ [i]) cm\<rparr>)"

definition distribute_one :: "int \<times> string \<Rightarrow> int \<times> master \<Rightarrow> (int \<times> master) res" where
  "distribute_one entry st =
     (case (entry, st) of ((key, text), (i, m)) \<Rightarrow>
        rbind (pick_channel i m) (\<lambda>fd.
        let m1 = emit fd MASTER_MSG_TYPE_ADDCONF text (assign_channel key fd m) in
        rbind (sprintf_buf 6 (show_int (m_redisport m))) (\<lambda>portstr.
        rbind (ck_int (i + 1)) (\<lambda>i'.
        Inr (i', emit fd MASTER_MSG_TYPE_REDISPORT portstr m1)))))"

definition distribute_conf :: "master \<Rightarrow> master res" where
  "distribute_conf m =
     rbind (fold_res distribute_one (m_configid_map m) (0, m)) (\<lambda>(_, m'). Inr m')"

subsection \<open>The channel from the workers\<close>

text \<open>One structure off the input buffer of channel \<open>fd\<close>: only ADDCONF is acted on.\<close>

definition master_msg :: "int \<Rightarrow> channel_data \<Rightarrow> master \<Rightarrow> master" where
  "master_msg fd d m =
     (if cd_type d = MASTER_MSG_TYPE_ADDCONF
      then m\<lparr>m_configid_channel := smap_put (ack_id d) fd (m_configid_channel m)\<rparr> else m)"

definition master_channel_data :: "int \<Rightarrow> string \<Rightarrow> master \<Rightarrow> string \<times> master" where
  "master_channel_data fd buf m =
     (let (ds, rest) = deframe channel_data_size cd_of_bytes buf in (rest, fold (master_msg fd) ds m))"

subsection \<open>Log rotation\<close>

text \<open>A descriptor that \<open>sendmsg\<close> refuses is not sent on any channel.\<close>

definition master_split_log :: "string \<Rightarrow> bool \<Rightarrow> int \<Rightarrow> master \<Rightarrow> master" where
  "master_split_log tb renamed newfd m =
     (let (fd, lg, es) = split_log tb renamed newfd (m_logger m);
          sent = (case send_openfd fd of None \<Rightarrow> [] | Some c \<Rightarrow> map (\<lambda>ch. (ch, c)) (m_channels_1 m)) in
      m\<lparr>m_logger := lg, m_log := m_log m @ es, m_fd_writes := m_fd_writes m @ sent\<rparr>)"

subsection \<open>HTTP requests\<close>

datatype http_cmd = GET | POST | DELETE | PUT | OTHER

text \<open>
  The channel with the fewest entries, in the order of the descriptors: \<open>min\<close> starts at one
  million, the iterator at the first entry. \<open>None\<close>: the iterator was never assigned.
\<close>

definition least_step :: "int \<times> int list \<Rightarrow> int \<times> int option \<Rightarrow> int \<times> int option" where
  "least_step entry st =
     (case (entry, st) of ((fd, ids), (mn, best)) \<Rightarrow>
        let best' = (if best = None then Some fd else best) in
        if mn > int (length ids) then (int (length ids), Some fd) else (mn, best'))"

definition least_loaded :: "(int, int list) smap \<Rightarrow> int option" where
  "least_loaded cm = snd (fold least_step cm (1000000, None))"

text \<open>
  The body of a request is read up to its first NUL. \<open>req_object\<close> is the common front of both
  handlers: \<open>None\<close> where they return early.
\<close>

definition req_object :: "'j jsonlib \<Rightarrow> http_cmd \<Rightarrow> string \<Rightarrow> (int \<times> string) option res" where
  "req_object J cmd body =
     (if cmd \<noteq> POST then Inr None
      else case j_parse J (cstr body) of
             None \<Rightarrow> Inr None
           | Some r \<Rightarrow>
               rbind (has_both J r ''id'' ''type'') (\<lambda>ok.
               if \<not> ok then Inr None
               else rbind (asInt J r ''id'') (\<lambda>i. Inr (Some (i, cstr body)))))"

text \<open>\<open>configid_channel_map[id]\<close> used as an expression: a missing id gets the channel 0.\<close>

definition channel_of :: "int \<Rightarrow> master \<Rightarrow> int \<times> master" where
  "channel_of i m =
     (let (fd, cc) = smap_index 0 i (m_configid_channel m) in (fd, m\<lparr>m_configid_channel := cc\<rparr>))"

definition put_config :: "int \<Rightarrow> string \<Rightarrow> master \<Rightarrow> master" where
  "put_config i text m = m\<lparr>m_configid_map := smap_put i text (m_configid_map m)\<rparr>"

definition add_config :: "int \<Rightarrow> string \<Rightarrow> master \<Rightarrow> master res" where
  "add_config i text m =
     rbind (need UninitRead (least_loaded (m_config_map m))) (\<lambda>fd.
     Inr (emit fd MASTER_MSG_TYPE_ADDCONF text (assign_channel i fd (put_config i text m))))"

definition edit_config :: "int \<Rightarrow> string \<Rightarrow> master \<Rightarrow> master" where
  "edit_config i text m =
     (let (fd, m1) = channel_of i (put_config i text m) in emit fd MASTER_MSG_TYPE_EDITCONF text m1)"

definition deal_metric_request ::
  "'j jsonlib \<Rightarrow> http_cmd \<Rightarrow> string \<Rightarrow> master \<Rightarrow> master res" where
  "deal_metric_request J cmd body m =
     rbind (req_object J cmd body) (\<lambda>r.
     case r of None \<Rightarrow> Inr m
     | Some (i, text) \<Rightarrow>
         (case smap_find (m_configid_map m) i of
            None \<Rightarrow> add_config i text m
          | Some _ \<Rightarrow> Inr (edit_config i text m)))"

definition delete_metric_request ::
  "'j jsonlib \<Rightarrow> http_cmd \<Rightarrow> string \<Rightarrow> master \<Rightarrow> master res" where
  "delete_metric_request J cmd body m =
     rbind (req_object J cmd body) (\<lambda>r.
     case r of None \<Rightarrow> Inr m
     | Some (i, text) \<Rightarrow>
         (case smap_find (m_configid_map m) i of
            None \<Rightarrow> Inr m
          | Some _ \<Rightarrow>
              (let (fd, m1) = channel_of i (m\<lparr>m_configid_map := smap_erase i (m_configid_map m)\<rparr>)
               in Inr (emit fd MASTER_MSG_TYPE_DELCONF text m1))))"

text \<open>
  The dispatch on the request's URI; every request is answered with 200. The callback then frees
  the URI, a string of the request, which libevent still owns and frees with the request: the model
  records the freed strings, since what the second \<open>free\<close> does happens in the library.
\<close>

definition free_uri :: "string \<Rightarrow> master \<Rightarrow> master" where
  "free_uri uri m = m\<lparr>m_freed_uris := m_freed_uris m @ [uri]\<rparr>"

definition metric_request_cb ::
  "'j jsonlib \<Rightarrow> string \<Rightarrow> http_cmd \<Rightarrow> string \<Rightarrow> master \<Rightarrow> master res" where
  "metric_request_cb J uri cmd body m =
     rbind (if uri = ''/metric'' then deal_metric_request J cmd body m
            else if uri = ''/metric/delete'' then delete_metric_request J cmd body m
            else Inr m) (\<lambda>m'. Inr (free_uri uri m'))"

lemma free_uri_fields [simp]:
  "m_workernum (free_uri u m) = m_workernum m" "m_logger (free_uri u m) = m_logger m"
  "m_redisport (free_uri u m) = m_redisport m" "m_test_conf_file (free_uri u m) = m_test_conf_file m"
  "m_configid_map (free_uri u m) = m_configid_map m" "m_config_map (free_uri u m) = m_config_map m"
  "m_configid_channel (free_uri u m) = m_configid_channel m" "m_channels (free_uri u m) = m_channels m"
  "m_channels_1 (free_uri u m) = m_channels_1 m" "m_writes (free_uri u m) = m_writes m"
  "m_fd_writes (free_uri u m) = m_fd_writes m" "m_files (free_uri u m) = m_files m"
  "m_log (free_uri u m) = m_log m" "m_freed_uris (free_uri u m) = m_freed_uris m @ [u]"
  by (simp_all add: free_uri_def)

lemma metric_request_cbE:
  assumes "metric_request_cb J uri cmd body m = Inr m'"
  obtains (deal) m1 where "uri = ''/metric''" "deal_metric_request J cmd body m = Inr m1" "m' = free_uri uri m1"
  | (del) m1 where "uri = ''/metric/delete''" "delete_metric_request J cmd body m = Inr m1" "m' = free_uri uri m1"
  | (neither) "uri \<noteq> ''/metric''" "uri \<noteq> ''/metric/delete''" "m' = free_uri uri m"
  using assms by (cases "uri = ''/metric''"; cases "uri = ''/metric/delete''") (auto simp: metric_request_cb_def)

subsection \<open>The event loop\<close>

text \<open>
  The inputs are what \<open>run\<close> and \<open>generate_worker\<close> ask libevent to watch (theory \<open>Event_Loop\<close>):
  HTTP requests, the channels and three timers. Bytes on a channel come with the rest left over
  from the last read, which libevent keeps.
\<close>

datatype master_input =
    Http string http_cmd string
  | ChannelRead int string
  | DistributeDue
  | FlushDue
  | SplitLogDue string bool int

fun master_handle :: "'j jsonlib \<Rightarrow> master_input \<Rightarrow> master \<Rightarrow> master res" where
  "master_handle J (Http uri cmd body) m = metric_request_cb J uri cmd body m"
| "master_handle J (ChannelRead fd buf) m =
     (if fd \<in> set (m_channels m) then Inr (snd (master_channel_data fd buf m)) else Inr m)"
| "master_handle J DistributeDue m = distribute_conf m"
| "master_handle J FlushDue m = flush_test_conf m"
| "master_handle J (SplitLogDue tb renamed newfd) m = Inr (master_split_log tb renamed newfd m)"

end
