(* ===== verification/Master_Props.thy ===== *)
theory Master_Props
  imports Master_Inv
begin

section \<open>What the master does with configurations and requests\<close>

text \<open>
  The properties of the master: it runs without faults while the JSON library's conversions
  succeed, its messages go to the workers, the configuration table refines an abstract
  dictionary, distribution and additions keep the workers evenly loaded, flushing and loading
  are inverse; and the inputs for which each of these fails.
\<close>

subsection \<open>Progress\<close>

definition master_safe :: "master \<Rightarrow> bool" where
  "master_safe m \<longleftrightarrow> master_inv m \<and> NUL \<in> set (m_test_conf_file m) \<and>
     length (show_int (m_redisport m)) < 6"

definition input_ok :: "'j jsonlib \<Rightarrow> master_input \<Rightarrow> master \<Rightarrow> bool" where
  "input_ok J e m =
     (case e of Http uri cmd body \<Rightarrow> (case req_object J cmd body of Inl f \<Rightarrow> False | Inr r \<Rightarrow> True)
      | DistributeDue \<Rightarrow> length (m_configid_map m) < 2 ^ 31
      | _ \<Rightarrow> True)"

lemma handle_consts:
  assumes "master_handle J e m = Inr m'" "master_inv m"
  shows "m_redisport m' = m_redisport m \<and> m_test_conf_file m' = m_test_conf_file m \<and>
    m_channels m' = m_channels m"
proof -
  have c: "m_redisport m1 = m_redisport m0 \<and> m_test_conf_file m1 = m_test_conf_file m0 \<and>
      m_channels m1 = m_channels m0" if "channel_of i m0 = (fd, m1)" for i fd m0 m1
    using that by (auto simp: channel_of_def split: prod.splits)
  show ?thesis
  proof (cases e)
    case (Http uri cmd body)
    have "m_redisport m' = m_redisport m \<and> m_test_conf_file m' = m_test_conf_file m \<and>
      m_channels m' = m_channels m" if "deal_metric_request J cmd body m = Inr m'" for m'
      using that
    proof (cases rule: deal_metric_cases)
      case (added i js)
      with add_config_inv [OF added(3) assms(2)] show ?thesis by simp
    next
      case (edited i js s)
      obtain fd m1 where x: "channel_of i (put_config i js m) = (fd, m1)" by fastforce
      with c [OF x] edited(3) show ?thesis by (simp add: edit_config_def)
    qed simp
    moreover have "m_redisport m' = m_redisport m \<and> m_test_conf_file m' = m_test_conf_file m \<and>
      m_channels m' = m_channels m" if "delete_metric_request J cmd body m = Inr m'" for m'
      using that
    proof (cases rule: delete_metric_cases)
      case (deleted i js s fd m1)
      with c [OF deleted(3)] show ?thesis by simp
    qed simp_all
    ultimately show ?thesis
      using assms(1) Http by (auto elim!: metric_request_cbE)
  next
    case (ChannelRead fd buf)
    have "m_redisport (fold (master_msg fd) ds m0) = m_redisport m0 \<and>
      m_test_conf_file (fold (master_msg fd) ds m0) = m_test_conf_file m0 \<and>
      m_channels (fold (master_msg fd) ds m0) = m_channels m0" for ds m0
      by (induction ds arbitrary: m0) (auto simp: master_msg_def)
    with assms(1) ChannelRead show ?thesis
      by (auto simp: master_channel_data_def case_prod_beta Let_def split: if_splits)
  next
    case DistributeDue
    with assms distribute_conf_inv show ?thesis by auto
  next
    case FlushDue
    with assms(1) show ?thesis by (auto simp: flush_test_conf_def)
  next
    case (SplitLogDue tb ren newfd)
    with assms(1) show ?thesis by (auto simp: master_split_log_def case_prod_beta Let_def)
  qed
qed

lemma pick_channel_total:
  assumes "master_inv m" "0 \<le> i"
  shows "pick_channel i m = Inr (m_channels m ! nat (i mod m_workernum m))"
proof -
  have "0 < m_workernum m" "int (length (m_channels m)) = m_workernum m"
    using assms(1) by (simp_all add: master_inv_def)
  moreover have "i smod m_workernum m = i mod m_workernum m"
    using assms(2) calculation(1) by (cases "i = 0") (simp_all add: smod_int_alt_def)
  ultimately show ?thesis
    by (simp add: pick_channel_def Let_def)
qed

lemma distribute_fold_total:
  assumes "master_inv m" "length (show_int (m_redisport m)) < 6" "0 \<le> i" "i + int (length es) < 2 ^ 31"
  shows "\<exists>x. fold_res distribute_one es (i, m) = Inr x"
  using assms
proof (induction es arbitrary: i m)
  case (Cons e es)
  obtain key js where e: "e = (key, js)" by (cases e)
  define fd where "fd = m_channels m ! nat (i mod m_workernum m)"
  define m1 where "m1 = emit fd MASTER_MSG_TYPE_REDISPORT (show_int (m_redisport m))
      (emit fd MASTER_MSG_TYPE_ADDCONF js (assign_channel key fd m))"
  have s: "distribute_one (key, js) (i, m) = Inr (i + 1, m1)"
    using pick_channel_total [OF Cons.prems(1,3)] Cons.prems(2-4)
    by (simp add: distribute_one_def Let_def sprintf_buf_def ck_int_def int_range_def m1_def fd_def)
  note i = distribute_one_inv [OF s Cons.prems(1)]
  have "\<exists>x. fold_res distribute_one es (i + 1, m1) = Inr x"
    using i Cons.prems by (intro Cons.IH) auto
  with s show ?case by (simp add: e)
qed simp

lemma master_step_safe:
  assumes "master_safe m" "input_ok J e m"
  shows "\<exists>m'. master_handle J e m = Inr m'"
proof (cases e)
  case (Http uri cmd body)
  obtain r where r: "req_object J cmd body = Inr r"
    using assms(2) Http by (auto simp: input_ok_def split: sum.splits)
  obtain fd where "least_loaded (m_config_map m) = Some fd"
    using least_loaded_channel assms(1) by (auto simp: master_safe_def)
  then show ?thesis
    using r Http
    by (auto simp: metric_request_cb_def deal_metric_request_def delete_metric_request_def
        add_config_def case_prod_beta Let_def split: option.splits)
next
  case DistributeDue
  then obtain x where "fold_res distribute_one (m_configid_map m) (0, m) = Inr x"
    using distribute_fold_total [of m 0 "m_configid_map m"] assms
    by (auto simp: master_safe_def input_ok_def)
  with DistributeDue show ?thesis by (cases x) (simp add: distribute_conf_def)
next
  case FlushDue
  with assms(1) show ?thesis
    by (simp add: flush_test_conf_def read_cstr_def master_safe_def)
qed (auto)

interpretation ms: safe_machine "master_handle J" master_safe "input_ok J" for J
proof
  fix m e m' assume "master_safe m" "master_handle J e m = Inr m'"
  then show "master_safe m'"
    using master_handle_inv [of J e m m'] handle_consts [of J e m m'] by (auto simp: master_safe_def)
qed (rule master_step_safe)

subsection \<open>Distribution and load\<close>

definition load_of :: "master \<Rightarrow> int \<Rightarrow> int list" where
  "load_of m fd = (case smap_find (m_config_map m) fd of None \<Rightarrow> [] | Some ids \<Rightarrow> ids)"

definition balanced :: "master \<Rightarrow> bool" where
  "balanced m \<longleftrightarrow> (\<forall>fd \<in> set (m_channels m). \<forall>fd' \<in> set (m_channels m).
     length (load_of m fd) \<le> length (load_of m fd') + 1)"

lemma load_of_frame: "m_config_map m' = m_config_map m \<Longrightarrow> load_of m' = load_of m"
  by (simp add: load_of_def fun_eq_iff)

lemma load_of_assign:
  "smap_ok (m_config_map m) \<Longrightarrow>
   load_of (assign_channel i fd m) x = (if x = fd then load_of m fd @ [i] else load_of m x)"
  by (simp add: load_of_def assign_channel_fields(9))

text \<open>The channel of the \<open>k\<close>-th configuration, and what is written for it.\<close>

definition turn_of :: "int list \<Rightarrow> nat \<Rightarrow> int" where
  "turn_of chans k = chans ! (k mod length chans)"

definition turn_writes :: "int list \<Rightarrow> int \<Rightarrow> nat \<times> int \<times> string \<Rightarrow> fd_write list" where
  "turn_writes chans port = (\<lambda>(k, key, js).
     [send_msg (turn_of chans k) MASTER_MSG_TYPE_ADDCONF js,
      send_msg (turn_of chans k) MASTER_MSG_TYPE_REDISPORT (show_int port)])"

lemma distribute_turn:
  assumes "distribute_one (key, js) (int k, m) = Inr (i', m')" "master_inv m"
  shows "i' = int (Suc k) \<and>
    m_writes m' = m_writes m @ turn_writes (m_channels m) (m_redisport m) (k, key, js) \<and>
    (\<forall>x. load_of m' x = (if x = turn_of (m_channels m) k then load_of m x @ [key] else load_of m x)) \<and>
    smap_find (m_configid_channel m') key = Some (turn_of (m_channels m) k)"
proof -
  obtain fd where p: "pick_channel (int k) m = Inr fd" and i': "i' = int k + 1"
    and m': "m' = emit fd MASTER_MSG_TYPE_REDISPORT (show_int (m_redisport m))
           (emit fd MASTER_MSG_TYPE_ADDCONF js (assign_channel key fd m))"
    using distribute_one_eq [OF assms(1)] by blast
  have w: "m_workernum m = int (length (m_channels m))" and ok: "smap_ok (m_config_map m)"
    using assms(2) by (simp_all add: master_inv_def)
  have fd: "fd = turn_of (m_channels m) k"
    using pick_channel_total [OF assms(2), of "int k"] p by (simp add: turn_of_def w flip: zmod_int)
  show ?thesis
    using load_of_assign [OF ok, of key fd] assign_channel_fields(4,7) [OF ok, of key fd] i'
    by (auto simp: m' fd turn_writes_def load_of_def)
qed

lemma turn_index:
  assumes "distinct chans" "j < length chans"
  shows "chans ! j = turn_of chans k \<longleftrightarrow> j = k mod length chans"
proof -
  have "k mod length chans < length chans"
    by (rule mod_less_divisor) (use assms(2) in linarith)
  with assms show ?thesis by (simp add: turn_of_def nth_eq_iff_index_eq)
qed

lemma share_Suc:
  assumes "j < w"
  shows "Suc k div w + (if j < Suc k mod w then 1 else 0) =
    k div w + (if j < k mod w then 1 else 0) + (if j = k mod w then 1 else (0 :: nat))"
  using assms by (auto simp: div_Suc mod_Suc)

lemma distribute_fold_turns:
  assumes "fold_res distribute_one es (int k, m) = Inr (i', m')" "master_inv m"
    and "distinct (m_channels m)"
    and "\<forall>j < length (m_channels m). length (load_of m (m_channels m ! j)) =
      k div length (m_channels m) + (if j < k mod length (m_channels m) then 1 else 0)"
  shows "m_writes m' = m_writes m @
      concat (map (turn_writes (m_channels m) (m_redisport m)) (zip [k..<k + length es] es)) \<and>
    (\<forall>j < length (m_channels m). length (load_of m' (m_channels m ! j)) =
      (k + length es) div length (m_channels m) +
      (if j < (k + length es) mod length (m_channels m) then 1 else 0))"
  using assms
proof (induction es arbitrary: k m)
  case (Cons e es)
  obtain key js where e: "e = (key, js)" by (cases e)
  from Cons.prems(1) obtain i1 m1 where s: "distribute_one (key, js) (int k, m) = Inr (i1, m1)"
    "fold_res distribute_one es (i1, m1) = Inr (i', m')" by (auto simp: e)
  note t = distribute_turn [OF s(1) Cons.prems(2)]
  note inv = distribute_one_inv [OF s(1) Cons.prems(2)]
  have i1: "i1 = int (Suc k)" and ch: "m_channels m1 = m_channels m"
    and rp: "m_redisport m1 = m_redisport m"
    using t inv by simp_all
  have L: "\<forall>j < length (m_channels m1). length (load_of m1 (m_channels m1 ! j)) =
      Suc k div length (m_channels m1) + (if j < Suc k mod length (m_channels m1) then 1 else 0)"
  proof (intro allI impI)
    fix j assume "j < length (m_channels m1)"
    then have j: "j < length (m_channels m)" by (simp add: ch)
    show "length (load_of m1 (m_channels m1 ! j)) =
      Suc k div length (m_channels m1) + (if j < Suc k mod length (m_channels m1) then 1 else 0)"
      using t j turn_index [OF Cons.prems(3) j, of k] Cons.prems(4) share_Suc [OF j, of k]
      by (simp add: ch)
  qed
  have "[k..<k + length (e # es)] = k # [Suc k..<Suc k + length es]" by (simp add: upt_rec)
  with Cons.IH [OF s(2) [unfolded i1] _ _ L] t inv Cons.prems(3) show ?case
    by (simp add: ch rp e)
qed simp

text \<open>C13. The distribution after the start gives the \<open>k\<close>-th configuration, in the order of the ids,
  to channel \<open>k\<close> modulo the number of workers, each ADDCONF followed by a REDISPORT on the same
  channel, and loads the workers evenly: with \<open>N\<close> configurations and \<open>w\<close> workers, the first
  \<open>N mod w\<close> workers get one more than the others.\<close>

theorem distribute_round_robin:
  assumes "master_inv m" "distinct (m_channels m)" "\<forall>fd. load_of m fd = []" "m_writes m = []"
    and "distribute_conf m = Inr m'"
  shows "m_writes m' = concat (map (turn_writes (m_channels m) (m_redisport m))
      (zip [0..<length (m_configid_map m)] (m_configid_map m))) \<and>
    (\<forall>j < length (m_channels m). length (load_of m' (m_channels m ! j)) =
      length (m_configid_map m) div length (m_channels m) +
      (if j < length (m_configid_map m) mod length (m_channels m) then 1 else 0)) \<and>
    balanced m'"
proof -
  obtain i' where f: "fold_res distribute_one (m_configid_map m) (int 0, m) = Inr (i', m')"
    using assms(5) by (auto simp: distribute_conf_def)
  have z: "\<forall>j < length (m_channels m). length (load_of m (m_channels m ! j)) =
      0 div length (m_channels m) + (if j < 0 mod length (m_channels m) then 1 else 0)"
    using assms(3) by simp
  note t = distribute_fold_turns [OF f assms(1,2) z]
  have ch: "m_channels m' = m_channels m"
    using distribute_conf_inv [OF assms(5,1)] by simp
  have "balanced m'"
    using t by (auto simp: balanced_def ch in_set_conv_nth)
  with t assms(4) show ?thesis by simp
qed

lemma balanced_frame:
  "balanced m \<Longrightarrow> m_channels m' = m_channels m \<Longrightarrow> m_config_map m' = m_config_map m \<Longrightarrow> balanced m'"
  using load_of_frame [of m' m] by (simp add: balanced_def)

lemma add_config_balanced:
  assumes "master_inv m" "balanced m" "\<forall>fd \<in> set (m_channels m). length (load_of m fd) < 1000000"
    and "add_config i js m = Inr m'"
  shows "balanced m' \<and> (\<exists>fd. fd \<in> set (m_channels m) \<and>
     (\<forall>x \<in> set (m_channels m). length (load_of m fd) \<le> length (load_of m x)) \<and>
     (\<forall>x. load_of m' x = load_of m x @ (if x = fd then [i] else [])))"
proof -
  have ok: "smap_ok (m_config_map m)" "set (smap_keys (m_config_map m)) = set (m_channels m)"
    "m_channels m \<noteq> []" using assms(1) by (auto simp: master_inv_def)
  then have ne: "m_config_map m \<noteq> []" by (auto simp: smap_keys_def)
  from least_loaded_spec [OF ok(1) ne] obtain fd ids where fd: "least_loaded (m_config_map m) = Some fd"
    "smap_find (m_config_map m) fd = Some ids"
    "length ids < 1000000 \<longrightarrow> (\<forall>x ids'. smap_find (m_config_map m) x = Some ids' \<longrightarrow> length ids \<le> length ids')"
    by (elim exE conjE) (rule that)
  have inc: "fd \<in> set (m_channels m)" using fd(2) ok(2) smap.in_keys_iff [OF ok(1), of fd] by simp
  have ids: "load_of m fd = ids" using fd(2) by (simp add: load_of_def)
  then have lt: "length ids < 1000000" using assms(3) inc by blast
  have least: "length (load_of m fd) \<le> length (load_of m x)" if x: "x \<in> set (m_channels m)" for x
  proof -
    obtain ids' where "smap_find (m_config_map m) x = Some ids'"
      using x ok(2) smap.in_keys_iff [OF ok(1), of x] by auto
    with fd(3) lt ids show ?thesis by (simp add: load_of_def)
  qed
  have m': "m' = emit fd MASTER_MSG_TYPE_ADDCONF js (assign_channel i fd (put_config i js m))"
    using assms(4) fd(1) by (simp add: add_config_def)
  have ok': "smap_ok (m_config_map (put_config i js m))" using ok(1) by simp
  have a: "load_of m' x = load_of m x @ (if x = fd then [i] else [])" for x
    using load_of_assign [OF ok', of i fd x] by (simp add: m' load_of_def)
  then have l: "length (load_of m' x) = length (load_of m x) + (if x = fd then 1 else 0)" for x by simp
  have ch: "m_channels m' = m_channels m"
    by (simp add: m' assign_channel_fields(2) [OF ok'])
  have "balanced m'"
    unfolding balanced_def ch
  proof (intro ballI)
    fix x y assume "x \<in> set (m_channels m)" "y \<in> set (m_channels m)"
    then have "length (load_of m x) \<le> length (load_of m y) + 1" "length (load_of m fd) \<le> length (load_of m y)"
      using assms(2) least by (simp_all add: balanced_def)
    then show "length (load_of m' x) \<le> length (load_of m' y) + 1" by (simp add: l)
  qed
  with inc least a show ?thesis by blast
qed


subsection \<open>Where the messages go\<close>

text \<open>The third invariant: since \<open>m0\<close>, every write went to a worker's channel.\<close>

definition sent_to_workers :: "int list \<Rightarrow> fd_write list \<Rightarrow> master \<Rightarrow> bool" where
  "sent_to_workers chans ws0 m \<longleftrightarrow> master_inv m \<and> distributed m \<and> m_channels m = chans \<and>
     (\<exists>ws. m_writes m = ws0 @ ws \<and> fst ` set ws \<subseteq> set chans)"

lemma sent_more:
  assumes "sent_to_workers chans ws0 m" "master_inv m'" "distributed m'" "m_channels m' = m_channels m"
    and "m_writes m' = m_writes m @ ws" "fst ` set ws \<subseteq> set (m_channels m)"
  shows "sent_to_workers chans ws0 m'"
proof -
  obtain vs where "m_writes m = ws0 @ vs" "fst ` set vs \<subseteq> set chans"
    using assms(1) by (auto simp: sent_to_workers_def)
  then have "m_writes m' = ws0 @ (vs @ ws)" "fst ` set (vs @ ws) \<subseteq> set chans"
    using assms(1,5,6) by (simp_all add: sent_to_workers_def image_Un)
  then show ?thesis using assms(1-4) unfolding sent_to_workers_def by blast
qed

lemma distribute_writes:
  assumes "fold_res distribute_one es (i, m) = Inr (i', m')" "master_inv m"
  shows "\<exists>ws. m_writes m' = m_writes m @ ws \<and> fst ` set ws \<subseteq> set (m_channels m)"
  using assms
proof (induction es arbitrary: i m)
  case (Cons e es)
  obtain key js where e: "e = (key, js)" by (cases e)
  from Cons.prems(1) obtain i1 m1 where s: "distribute_one (key, js) (i, m) = Inr (i1, m1)"
    "fold_res distribute_one es (i1, m1) = Inr (i', m')" by (auto simp: e)
  obtain fd portstr where p: "pick_channel i m = Inr fd"
    and m1: "m1 = emit fd MASTER_MSG_TYPE_REDISPORT portstr
           (emit fd MASTER_MSG_TYPE_ADDCONF js (assign_channel key fd m))"
    using distribute_one_eq [OF s(1)] by blast
  have ok: "smap_ok (m_config_map m)" using Cons.prems(2) by (simp add: master_inv_def)
  have w1: "m_writes m1 = m_writes m @ [send_msg fd MASTER_MSG_TYPE_ADDCONF js,
      send_msg fd MASTER_MSG_TYPE_REDISPORT portstr]"
    by (simp add: m1 assign_channel_fields(4) [OF ok])
  note inv = distribute_one_inv [OF s(1) Cons.prems(2)]
  from Cons.IH [OF s(2)] inv obtain ws where "m_writes m' = m_writes m1 @ ws"
    "fst ` set ws \<subseteq> set (m_channels m)" by auto
  with w1 pick_channel_in [OF p] show ?case by simp
qed simp

lemma handle_sent:
  assumes "sent_to_workers chans ws0 m" "master_handle J e m = Inr m'"
  shows "sent_to_workers chans ws0 m'"
proof -
  have inv: "master_inv m" and dist: "distributed m" using assms(1) by (simp_all add: sent_to_workers_def)
  have inv': "master_inv m'" "distributed m'" "m_channels m' = m_channels m"
    using master_handle_inv [OF assms(2) inv] dist handle_consts [OF assms(2) inv] by auto
  have known: "\<exists>fd \<in> set (m_channels m). smap_find (m_configid_channel m) i = Some fd"
    if "smap_find (m_configid_map m) i = Some s" for i s
    using dist that by (simp add: distributed_def)
  have deal: "\<exists>ws. m_writes m1 = m_writes m @ ws \<and> fst ` set ws \<subseteq> set (m_channels m)"
    if "deal_metric_request J cmd body m = Inr m1" for cmd body m1
    using that
  proof (cases rule: deal_metric_cases)
    case (added i js)
    obtain fd where fd: "least_loaded (m_config_map m) = Some fd" "fd \<in> set (m_channels m)"
      using least_loaded_channel [OF inv] by blast
    have ok: "smap_ok (m_config_map (put_config i js m))"
      using put_config_inv [OF inv] by (simp add: master_inv_def)
    from added(3) fd show ?thesis
      by (auto simp: add_config_def assign_channel_fields(4) [OF ok])
  next
    case (edited i js s)
    from known [OF edited(2)] obtain fd where "fd \<in> set (m_channels m)"
      "smap_find (m_configid_channel m) i = Some fd" by blast
    then show ?thesis by (simp add: edited(3) edit_config_known)
  qed simp
  have del: "\<exists>ws. m_writes m1 = m_writes m @ ws \<and> fst ` set ws \<subseteq> set (m_channels m)"
    if "delete_metric_request J cmd body m = Inr m1" for cmd body m1
    using that
  proof (cases rule: delete_metric_cases)
    case (deleted i js s fd m2)
    from known [OF deleted(2)] obtain x where "x \<in> set (m_channels m)"
      "smap_find (m_configid_channel m) i = Some x" by blast
    with deleted(3,4) show ?thesis by (auto simp: channel_of_def)
  qed simp_all
  have "\<exists>ws. m_writes m' = m_writes m @ ws \<and> fst ` set ws \<subseteq> set (m_channels m)"
  proof (cases e)
    case (Http uri cmd body)
    with assms(2) deal del show ?thesis by (auto elim!: metric_request_cbE)
  next
    case (ChannelRead fd buf)
    have "m_writes (fold (master_msg fd) ds m0) = m_writes m0" for ds m0
      by (induction ds arbitrary: m0) (auto simp: master_msg_def)
    with assms(2) ChannelRead show ?thesis
      by (auto simp: master_channel_data_def case_prod_beta Let_def split: if_splits)
  next
    case DistributeDue
    with assms(2) distribute_writes [OF _ inv] show ?thesis by (auto simp: distribute_conf_def)
  next
    case FlushDue
    with assms(2) show ?thesis by (auto simp: flush_test_conf_def)
  next
    case (SplitLogDue tb ren newfd)
    with assms(2) show ?thesis by (auto simp: master_split_log_def case_prod_beta Let_def)
  qed
  then show ?thesis using sent_more [OF assms(1) inv'] by blast
qed

interpretation mw: res_machine "master_handle J" "sent_to_workers chans ws0" for J chans ws0
  by unfold_locales (rule handle_sent)

text \<open>C7. Once the configurations were distributed, whatever requests, acknowledgements and timers
  follow, every message the master writes goes to the channel of one of its workers.\<close>

theorem messages_reach_workers:
  assumes "master_inv m" "distribute_conf m = Inr m0" "fold_res (master_handle J) es m0 = Inr m'"
  shows "\<exists>ws. m_writes m' = m_writes m0 @ ws \<and> fst ` set ws \<subseteq> set (m_channels m) \<and> distributed m'"
proof -
  note d = distribute_conf_inv [OF assms(2,1)]
  have "sent_to_workers (m_channels m) (m_writes m0) m0" using d by (simp add: sent_to_workers_def)
  from mw.run_inv [OF this assms(3)] show ?thesis by (auto simp: sent_to_workers_def)
qed

text \<open>The strings of requests the handlers have freed: one for each request.\<close>

fun request_uris :: "master_input list \<Rightarrow> string list" where
  "request_uris [] = []"
| "request_uris (Http uri cmd body # es) = uri # request_uris es"
| "request_uris (_ # es) = request_uris es"

lemma handle_uris:
  assumes "master_handle J e m = Inr m'"
  shows "m_freed_uris m' = m_freed_uris m @ request_uris [e]"
proof (cases e)
  case (Http uri cmd body)
  have c: "m_freed_uris m2 = m_freed_uris m1" if "channel_of i m1 = (fd, m2)" for i m1 fd m2
    using that by (auto simp: channel_of_def Let_def split: prod.splits)
  have "m_freed_uris m1 = m_freed_uris m" if "deal_metric_request J cmd body m = Inr m1" for m1
    using that
  proof (cases rule: deal_metric_cases)
    case (added i js)
    then show ?thesis
      by (auto simp: add_config_def put_config_def assign_channel_def emit_def case_prod_beta Let_def)
  next
    case (edited i js s)
    obtain fd m2 where x: "channel_of i (put_config i js m) = (fd, m2)" by fastforce
    from c [OF x] x show ?thesis by (simp add: edited(3) edit_config_def emit_def put_config_def)
  qed simp
  moreover have "m_freed_uris m1 = m_freed_uris m" if "delete_metric_request J cmd body m = Inr m1" for m1
    using that
  proof (cases rule: delete_metric_cases)
    case (deleted i js s fd m2)
    from c [OF deleted(3)] show ?thesis by (simp add: deleted(4) emit_def)
  qed simp_all
  ultimately show ?thesis using assms Http by (auto elim!: metric_request_cbE)
next
  case (ChannelRead fd buf)
  have "m_freed_uris (fold (master_msg fd) ds m0) = m_freed_uris m0" for ds m0
    by (induction ds arbitrary: m0) (auto simp: master_msg_def)
  with assms ChannelRead show ?thesis
    by (auto simp: master_channel_data_def case_prod_beta Let_def split: if_splits)
next
  case DistributeDue
  have step: "m_freed_uris (snd st') = m_freed_uris (snd st)" if "distribute_one x st = Inr st'" for x st st'
    using that
    by (cases x; cases st) (auto simp: distribute_one_def emit_def assign_channel_def Let_def case_prod_beta)
  have "m_freed_uris (snd st') = m_freed_uris (snd st)" if "fold_res distribute_one ks st = Inr st'" for ks st st'
    using that
  proof (induction ks arbitrary: st)
    case (Cons x ks)
    then obtain st1 where "distribute_one x st = Inr st1" "fold_res distribute_one ks st1 = Inr st'" by auto
    with step Cons.IH [of st1] show ?case by metis
  qed simp
  from this [of "m_configid_map m" "(0, m)"]
  have "m_freed_uris m2 = m_freed_uris m" if "fold_res distribute_one (m_configid_map m) (0, m) = Inr (j, m2)" for j m2
    using that by fastforce
  with assms DistributeDue show ?thesis by (auto simp: distribute_conf_def)
next
  case FlushDue
  with assms show ?thesis by (auto simp: flush_test_conf_def)
next
  case (SplitLogDue tb ren newfd)
  with assms show ?thesis by (auto simp: master_split_log_def case_prod_beta Let_def)
qed

lemma run_uris:
  "fold_res (master_handle J) es m = Inr m' \<Longrightarrow> m_freed_uris m' = m_freed_uris m @ request_uris es"
proof (induction es arbitrary: m)
  case (Cons e es)
  then obtain m1 where m1: "master_handle J e m = Inr m1" "fold_res (master_handle J) es m1 = Inr m'" by auto
  from Cons.IH [OF m1(2)] handle_uris [OF m1(1)] show ?case by (cases e) simp_all
qed simp


subsection \<open>A concrete master for the witnesses\<close>

text \<open>Two workers, on channels 4 and 8, forked from a fresh master.\<close>

definition demo_master0 :: master where
  "demo_master0 = Master_new \<lparr>m_workernum = 0, m_port = 0,
     m_logger = \<lparr>lg_level = 2, logfilefd = 3, logfile = ''l''\<rparr>, m_splitlog = 0, m_flushconf = 0,
     m_fifopath = [], m_redisport = 0, m_test_conf_file = [], m_server_conf_file = [],
     m_workerpids = [], m_configid_map = [], m_config_map = [], m_configid_channel = [],
     m_channels = [], m_channels_1 = [], m_channel_pid = [], m_writes = [], m_fd_writes = [], m_freed_uris = [],
     m_files = [], m_log = []\<rparr>"

definition demo_master :: master where
  "demo_master = snd (generate_worker [(4, 5, 100), (8, 9, 101)]
     (demo_master0\<lparr>m_workernum := 2, m_redisport := 6379,
        m_test_conf_file := ''t'' @ replicate 127 NUL\<rparr>))"

lemma demo_master_simps [simp]:
  "m_workernum demo_master = 2" "m_channels demo_master = [4, 8]" "m_channels_1 demo_master = [5, 9]"
  "m_configid_map demo_master = []" "m_config_map demo_master = [(4, []), (8, [])]"
  "m_configid_channel demo_master = []" "m_writes demo_master = []" "m_redisport demo_master = 6379"
  "m_test_conf_file demo_master = ''t'' @ replicate 127 NUL" "m_files demo_master = []" "m_freed_uris demo_master = []"
  by (simp_all add: demo_master_def demo_master0_def Master_new_def generate_worker_def
      spawn_parent_def numeral_2_eq_2)

lemma demo_master_inv: "master_inv demo_master"
  by (simp add: master_inv_def smap_ok_def smap_keys_def)

text \<open>The same master with the UDP configuration of the table loaded from its file.\<close>

definition demo_loaded :: master where
  "demo_loaded = demo_master\<lparr>m_configid_map := [(5, ''u'')]\<rparr>"

lemma demo_loaded_simps [simp]:
  "m_workernum demo_loaded = 2" "m_channels demo_loaded = [4, 8]"
  "m_configid_map demo_loaded = [(5, ''u'')]" "m_config_map demo_loaded = [(4, []), (8, [])]"
  "m_configid_channel demo_loaded = []" "m_writes demo_loaded = []" "m_redisport demo_loaded = 6379"
  "m_test_conf_file demo_loaded = ''t'' @ replicate 127 NUL" "m_files demo_loaded = []" "m_freed_uris demo_loaded = []"
  by (simp_all add: demo_loaded_def)

lemma demo_loaded_inv: "master_inv demo_loaded"
  by (simp add: master_inv_def smap_ok_def smap_keys_def)

lemma demo_port: "length (show_int 6379) < 6"
  using length_show_nat [of 6379 4] by (simp add: show_int_def)

lemma demo_loaded_distributes: "\<exists>m. distribute_conf demo_loaded = Inr m"
proof -
  obtain x where "fold_res distribute_one (m_configid_map demo_loaded) (0, demo_loaded) = Inr x"
    using distribute_fold_total [OF demo_loaded_inv, of 0 "m_configid_map demo_loaded"] demo_port
    by auto
  then show ?thesis by (cases x) (simp add: distribute_conf_def)
qed

lemma demo_req:
  "req_object demo_J POST ''u'' = Inr (Some (5, ''u''))"
  "req_object demo_J POST ''p'' = Inr (Some (3, ''p''))"
  by (simp_all add: req_object_def demo_J_def table_json_def demo_texts_def has_both_def isMember_def
      asInt_def cstr_def)

lemma demo_post: "\<exists>m. master_handle demo_J (Http ''/metric'' POST ''u'') demo_master = Inr m"
proof -
  have "master_safe demo_master" using demo_master_inv demo_port by (simp add: master_safe_def)
  from master_step_safe [OF this, of demo_J "Http ''/metric'' POST ''u''"] show ?thesis
    by (simp add: input_ok_def demo_req)
qed

theorem distribute_round_robin_witness:
  "\<exists>m. distribute_conf demo_loaded = Inr m \<and> m_writes m =
     [send_msg 4 MASTER_MSG_TYPE_ADDCONF ''u'', send_msg 4 MASTER_MSG_TYPE_REDISPORT (show_int 6379)]"
proof -
  obtain m where m: "distribute_conf demo_loaded = Inr m" using demo_loaded_distributes by blast
  have "\<forall>fd. load_of demo_loaded fd = []" by (simp add: load_of_def)
  from distribute_round_robin [OF demo_loaded_inv _ this _ m] m show ?thesis
    by (simp add: turn_writes_def turn_of_def)
qed


theorem messages_reach_workers_witness:
  "\<exists>m0 ws. distribute_conf demo_loaded = Inr m0 \<and>
     (\<exists>m'. fold_res (master_handle demo_J) [Http ''/metric/delete'' GET ''u''] m0 = Inr m' \<and>
       m_writes m' = m_writes m0 @ ws \<and> fst ` set ws \<subseteq> {4, 8})"
proof -
  obtain m0 where m0: "distribute_conf demo_loaded = Inr m0" using demo_loaded_distributes by blast
  have r: "fold_res (master_handle demo_J) [Http ''/metric/delete'' GET ''u''] m0 = Inr (free_uri ''/metric/delete'' m0)"
    by (simp add: metric_request_cb_def delete_metric_request_def req_object_def)
  from messages_reach_workers [OF demo_loaded_inv m0 r] m0 r show ?thesis by (fastforce simp del: free_uri_fields(10))
qed


end
