(* ===== verification/Master_Store.thy ===== *)
theory Master_Store
  imports Master_Props
begin

section \<open>The master's configurations as a dictionary on disk\<close>

text \<open>
  What \<open>configid_map\<close> is for: a dictionary from ids to JSON texts that HTTP requests change, and
  that survives a restart through the flushed file. The refinement theorem relates any run of
  the master to the abstract dictionary; the round trip relates \<open>flush_test_conf\<close> to
  \<open>get_test_conf\<close>; the last sections read \<open>server.conf\<close> and describe what goes wrong.
\<close>

subsection \<open>The abstract dictionary\<close>

type_synonym store = "int \<Rightarrow> string option"

fun spec_input :: "'j jsonlib \<Rightarrow> master_input \<Rightarrow> store \<Rightarrow> store" where
  "spec_input J (Http uri cmd body) st =
     (case req_object J cmd body of
        Inr (Some (i, js)) \<Rightarrow>
          if uri = ''/metric'' then st(i \<mapsto> js)
          else if uri = ''/metric/delete'' then st(i := None) else st
      | _ \<Rightarrow> st)"
| "spec_input J _ st = st"

definition store_of :: "master \<Rightarrow> store" where
  "store_of m = smap_find (m_configid_map m)"

lemma store_of_free_uri [simp]: "store_of (free_uri u m) = store_of m"
  by (simp add: store_of_def)

lemma handle_refines:
  assumes "master_inv m" "master_handle J e m = Inr m'"
  shows "store_of m' = spec_input J e (store_of m)"
proof (cases e)
  case (Http uri cmd body)
  have ok: "smap_ok (m_configid_map m)" using assms(1) by (simp add: master_inv_def)
  have deal: "store_of m1 = spec_input J (Http ''/metric'' cmd body) (store_of m)"
    if "deal_metric_request J cmd body m = Inr m1" for m1
    using that
  proof (cases rule: deal_metric_cases)
    case (added i js)
    with add_config_inv [OF added(3) assms(1)] show ?thesis
      by (auto simp: store_of_def fun_eq_iff)
  next
    case (edited i js s)
    with edit_config_inv(2) [OF assms(1), of i js] show ?thesis
      by (auto simp: store_of_def fun_eq_iff)
  qed simp
  have del: "store_of m1 = spec_input J (Http ''/metric/delete'' cmd body) (store_of m)"
    if "delete_metric_request J cmd body m = Inr m1" for m1
    using that
  proof (cases rule: delete_metric_cases)
    case (deleted i js s fd m2)
    note f = channel_of_inv [OF erase_config_inv [OF assms(1)] deleted(3)]
    show ?thesis using deleted(1) f(4) ok by (auto simp: deleted(4) store_of_def fun_eq_iff)
  next
    case (unknown i js)
    then show ?thesis by (auto simp: store_of_def fun_eq_iff)
  qed simp
  show ?thesis
  proof (cases "uri = ''/metric'' \<or> uri = ''/metric/delete''")
    case True
    then show ?thesis using assms(2) Http deal del by (auto elim!: metric_request_cbE)
  next
    case False
    then have "m' = free_uri uri m" using assms(2) Http by (simp add: metric_request_cb_def)
    with False Http show ?thesis by (auto split: sum.splits option.splits)
  qed
next
  case (ChannelRead fd buf)
  have "m_configid_map (fold (master_msg fd) ds m0) = m_configid_map m0" for ds m0
    by (induction ds arbitrary: m0) (auto simp: master_msg_def)
  with assms(2) ChannelRead show ?thesis
    by (auto simp: store_of_def master_channel_data_def case_prod_beta Let_def split: if_splits)
next
  case DistributeDue
  with assms distribute_conf_inv show ?thesis by (auto simp: store_of_def)
next
  case FlushDue
  with assms(2) show ?thesis by (auto simp: store_of_def flush_test_conf_def)
next
  case (SplitLogDue tb ren newfd)
  with assms(2) show ?thesis
    by (auto simp: store_of_def master_split_log_def case_prod_beta Let_def)
qed

interpretation mr: refines_machine "master_handle J" master_inv store_of "spec_input J" for J
  by unfold_locales (rule handle_refines)

text \<open>C2. Refinement: after any run of inputs the configuration table is the dictionary that the
  requests among them describe, a POST to \<open>/metric\<close> storing the body under its id and one to
  \<open>/metric/delete\<close> removing the id; timers and acknowledgements change nothing.\<close>

theorem master_refines_store:
  assumes "master_inv m" "fold_res (master_handle J) es m = Inr m'"
  shows "store_of m' = fold (spec_input J) es (store_of m) \<and> master_inv m'"
  using assms by (rule mr.run_refines)

subsection \<open>Flushing and loading\<close>

text \<open>A text the loader reads back: one line that starts like JSON and parses to this id.\<close>

definition conf_starts :: "string \<Rightarrow> bool" where
  "conf_starts s \<longleftrightarrow> (case s of [] \<Rightarrow> False
     | c # cs \<Rightarrow> c \<noteq> SP \<and> c \<noteq> NUL \<and> c \<noteq> LF \<and> c \<noteq> CHR ''#'')"

definition conf_line :: "'j jsonlib \<Rightarrow> int \<times> string \<Rightarrow> bool" where
  "conf_line J e \<longleftrightarrow> LF \<notin> set (snd e) \<and> conf_starts (snd e) \<and>
     (case j_parse J (snd e) of None \<Rightarrow> False
      | Some r \<Rightarrow> has_both J r ''type'' ''id'' = Inr True \<and> asInt J r ''id'' = Inr (fst e))"

lemma skip_starts:
  assumes "conf_starts s"
  shows "\<exists>c cs. skip_spaces (line_buf over s @ pad) = c # cs \<and> c \<noteq> NUL \<and> c \<noteq> LF \<and> c \<noteq> CHR ''#''"
proof -
  obtain c cs where s: "s = c # cs" "c \<noteq> SP" "c \<noteq> NUL" "c \<noteq> LF" "c \<noteq> CHR ''#''"
    using assms by (auto simp: conf_starts_def split: list.splits)
  have "line_buf over s @ pad = c # (take 255 (cs @ NUL # over) @ pad)"
    by (simp add: line_buf_def s(1))
  then have "skip_spaces (line_buf over s @ pad) = c # (take 255 (cs @ NUL # over) @ pad)"
    using s(2) by (simp only: skip_spaces_def) simp
  with s show ?thesis by blast
qed

lemma test_line_ok:
  assumes "conf_line J (i, s)"
  shows "test_line J over s m = Inr (Continue (m\<lparr>m_configid_map := smap_put i s (m_configid_map m)\<rparr>))"
proof -
  obtain r where r: "conf_starts s" "j_parse J s = Some r" "has_both J r ''type'' ''id'' = Inr True"
    "asInt J r ''id'' = Inr i"
    using assms by (auto simp: conf_line_def split: option.splits)
  obtain c cs where "skip_spaces (line_buf over s @ replicate 768 NUL) = c # cs"
    "c \<noteq> NUL" "c \<noteq> LF" "c \<noteq> CHR ''#''"
    using skip_starts [OF r(1)] by blast
  then show ?thesis using r by (simp add: test_line_def)
qed

lemma test_line_blank: "test_line J over [] m = Inr (Continue m)"
  by (simp add: test_line_def line_buf_def skip_spaces_def)

lemma test_line_bad:
  assumes "conf_starts s" "j_parse J s = None"
  shows "test_line J over s m = Inr (Return (-1) m)"
proof -
  obtain c cs where "skip_spaces (line_buf over s @ replicate 768 NUL) = c # cs"
    "c \<noteq> NUL" "c \<noteq> LF" "c \<noteq> CHR ''#''"
    using skip_starts [OF assms(1)] by blast
  then show ?thesis using assms(2) by (simp add: test_line_def)
qed

lemma load_entries:
  assumes "list_all (conf_line J) cm"
  shows "line_loop (test_line J over) (split_lines (flushed cm @ rest)) m =
    line_loop (test_line J over) (split_lines rest)
      (m\<lparr>m_configid_map := fold (\<lambda>(i, s). smap_put i s) cm (m_configid_map m)\<rparr>)"
  using assms
proof (induction cm arbitrary: m)
  case (Cons e cm)
  obtain i s where e: "e = (i, s)" by (cases e)
  have l: "conf_line J (i, s)" "list_all (conf_line J) cm" using Cons.prems by (simp_all add: e)
  then have lf: "LF \<notin> set s" by (simp add: conf_line_def)
  have "split_lines (flushed (e # cm) @ rest) = s # [] # split_lines (flushed cm @ rest)"
    using split_lines_append [OF lf, of "LF # flushed cm @ rest"] by (simp add: flushed_def e)
  then show ?case
    using Cons.IH [OF l(2)] test_line_ok [OF l(1)] by (simp add: test_line_blank e)
qed (simp add: flushed_def)

lemma flushed_append: "flushed (a @ b) = flushed a @ flushed b"
  by (simp add: flushed_def)

lemma conffile_buf_read:
  assumes "conffile_buf path = Inr b" "NUL \<notin> set path" "NUL \<in> set b"
  shows "read_cstr b = Inr path"
proof -
  have b: "b = path @ replicate (MAX_CONFFILE_LEN - length path) NUL"
    using assms(1) by (auto simp: conffile_buf_def split: if_splits)
  then obtain k where "MAX_CONFFILE_LEN - length path = Suc k"
    using assms(2,3) by (cases "MAX_CONFFILE_LEN - length path") auto
  then have "cstr b = path" using assms(2) by (simp add: b cstr_append cstr_def [of "NUL # _"])
  with assms(3) show ?thesis by (simp add: read_cstr_def)
qed

text \<open>Flushing and loading are inverse: the file \<open>flush_test_conf\<close> writes goes to the path the
  configuration was loaded from, and a master that starts from it has the same table, whatever
  bytes follow its lines in memory, as long as each stored text is one line of JSON.\<close>

theorem flush_then_load:
  assumes "smap_ok (m_configid_map m)" "list_all (conf_line J) (m_configid_map m)"
    and "conffile_buf path = Inr (m_test_conf_file m)" "length path < MAX_CONFFILE_LEN" "NUL \<notin> set path"
  shows "\<exists>m1 content m2. flush_test_conf m = Inr m1 \<and> last (m_files m1) = (path, content) \<and>
    get_test_conf J over (Some content) path (Master_new junk) = Some (Inr (0, m2)) \<and>
    m_configid_map m2 = m_configid_map m"
proof -
  have "m_test_conf_file m = path @ replicate (MAX_CONFFILE_LEN - length path) NUL"
    using assms(3,4) by (simp add: conffile_buf_def)
  then have nul: "NUL \<in> set (m_test_conf_file m)" using assms(4) by simp
  have f: "flush_test_conf m = Inr (m\<lparr>m_files := m_files m @ [(path, flushed (m_configid_map m))]\<rparr>)"
    using conffile_buf_read [OF assms(3,5) nul] by (simp add: flush_test_conf_def)
  define m0 where "m0 = (Master_new junk)\<lparr>m_test_conf_file := m_test_conf_file m\<rparr>"
  have "line_loop (test_line J over) (split_lines (flushed (m_configid_map m))) m0 =
      Inr (0, m0\<lparr>m_configid_map := m_configid_map m\<rparr>)"
    using load_entries [OF assms(2), of over "[]" m0] smap_load_all [OF assms(1)]
    by (simp add: test_line_blank m0_def Master_new_def)
  then have "get_test_conf J over (Some (flushed (m_configid_map m))) path (Master_new junk) =
      Some (Inr (0, m0\<lparr>m_configid_map := m_configid_map m\<rparr>))"
    by (simp add: get_test_conf_def assms(3) getline_loop_open m0_def)
  with f show ?thesis by auto
qed

text \<open>A stored text with a line feed (a pretty-printed POST body) breaks the file: its first line
  does not parse, so the next start keeps the configurations with smaller ids, loses this one
  and all behind it, and reports -1, which \<open>main\<close> does not look at.\<close>

theorem multiline_config_lost:
  assumes "m_configid_map m = pre @ (i, a @ LF # b) # post" "smap_ok (m_configid_map m)"
    and "list_all (conf_line J) pre" "LF \<notin> set a" "conf_starts a" "j_parse J a = None"
    and "conffile_buf path = Inr buf"
  shows "\<exists>m2. get_test_conf J over (Some (flushed (m_configid_map m))) path (Master_new junk) =
      Some (Inr (-1, m2)) \<and> m_configid_map m2 = pre \<and> smap_find (m_configid_map m2) i = None"
proof -
  define m0 where "m0 = (Master_new junk)\<lparr>m_test_conf_file := buf\<rparr>"
  have ok: "smap_ok pre"
    using assms(1,2) by (simp add: smap_ok_def sorted_wrt_append)
  have notin: "smap_find pre i = None"
  proof -
    have "i \<notin> fst ` set pre"
      using assms(1,2) by (auto simp: smap_ok_def sorted_wrt_append)
    then show ?thesis using smap_mem_keys [of i pre] by simp
  qed
  have fl: "flushed (m_configid_map m) = flushed pre @ a @ LF # (b @ [LF, LF] @ flushed post)"
    by (simp add: assms(1) flushed_append) (simp add: flushed_def)
  have "line_loop (test_line J over) (split_lines (flushed (m_configid_map m))) m0 =
      Inr (-1, m0\<lparr>m_configid_map := pre\<rparr>)"
    using load_entries [OF assms(3), of over "a @ LF # (b @ [LF, LF] @ flushed post)" m0]
      split_lines_append [OF assms(4), of "b @ [LF, LF] @ flushed post"]
      test_line_bad [OF assms(5,6)] smap_load_all [OF ok]
    by (simp add: fl m0_def Master_new_def)
  then show ?thesis
    using notin by (simp add: get_test_conf_def assms(7) getline_loop_open m0_def)
qed

lemma missing_file:
  assumes "conffile_buf path = Inr buf"
  shows "get_test_conf J over None path m = None \<and> get_server_conf over None path m = None"
proof -
  have "server_line over [] m' = Inr (Continue m')" for m'
    by (simp add: server_line_def line_buf_def skip_spaces_def)
  then show ?thesis
    using getline_loop_missing [of "test_line J over"] getline_loop_missing [of "server_line over"]
    by (simp add: get_test_conf_def get_server_conf_def assms test_line_blank)
qed

text \<open>C40. A configuration file that cannot be opened is never noticed: \<open>eof()\<close> stays false, and both
  loaders run forever.\<close>

theorem missing_file_never_returns:
  assumes "conffile_buf path = Inr buf"
  shows "get_test_conf J over None path m = None \<and> get_server_conf over None path m = None"
  by (rule missing_file [OF assms])

subsection \<open>\<open>server.conf\<close>\<close>

text \<open>A line \<open>name value\<close>, with any spaces before and between, that fits the 256 bytes.\<close>

definition server_setting :: "string \<Rightarrow> string \<Rightarrow> nat \<Rightarrow> nat \<Rightarrow> bool" where
  "server_setting name value before between \<longleftrightarrow>
     name \<noteq> [] \<and> SP \<notin> set name \<and> NUL \<notin> set name \<and> hd name \<noteq> LF \<and> hd name \<noteq> CHR ''#'' \<and>
     0 < between \<and> NUL \<notin> set value \<and> (value = [] \<or> hd value \<noteq> SP) \<and>
     before + length name + between + length value < 256"

lemma drop_spaces: "s = [] \<or> hd s \<noteq> SP \<Longrightarrow> dropWhile (\<lambda>c. c = SP) (replicate n SP @ s) = s"
  by (induction n; cases s) auto

lemma line_buf_short:
  assumes "length line < 256"
  shows "\<exists>pad. line_buf over line = line @ NUL # pad"
proof -
  obtain k where "256 - length line = Suc k" using assms by (metis Suc_diff_Suc)
  then show ?thesis using assms by (simp add: line_buf_def)
qed

lemma server_line_eq:
  assumes "server_setting name value before between"
  shows "server_line over (replicate before SP @ name @ replicate between SP @ value) m =
    rbind (set_server name value m) (\<lambda>m'. Inr (Continue m'))"
proof -
  note s = assms [unfolded server_setting_def]
  define line where "line = replicate before SP @ name @ replicate between SP @ value"
  have "length line < 256" using s by (simp add: line_def)
  then obtain pad where pad: "line_buf over line = line @ NUL # pad"
    using line_buf_short by blast
  obtain c cs where name: "name = c # cs" using s by (cases name) auto
  have c: "c \<noteq> SP" "c \<noteq> NUL" "c \<noteq> LF" "c \<noteq> CHR ''#''" using s by (auto simp: name)
  obtain k where k: "between = Suc k" using s by (cases between) auto
  have skip: "skip_spaces (line_buf over line) = name @ replicate between SP @ value @ NUL # pad"
    using drop_spaces [of "name @ replicate between SP @ value @ NUL # pad" before] c(1)
    unfolding skip_spaces_def pad by (simp add: line_def name)
  have nm: "\<forall>x \<in> set name. x \<noteq> SP \<and> x \<noteq> NUL" using s by blast
  have tw: "takeWhile (\<lambda>c. c \<noteq> SP \<and> c \<noteq> NUL) (name @ SP # r) = name" for r
    using nm by (simp add: takeWhile_append)
  have dw: "dropWhile (\<lambda>c. c \<noteq> SP \<and> c \<noteq> NUL) (name @ SP # r) = SP # r" for r
    using nm by (simp add: dropWhile_append)
  have "value @ NUL # pad = [] \<or> hd (value @ NUL # pad) \<noteq> SP" using s by (cases "value") auto
  from drop_spaces [OF this, of between]
  have v: "skip_spaces (SP # replicate k SP @ value @ NUL # pad) = value @ NUL # pad"
    by (simp add: skip_spaces_def k)
  have "read_cstr (value @ NUL # pad) = Inr value"
    using s by (simp add: read_cstr_def cstr_append cstr_def [of "NUL # _"])
  moreover have "skip_spaces (line_buf over line) = c # (cs @ SP # replicate k SP @ value @ NUL # pad)"
    by (simp add: skip name k)
  ultimately have "server_line over line m = rbind (set_server name value m) (\<lambda>m'. Inr (Continue m'))"
    using c v tw [of "replicate k SP @ value @ NUL # pad"] dw [of "replicate k SP @ value @ NUL # pad"]
    by (simp add: server_line_def name)
  then show ?thesis by (simp only: line_def)
qed

text \<open>Each line of \<open>server.conf\<close> of the form \<open>name value\<close> sets the member of that name to the
  value (through \<open>atoi\<close> for the numbers) and nothing else happens, whatever bytes follow the line
  in memory; a name that is not known changes nothing.\<close>

theorem server_line_sets:
  assumes "server_setting name value before between"
  shows "server_line over (replicate before SP @ name @ replicate between SP @ value) m =
    rbind (set_server name value m) (\<lambda>m'. Inr (Continue m'))"
  by (rule server_line_eq [OF assms])

subsection \<open>Requests before the distribution\<close>

lemma distribute_sends:
  assumes "fold_res distribute_one es (i, m) = Inr (i', m')" "master_inv m" "(key, js) \<in> set es"
  shows "\<exists>fd \<in> set (m_channels m). send_msg fd MASTER_MSG_TYPE_ADDCONF js \<in>
    set (drop (length (m_writes m)) (m_writes m'))"
  using assms
proof (induction es arbitrary: i m)
  case (Cons e es)
  obtain key' js' where e: "e = (key', js')" by (cases e)
  from Cons.prems(1) obtain i1 m1 where s: "distribute_one (key', js') (i, m) = Inr (i1, m1)"
    "fold_res distribute_one es (i1, m1) = Inr (i', m')" by (auto simp: e)
  obtain fd portstr where p: "pick_channel i m = Inr fd"
    and m1: "m1 = emit fd MASTER_MSG_TYPE_REDISPORT portstr
           (emit fd MASTER_MSG_TYPE_ADDCONF js' (assign_channel key' fd m))"
    using distribute_one_eq [OF s(1)] by blast
  have ok: "smap_ok (m_config_map m)" using Cons.prems(2) by (simp add: master_inv_def)
  have w1: "m_writes m1 = m_writes m @ [send_msg fd MASTER_MSG_TYPE_ADDCONF js',
      send_msg fd MASTER_MSG_TYPE_REDISPORT portstr]"
    by (simp add: m1 assign_channel_fields(4) [OF ok])
  note inv = distribute_one_inv [OF s(1) Cons.prems(2)]
  obtain ws where ws: "m_writes m' = m_writes m1 @ ws"
    using distribute_writes [OF s(2)] inv by blast
  show ?case
  proof (cases "e = (key, js)")
    case True
    then show ?thesis using ws w1 pick_channel_in [OF p] by (auto simp: e)
  next
    case False
    with Cons.prems(3) have "(key, js) \<in> set es" by auto
    with Cons.IH [OF s(2)] inv obtain fd' where "fd' \<in> set (m_channels m)"
      "send_msg fd' MASTER_MSG_TYPE_ADDCONF js \<in> set (drop (length (m_writes m1)) (m_writes m'))"
      by auto
    with ws w1 show ?thesis by (intro bexI [of _ fd']) auto
  qed
qed simp

text \<open>A configuration POSTed in the second between the start of the master and its distribution
  is handed out twice: once by the request and again, to whichever worker's turn it is, by the
  distribution. Its test then runs twice.\<close>

theorem post_before_distribution_runs_twice:
  assumes "master_inv m" "req_object J cmd body = Inr (Some (i, js))"
    and "smap_find (m_configid_map m) i = None"
    and "master_handle J (Http ''/metric'' cmd body) m = Inr m1" "distribute_conf m1 = Inr m2"
  shows "\<exists>fd fd' ws. m_writes m2 = m_writes m @ [send_msg fd MASTER_MSG_TYPE_ADDCONF js] @ ws \<and>
    send_msg fd' MASTER_MSG_TYPE_ADDCONF js \<in> set ws \<and>
    fd \<in> set (m_channels m) \<and> fd' \<in> set (m_channels m)"
proof -
  obtain m0 where add: "add_config i js m = Inr m0" and e: "m1 = free_uri ''/metric'' m0"
    using assms(2-4) by (auto simp: metric_request_cb_def deal_metric_request_def)
  obtain fd where fd: "least_loaded (m_config_map m) = Some fd" "fd \<in> set (m_channels m)"
    using least_loaded_channel [OF assms(1)] by blast
  have ok: "smap_ok (m_config_map (put_config i js m))" "smap_ok (m_configid_map m)"
    using assms(1) by (simp_all add: master_inv_def)
  have w1: "m_writes m1 = m_writes m @ [send_msg fd MASTER_MSG_TYPE_ADDCONF js]"
    using add fd(1) by (auto simp: e add_config_def assign_channel_fields(4) [OF ok(1)])
  note a = add_config_inv [OF add assms(1)]
  have a': "master_inv m1" "m_configid_map m1 = m_configid_map m0" "m_channels m1 = m_channels m0"
    using a by (simp_all add: e)
  obtain i' where f: "fold_res distribute_one (m_configid_map m1) (0, m1) = Inr (i', m2)"
    using assms(5) by (auto simp: distribute_conf_def)
  have "(i, js) \<in> set (m_configid_map m1)"
    using a a' ok(2) by (subst smap_in_set) auto
  from distribute_sends [OF f _ this] a a' obtain fd' where fd': "fd' \<in> set (m_channels m)"
    "send_msg fd' MASTER_MSG_TYPE_ADDCONF js \<in> set (drop (length (m_writes m1)) (m_writes m2))"
    by auto
  obtain ws where "m_writes m2 = m_writes m1 @ ws"
    using distribute_writes [OF f] a' by blast
  with w1 fd(2) fd' show ?thesis by auto
qed

text \<open>A configuration loaded from the file and deleted before the distribution has no channel:
  \<open>operator[]\<close> makes one up, and the DELCONF message is written to descriptor 0.\<close>

theorem delete_before_distribution_writes_fd0:
  assumes "master_inv m" "req_object J cmd body = Inr (Some (i, js))"
    and "smap_find (m_configid_map m) i = Some s" "smap_find (m_configid_channel m) i = None"
  shows "\<exists>m'. master_handle J (Http ''/metric/delete'' cmd body) m = Inr m' \<and>
    m_writes m' = m_writes m @ [send_msg 0 MASTER_MSG_TYPE_DELCONF js] \<and>
    smap_find (m_configid_map m') i = None \<and> smap_find (m_configid_channel m') i = Some 0"
proof -
  have "smap_ok (m_configid_map m)" using assms(1) by (simp add: master_inv_def)
  then show ?thesis
    using assms(2-4)
    by (simp add: metric_request_cb_def delete_metric_request_def channel_of_def)
qed

subsection \<open>Witnesses\<close>

lemma demo_conf_line: "conf_line demo_J (5, ''u'')" "conf_line demo_J (3, ''p'')"
  by (simp_all add: conf_line_def conf_starts_def demo_J_def table_json_def demo_texts_def
      has_both_def isMember_def asInt_def)

lemma demo_path: "conffile_buf ''t'' = Inr (''t'' @ replicate 127 NUL)"
  by (simp add: conffile_buf_def MAX_CONFFILE_LEN_def)

theorem master_refines_store_witness:
  "\<exists>m'. fold_res (master_handle demo_J) [Http ''/metric'' POST ''u''] demo_master = Inr m' \<and>
     store_of m' = [5 \<mapsto> ''u'']"
proof -
  obtain m' where m': "fold_res (master_handle demo_J) [Http ''/metric'' POST ''u''] demo_master = Inr m'"
    using demo_post by auto
  have "store_of demo_master = Map.empty" by (simp add: store_of_def fun_eq_iff)
  with master_refines_store [OF demo_master_inv m'] m' show ?thesis by (simp add: demo_req)
qed

theorem flush_then_load_witness:
  "\<exists>m1 content m2. flush_test_conf demo_loaded = Inr m1 \<and> last (m_files m1) = (''t'', content) \<and>
     get_test_conf demo_J [] (Some content) ''t'' (Master_new demo_master) = Some (Inr (0, m2)) \<and>
     m_configid_map m2 = [(5, ''u'')]"
proof -
  have "smap_ok (m_configid_map demo_loaded)" "list_all (conf_line demo_J) (m_configid_map demo_loaded)"
    "conffile_buf ''t'' = Inr (m_test_conf_file demo_loaded)"
    using demo_conf_line demo_path by (simp_all add: smap_ok_def)
  from flush_then_load [OF this, of "[]" demo_master] show ?thesis by (simp add: MAX_CONFFILE_LEN_def)
qed

theorem multiline_config_lost_witness:
  "\<exists>m2. get_test_conf demo_J [] (Some (flushed [(3, ''p''), (7, ''x'' @ LF # ''y''), (9, ''u'')])) ''t''
       (Master_new demo_master) = Some (Inr (-1, m2)) \<and> m_configid_map m2 = [(3, ''p'')]"
proof -
  have "m_configid_map (demo_master\<lparr>m_configid_map := [(3, ''p''), (7, ''x'' @ LF # ''y''), (9, ''u'')]\<rparr>) =
      [(3, ''p'')] @ (7, ''x'' @ LF # ''y'') # [(9, ''u'')]"
    "smap_ok (m_configid_map (demo_master\<lparr>m_configid_map := [(3, ''p''), (7, ''x'' @ LF # ''y''), (9, ''u'')]\<rparr>))"
    "list_all (conf_line demo_J) [(3, ''p'')]" "LF \<notin> set ''x''" "conf_starts ''x''" "j_parse demo_J ''x'' = None"
    using demo_conf_line by (simp_all add: smap_ok_def conf_starts_def demo_J_def table_json_def demo_texts_def)
  from multiline_config_lost [OF this demo_path, of "[]" demo_master] show ?thesis by auto
qed

theorem missing_file_never_returns_witness:
  "get_test_conf demo_J [] None ''t'' demo_master = None \<and>
   get_server_conf [] None ''t'' demo_master = None"
  by (rule missing_file_never_returns [OF demo_path])

theorem server_line_sets_witness:
  "server_line ''junk'' (''workernum  4'') demo_master = Inr (Continue (demo_master\<lparr>m_workernum := 4\<rparr>))"
proof -
  have "server_setting ''workernum'' ''4'' 0 2" by (simp add: server_setting_def)
  from server_line_sets [OF this, of "''junk''" demo_master]
  show ?thesis
    by (simp add: numeral_2_eq_2 set_server_def atoi_def cstr_def atoi_val_def is_space_def is_digit_def
        digit_val_def int_range_def)
qed

theorem post_before_distribution_runs_twice_witness:
  "\<exists>m1 m2 fd' ws. master_handle demo_J (Http ''/metric'' POST ''u'') demo_master = Inr m1 \<and>
     distribute_conf m1 = Inr m2 \<and> m_writes m2 = send_msg 4 MASTER_MSG_TYPE_ADDCONF ''u'' # ws \<and>
     send_msg fd' MASTER_MSG_TYPE_ADDCONF ''u'' \<in> set ws"
proof -
  obtain m1 where m1: "master_handle demo_J (Http ''/metric'' POST ''u'') demo_master = Inr m1"
    using demo_post by blast
  have f: "least_loaded (m_config_map demo_master) = Some 4"
    by (simp add: least_loaded_def least_step_def)
  have s: "master_safe m1"
    using master_handle_inv [OF m1 demo_master_inv] handle_consts [OF m1 demo_master_inv] demo_port
    by (simp add: master_safe_def)
  have "length (m_configid_map m1) = 1"
    using m1 f by (auto simp: metric_request_cb_def deal_metric_request_def demo_req add_config_def
        emit_def assign_channel_def put_config_def)
  then obtain m2 where m2: "distribute_conf m1 = Inr m2"
    using master_step_safe [OF s, of demo_J DistributeDue] by (auto simp: input_ok_def)
  have n: "smap_find (m_configid_map demo_master) 5 = None" by simp
  from post_before_distribution_runs_twice [OF demo_master_inv demo_req(1) n m1 m2]
  obtain fd fd' ws where w: "m_writes m2 = [send_msg fd MASTER_MSG_TYPE_ADDCONF ''u''] @ ws"
    "send_msg fd' MASTER_MSG_TYPE_ADDCONF ''u'' \<in> set ws" by auto
  have "m_writes m1 = [send_msg 4 MASTER_MSG_TYPE_ADDCONF ''u'']"
    using m1 f by (auto simp: metric_request_cb_def deal_metric_request_def demo_req add_config_def
        emit_def assign_channel_def put_config_def)
  moreover obtain i' where "fold_res distribute_one (m_configid_map m1) (0, m1) = Inr (i', m2)"
    using m2 by (auto simp: distribute_conf_def)
  then obtain vs where "m_writes m2 = m_writes m1 @ vs"
    using distribute_writes [of "m_configid_map m1" 0 m1 i' m2] s by (auto simp: master_safe_def)
  ultimately have "fd = 4" using w(1) by (simp add: send_msg_def)
  with w m1 m2 show ?thesis by auto
qed

theorem delete_before_distribution_writes_fd0_witness:
  "\<exists>m'. master_handle demo_J (Http ''/metric/delete'' POST ''u'') demo_loaded = Inr m' \<and>
     m_writes m' = [send_msg 0 MASTER_MSG_TYPE_DELCONF ''u'']"
  using delete_before_distribution_writes_fd0 [OF demo_loaded_inv demo_req(1)] by auto

end
