(* ===== verification/Configuration.thy ===== *)
theory Configuration
  imports C_String
begin

section \<open>\<open>configuration.cpp\<close>: the configuration of one test\<close>

text \<open>
  \<open>Config\<close> carries the fields of one configured test from the JSON text to a \<open>Test\<close> object.
  The default constructor leaves \<open>port\<close> unset, so the constructor takes the memory the object
  is built in (\<open>junk\<close>) and overwrites the fields the code assigns. The setters and getters are
  one definition each; \<open>get_id\<close> returns a \<open>long\<close>, which holds every \<open>int\<close>.
\<close>

record config =
  cf_id :: int
  cf_host :: string
  cf_port :: int
  cf_times :: int
  cf_ttl :: int
  cf_frenc :: int
  cf_timeout :: int
  cf_interval :: int
  cf_type :: string

definition Config_new :: "config \<Rightarrow> config" where
  "Config_new junk = junk\<lparr>cf_host := [], cf_times := -1, cf_ttl := -1, cf_frenc := -1,
     cf_timeout := -1, cf_interval := -1, cf_id := -1, cf_type := []\<rparr>"

definition Config_new6 :: "string \<Rightarrow> int \<Rightarrow> int \<Rightarrow> int \<Rightarrow> int \<Rightarrow> int \<Rightarrow> config \<Rightarrow> config" where
  "Config_new6 host ntimes ttl frenc timeout interval junk =
     junk\<lparr>cf_type := [], cf_host := host, cf_times := ntimes, cf_ttl := ttl,
       cf_frenc := frenc, cf_timeout := timeout, cf_interval := interval\<rparr>"

definition set_id :: "int \<Rightarrow> config \<Rightarrow> config" where
  "set_id i c = c\<lparr>cf_id := i\<rparr>"
definition set_host :: "string \<Rightarrow> config \<Rightarrow> config" where
  "set_host h c = c\<lparr>cf_host := h\<rparr>"
definition set_port :: "int \<Rightarrow> config \<Rightarrow> config" where
  "set_port p c = c\<lparr>cf_port := p\<rparr>"
definition set_times :: "int \<Rightarrow> config \<Rightarrow> config" where
  "set_times t c = c\<lparr>cf_times := t\<rparr>"
definition set_ttl :: "int \<Rightarrow> config \<Rightarrow> config" where
  "set_ttl t c = c\<lparr>cf_ttl := t\<rparr>"
definition set_frenc :: "int \<Rightarrow> config \<Rightarrow> config" where
  "set_frenc f c = c\<lparr>cf_frenc := f\<rparr>"
definition set_timeout :: "int \<Rightarrow> config \<Rightarrow> config" where
  "set_timeout t c = c\<lparr>cf_timeout := t\<rparr>"
definition set_interval :: "int \<Rightarrow> config \<Rightarrow> config" where
  "set_interval i c = c\<lparr>cf_interval := i\<rparr>"
definition set_type :: "string \<Rightarrow> config \<Rightarrow> config" where
  "set_type t c = c\<lparr>cf_type := t\<rparr>"

definition get_id :: "config \<Rightarrow> int" where
  [simp]: "get_id c = cf_id c"
definition get_host :: "config \<Rightarrow> string" where
  [simp]: "get_host c = cf_host c"
definition get_port :: "config \<Rightarrow> int" where
  [simp]: "get_port c = cf_port c"
definition get_times :: "config \<Rightarrow> int" where
  [simp]: "get_times c = cf_times c"
definition get_ttl :: "config \<Rightarrow> int" where
  [simp]: "get_ttl c = cf_ttl c"
definition get_frenc :: "config \<Rightarrow> int" where
  [simp]: "get_frenc c = cf_frenc c"
definition get_timeout :: "config \<Rightarrow> int" where
  [simp]: "get_timeout c = cf_timeout c"
definition get_interval :: "config \<Rightarrow> int" where
  [simp]: "get_interval c = cf_interval c"
definition get_type :: "config \<Rightarrow> string" where
  [simp]: "get_type c = cf_type c"

lemmas config_setters = set_id_def set_host_def set_port_def set_times_def set_ttl_def
  set_frenc_def set_timeout_def set_interval_def set_type_def

end
