(* ===== verification/Test_Base.thy ===== *)
theory Test_Base
  imports Complex_Main Tool Configuration Json_Lib
begin

section \<open>\<open>test.cpp\<close>: what all tests share\<close>

text \<open>
  The base class \<open>Test\<close> (id, period, name), the objects a running test creates in the event
  library (\<open>Test_event\<close>), and the effects of a test's operations on the world: each operation
  below returns the new object and the list of calls it made, in order. \<open>env\<close> holds the
  answers of the operating system to one handler run.
\<close>

subsection \<open>The base class\<close>

record test_base =
  t_id :: int
  t_frenc :: int
  t_name :: string

definition Test_get_id :: "'a test_base_scheme \<Rightarrow> int" where
  "Test_get_id t = t_id t"
definition Test_get_frenc :: "'a test_base_scheme \<Rightarrow> int" where
  "Test_get_frenc t = t_frenc t"
definition Test_get_name :: "'a test_base_scheme \<Rightarrow> string" where
  "Test_get_name t = t_name t"
definition Test_set_frenc :: "int \<Rightarrow> 'a test_base_scheme \<Rightarrow> 'a test_base_scheme" where
  "Test_set_frenc f t = t\<lparr>t_frenc := f\<rparr>"
definition Test_set_name :: "string \<Rightarrow> 'a test_base_scheme \<Rightarrow> 'a test_base_scheme" where
  "Test_set_name n t = t\<lparr>t_name := n\<rparr>"

text \<open>\<open>rnd\<close> is what \<open>rand()\<close> returns.\<close>

definition Test_set_id :: "int \<Rightarrow> int \<Rightarrow> 'a test_base_scheme \<Rightarrow> 'a test_base_scheme res" where
  "Test_set_id rnd i t =
     rbind (if i < 0 then ck_int (rnd + 1000000) else Inr i) (\<lambda>i'. Inr (t\<lparr>t_id := i'\<rparr>))"

subsection \<open>Status values\<close>

definition TEST_STATUS_OK :: int where "TEST_STATUS_OK = 0"
definition TEST_STATUS_INIT :: int where "TEST_STATUS_INIT = 1"
definition TEST_STATUS_PROBE :: int where "TEST_STATUS_PROBE = 2"
definition TEST_STATUS_RECV :: int where "TEST_STATUS_RECV = 3"
definition TEST_STATUS_PROCESS :: int where "TEST_STATUS_PROCESS = 4"
definition TEST_STATUS_NOLAST :: int where "TEST_STATUS_NOLAST = 5"
definition TEST_STATUS_LAST :: int where "TEST_STATUS_LAST = 6"
definition TEST_STATUS_DONE :: int where "TEST_STATUS_DONE = 7"
definition TEST_STATUS_FAIL :: int where "TEST_STATUS_FAIL = 8"

lemmas status_defs = TEST_STATUS_OK_def TEST_STATUS_INIT_def TEST_STATUS_PROBE_def
  TEST_STATUS_RECV_def TEST_STATUS_PROCESS_def TEST_STATUS_NOLAST_def TEST_STATUS_LAST_def
  TEST_STATUS_DONE_def TEST_STATUS_FAIL_def

subsection \<open>Events and effects\<close>

text \<open>The callback an event was assigned; the reason it fires is the handler's argument.\<close>

datatype callback = PingTimeoutCb | PingSocketCb | UdpTimeoutCb

text \<open>
  \<open>Test_event\<close> with the arguments of its \<open>event_assign\<close> and \<open>event_add\<close>: descriptor (-1 for
  none), \<open>EV_PERSIST\<close>, \<open>EV_READ\<close>, the timeout as seconds and microseconds, the mark.
\<close>

record test_event =
  ev_cb :: callback
  ev_fd :: int
  ev_persist :: bool
  ev_read :: bool
  ev_timeout :: "(int \<times> int) option"
  ev_mark :: bool

text \<open>The timeout of \<open>ms\<close> milliseconds as the sources compute it.\<close>

definition ms_timeval :: "int \<Rightarrow> int \<times> int" where
  "ms_timeval ms = (ms sdiv 1000, (ms smod 1000) * 1000)"

datatype effect =
    CloseFd int                         \<comment> \<open>\<open>close(fd)\<close>\<close>
  | SendTo int "8 word list"            \<comment> \<open>\<open>sendto(fd, packet)\<close>\<close>
  | NewEvent test_event "string option" \<comment> \<open>new event, added; and its key in the ICMP table\<close>
  | FreeOwnEvent                        \<comment> \<open>\<open>delete p_tev\<close> of the running handler\<close>
  | Unregister string                   \<comment> \<open>\<open>unregister_event\<close> with this key\<close>
  | SendResult string                   \<comment> \<open>\<open>sendresult\<close>: \<open>LPUSH proberlist\<close> of this text\<close>
  | LogInfo string                      \<comment> \<open>\<open>logger->info\<close>\<close>

text \<open>
  \<open>sendresult\<close> hands the text to \<open>redisAsyncCommand\<close> on the worker's connection; the command
  is the list of its arguments. \<open>freed\<close> are the connections hiredis has freed: it frees a connection
  after a failed connect and after a disconnect.
\<close>

definition sendresult :: "'c option \<Rightarrow> 'c list \<Rightarrow> string \<Rightarrow> ('c \<times> string list) res" where
  "sendresult redis freed content =
     rbind (need UninitRead redis) (\<lambda>c.
     if c \<in> set freed then Inl UseAfterFree
     else Inr (c, [''LPUSH'', ''proberlist'', cstr content]))"

type_synonym in_addr = "8 word \<times> 8 word \<times> 8 word \<times> 8 word"

fun inet_ntop :: "in_addr \<Rightarrow> string" where
  "inet_ntop (a, b, c, d) =
     show_nat (unat a) @ ''.'' @ show_nat (unat b) @ ''.'' @ show_nat (unat c) @ ''.'' @
     show_nat (unat d)"

lemma length_show_byte: "length (show_nat (unat (b :: 8 word))) \<le> 3"
  using unat8_less [of b] by (intro length_show_nat) simp_all

lemma length_inet_ntop: "length (inet_ntop x) \<le> 15"
proof (cases x)
  case (fields a b c d)
  show ?thesis
    using length_show_byte [of a] length_show_byte [of b] length_show_byte [of c]
      length_show_byte [of d] by (simp add: fields)
qed

text \<open>The operating system's answers to the calls one handler makes.\<close>

record env =
  e_time :: int                        \<comment> \<open>\<open>time(NULL)\<close>\<close>
  e_tod :: timeval                     \<comment> \<open>\<open>gettimeofday\<close>\<close>
  e_pid :: int                         \<comment> \<open>\<open>getpid()\<close>\<close>
  e_sock :: int                        \<comment> \<open>\<open>socket\<close>\<close>
  e_addr :: "in_addr option"           \<comment> \<open>\<open>getaddrinfo\<close>/\<open>inet_pton\<close> of the host\<close>
  e_send_ok :: bool                    \<comment> \<open>\<open>sendto\<close> succeeds\<close>
  e_recv :: "8 word list option"       \<comment> \<open>\<open>recvmsg\<close>: the datagram, or -1\<close>
  e_accum :: "real option"             \<comment> \<open>the stack slot of \<open>rtt_accum\<close>; \<open>None\<close> is a NaN\<close>
  e_logs :: "string \<times> string"          \<comment> \<open>the numbers of the two log lines, rendered\<close>

subsection \<open>The contract of \<open>finish\<close>\<close>

text \<open>
  Every kind of test ends a run with \<open>finish\<close>: the socket is closed, one result is sent, the
  status is DONE, and no new event is left behind. The worker relies on nothing else.
\<close>

fun is_result :: "effect \<Rightarrow> bool" where
  "is_result (SendResult s) = True"
| "is_result _ = False"

fun is_new_event :: "effect \<Rightarrow> bool" where
  "is_new_event (NewEvent ev k) = True"
| "is_new_event _ = False"

definition results_of :: "effect list \<Rightarrow> string list" where
  "results_of es = concat (map (\<lambda>e. case e of SendResult s \<Rightarrow> [s] | _ \<Rightarrow> []) es)"

lemma results_of_simps [simp]:
  "results_of [] = []"
  "results_of (SendResult s # es) = s # results_of es"
  "results_of (CloseFd fd # es) = results_of es"
  "results_of (SendTo fd p # es) = results_of es"
  "results_of (NewEvent ev k # es) = results_of es"
  "results_of (FreeOwnEvent # es) = results_of es"
  "results_of (Unregister key # es) = results_of es"
  "results_of (LogInfo s # es) = results_of es"
  "results_of (es @ fs) = results_of es @ results_of fs"
  by (simp_all add: results_of_def)

lemma length_results_of: "length (results_of es) = length (filter is_result es)"
  by (induction es rule: rev_induct) (auto simp: results_of_def split: effect.splits)

locale result_reporter =
  fixes finish :: "env \<Rightarrow> 't \<Rightarrow> (int \<times> 't \<times> effect list) res"
    and sock :: "'t \<Rightarrow> int"
    and stat :: "'t \<Rightarrow> int"
    and result :: "env \<Rightarrow> 't \<Rightarrow> string"
  assumes finish_done:
      "finish e t = Inr (r, t', es) \<Longrightarrow> r = TEST_STATUS_DONE \<and> stat t' = TEST_STATUS_DONE"
    and finish_closes: "finish e t = Inr (r, t', es) \<Longrightarrow> CloseFd (sock t) \<in> set es"
    and finish_reports: "finish e t = Inr (r, t', es) \<Longrightarrow> results_of es = [result e t]"
    and finish_quiet: "finish e t = Inr (r, t', es) \<Longrightarrow> \<not> list_ex is_new_event es"
begin

lemma finish_one_result:
  "finish e t = Inr (r, t', es) \<Longrightarrow> length (filter is_result es) = 1"
  using finish_reports by (simp add: length_results_of [symmetric])

lemma finish_twice:
  assumes "finish e t = Inr (r, t', es)" "finish e' t' = Inr (r', t'', es')"
  shows "results_of (es @ es') = [result e t, result e' t']"
  using assms finish_reports by simp

end

lemma status_neq [simp]:
  "TEST_STATUS_RECV \<noteq> TEST_STATUS_FAIL" "TEST_STATUS_INIT \<noteq> TEST_STATUS_FAIL"
  "TEST_STATUS_LAST \<noteq> TEST_STATUS_NOLAST" "TEST_STATUS_LAST \<noteq> TEST_STATUS_PROCESS"
  "TEST_STATUS_PROCESS \<noteq> TEST_STATUS_NOLAST" "TEST_STATUS_FAIL \<noteq> TEST_STATUS_NOLAST"
  "TEST_STATUS_FAIL \<noteq> TEST_STATUS_PROCESS" "TEST_STATUS_FAIL \<noteq> TEST_STATUS_LAST"
  by (simp_all add: status_defs)

end
