(* ===== verification/Ping_Packet.thy ===== *)
theory Ping_Packet
  imports Test_Base
begin

section \<open>ICMP echo packets: building the request, reading the reply\<close>

text \<open>
  The packet part of \<open>ping_test.cpp\<close>: the 64 bytes \<open>probe\<close> writes into \<open>sendbuf\<close>, and what
  \<open>process\<close> reads out of the 1500 bytes of \<open>recvbuf\<close> (IP header, ICMP header, the send time
  in the data). Header fields are little-endian loads, as the sources read and write the
  id and sequence number in host order. The main lemma is the round trip: the reply to a
  request is recognised and gives back its sequence number and send time.
\<close>

subsection \<open>The request\<close>

definition timeval_bytes :: "timeval \<Rightarrow> 8 word list" where
  "timeval_bytes t = le_signed_bytes 8 (tv_sec t) @ le_signed_bytes 8 (tv_usec t)"

text \<open>\<open>icmp_type = ICMP_ECHO\<close>, code 0, the checksum, id, sequence number, 56 bytes of data.\<close>

definition icmp_echo :: "16 word \<Rightarrow> 16 word \<Rightarrow> 16 word \<Rightarrow> timeval \<Rightarrow> 8 word list" where
  "icmp_echo ck ident seq now =
     [8, 0] @ le_bytes 2 (unat ck) @ le_bytes 2 (unat ident) @ le_bytes 2 (unat seq) @
     timeval_bytes now @ replicate 40 0xa5"

text \<open>
  The checksum is computed with the field at zero, over the 64 bytes. \<open>getpid()\<close> and \<open>nsent\<close>
  are cut to the 16 bits of their fields.
\<close>

definition build_probe :: "int \<Rightarrow> int \<Rightarrow> timeval \<Rightarrow> 8 word list res" where
  "build_probe getpid nsent now =
     rbind (in_cksum (icmp_echo 0 (of_int getpid) (of_int nsent) now) (8 + 56))
       (\<lambda>ck. Inr (icmp_echo ck (of_int getpid) (of_int nsent) now))"

lemma length_timeval_bytes [simp]: "length (timeval_bytes t) = 16"
  by (simp add: timeval_bytes_def)

lemma length_icmp_echo [simp]: "length (icmp_echo ck i s t) = 64"
  by (simp add: icmp_echo_def)

lemma build_probe_total: "\<exists>ck. build_probe pid n t = Inr (icmp_echo ck (of_int pid) (of_int n) t)"
  using in_cksum_ones [of "icmp_echo 0 (of_int pid) (of_int n) t"]
  by (auto simp: build_probe_def)

lemma build_probe_checks:
  assumes "build_probe pid n t = Inr p"
  shows "length p = 64 \<and> in_cksum p 64 = Inr 0"
proof -
  define post where
    "post = le_bytes 2 (unat (of_int pid :: 16 word)) @ le_bytes 2 (unat (of_int n :: 16 word)) @
       timeval_bytes t @ replicate 40 0xa5"
  have e: "icmp_echo ck (of_int pid) (of_int n) t = [8, 0] @ le_bytes 2 (unat ck) @ post" for ck
    by (simp add: icmp_echo_def post_def)
  have z: "le_bytes 2 0 = [0, 0]" by (simp add: numeral_2_eq_2)
  have l: "length post = 60" by (simp add: post_def)
  obtain ck where ck: "in_cksum ([8, 0] @ [0, 0] @ post) (int (length ([8, 0] @ [0, 0] @ post))) = Inr ck"
    and p: "p = [8, 0] @ le_bytes 2 (unat ck) @ post"
    using assms l by (auto simp: build_probe_def e z)
  from in_cksum_verifies [OF _ _ ck] p l show ?thesis by simp
qed

subsection \<open>The reply\<close>

definition recvbuf_size :: nat where "recvbuf_size = 1500"

text \<open>
  \<open>recvmsg\<close> overwrites the front of the buffer; a longer datagram is cut, a failed call
  leaves the buffer as it was and returns -1.
\<close>

definition recv_into :: "8 word list option \<Rightarrow> 8 word list \<Rightarrow> int \<times> 8 word list" where
  "recv_into r buf =
     (case r of None \<Rightarrow> (-1, buf)
      | Some d \<Rightarrow> (let d' = take (length buf) d in (int (length d'), d' @ drop (length d') buf)))"

definition bytes_at :: "nat \<Rightarrow> nat \<Rightarrow> 8 word list \<Rightarrow> 8 word list res" where
  "bytes_at off n buf =
     (if off + n \<le> length buf then Inr (take n (drop off buf)) else Inl OutOfBounds)"

definition byte_at :: "nat \<Rightarrow> 8 word list \<Rightarrow> nat res" where
  "byte_at off buf = rbind (bytes_at off 1 buf) (\<lambda>bs. Inr (le_nat bs))"

text \<open>Fields of \<open>struct ip\<close> at offset \<open>o\<close>.\<close>

definition ip_hlen :: "nat \<Rightarrow> 8 word list \<Rightarrow> nat res" where
  "ip_hlen off buf = rbind (byte_at off buf) (\<lambda>b. Inr (4 * (b mod 16)))"
definition ip_ttl :: "nat \<Rightarrow> 8 word list \<Rightarrow> nat res" where
  "ip_ttl off buf = byte_at (off + 8) buf"
definition ip_p :: "nat \<Rightarrow> 8 word list \<Rightarrow> nat res" where
  "ip_p off buf = byte_at (off + 9) buf"

text \<open>Fields of \<open>struct icmp\<close> at offset \<open>off\<close>.\<close>

definition icmp_type :: "nat \<Rightarrow> 8 word list \<Rightarrow> nat res" where
  "icmp_type off buf = byte_at off buf"
definition icmp_code :: "nat \<Rightarrow> 8 word list \<Rightarrow> nat res" where
  "icmp_code off buf = byte_at (off + 1) buf"
definition icmp_id :: "nat \<Rightarrow> 8 word list \<Rightarrow> nat res" where
  "icmp_id off buf = rbind (bytes_at (off + 4) 2 buf) (\<lambda>bs. Inr (le_nat bs))"
definition icmp_seq :: "nat \<Rightarrow> 8 word list \<Rightarrow> nat res" where
  "icmp_seq off buf = rbind (bytes_at (off + 6) 2 buf) (\<lambda>bs. Inr (le_nat bs))"
definition icmp_timeval :: "nat \<Rightarrow> 8 word list \<Rightarrow> timeval res" where
  "icmp_timeval off buf =
     rbind (bytes_at (off + 8) 8 buf) (\<lambda>s. rbind (bytes_at (off + 16) 8 buf) (\<lambda>u.
     Inr \<lparr>tv_sec = le_signed s, tv_usec = le_signed u\<rparr>))"

definition IPPROTO_ICMP :: nat where "IPPROTO_ICMP = 1"
definition IPPROTO_UDP :: nat where "IPPROTO_UDP = 17"
definition ICMP_ECHOREPLY :: nat where "ICMP_ECHOREPLY = 0"
definition ICMP_UNREACH :: nat where "ICMP_UNREACH = 3"
definition ICMP_UNREACH_PORT :: nat where "ICMP_UNREACH_PORT = 3"

lemma bytes_at_total: "off + n \<le> length buf \<Longrightarrow> \<exists>bs. bytes_at off n buf = Inr bs \<and> length bs = n"
  by (simp add: bytes_at_def)

lemma bytes_at_append:
  "length pre = off \<Longrightarrow> length bs = n \<Longrightarrow> bytes_at off n (pre @ bs @ rest) = Inr bs"
  by (simp add: bytes_at_def)

text \<open>
  The answer of a host to a request \<open>p\<close>: an IP header of \<open>4 * hl\<close> bytes with protocol 1, then
  the ICMP message with type \<open>ICMP_ECHOREPLY\<close>, some checksum, and the rest of \<open>p\<close> echoed.
\<close>

definition ip_header :: "nat \<Rightarrow> 8 word \<Rightarrow> nat \<Rightarrow> 8 word list \<Rightarrow> 8 word list" where
  "ip_header hl ttl proto opts =
     [of_nat (64 + hl)] @ replicate 7 0 @ [ttl, of_nat proto] @ opts"

definition echo_reply :: "8 word list \<Rightarrow> 8 word list \<Rightarrow> 8 word list" where
  "echo_reply ck p = [0, 0] @ ck @ drop 4 p"

text \<open>
  A receive buffer that holds such a reply behind an IP header of \<open>4 * hl\<close> bytes, followed by
  whatever was there before.
\<close>

definition holds_reply ::
  "nat \<Rightarrow> 8 word \<Rightarrow> 16 word \<Rightarrow> 16 word \<Rightarrow> timeval \<Rightarrow> 8 word list \<Rightarrow> bool" where
  "holds_reply hl ttl i s t buf \<longleftrightarrow>
     5 \<le> hl \<and> hl \<le> 15 \<and> \<bar>tv_sec t\<bar> < 2 ^ 61 \<and> \<bar>tv_usec t\<bar> < 2 ^ 61 \<and>
     (\<exists>opts ck rest c. length opts = 4 * hl - 10 \<and> length ck = 2 \<and>
        buf = ip_header hl ttl IPPROTO_ICMP opts @ echo_reply ck (icmp_echo c i s t) @ rest)"

lemma le_word16: "le_nat (le_bytes 2 (unat (w :: 16 word))) = unat w"
  using unsigned_less [of w, where ?'a = nat] by (simp add: le_nat_le_bytes)

lemma ip_header_fields:
  assumes "hl \<le> 15"
  shows "ip_hlen 0 (ip_header hl ttl p opts @ r) = Inr (4 * hl)"
    and "ip_p 0 (ip_header hl ttl p opts @ r) = Inr (unat (of_nat p :: 8 word))"
    and "ip_ttl 0 (ip_header hl ttl p opts @ r) = Inr (unat ttl)"
proof -
  have "unat (of_nat (64 + hl) :: 8 word) = 64 + hl"
    using assms by (simp only: unat_of_nat) simp
  then have "unat (64 + word_of_nat hl :: 8 word) mod 16 = hl"
    using assms by simp presburger
  then show "ip_hlen 0 (ip_header hl ttl p opts @ r) = Inr (4 * hl)"
    by (simp add: ip_hlen_def byte_at_def bytes_at_def ip_header_def)
qed (simp_all add: ip_p_def ip_ttl_def byte_at_def bytes_at_def ip_header_def numeral_eq_Suc)

text \<open>The ICMP part, at the end of a prefix of any length.\<close>

lemma echo_reply_fields:
  assumes "length ck = 2" "\<bar>tv_sec t\<bar> < 2 ^ 61" "\<bar>tv_usec t\<bar> < 2 ^ 61"
    and buf: "buf = hdr @ echo_reply ck (icmp_echo c i s t) @ rest" and "length hdr = n"
  shows "icmp_type n buf = Inr ICMP_ECHOREPLY" "icmp_id n buf = Inr (unat i)"
    "icmp_seq n buf = Inr (unat s)" "icmp_timeval n buf = Inr t"
proof -
  have eq: "buf = hdr @ ([0, 0] @ ck) @ le_bytes 2 (unat i) @ le_bytes 2 (unat s) @
      le_signed_bytes 8 (tv_sec t) @ le_signed_bytes 8 (tv_usec t) @ replicate 40 0xa5 @ rest"
    using length_le_bytes [of 2 "unat c"]
    by (simp add: buf echo_reply_def icmp_echo_def timeval_bytes_def)
  have tv: "le_signed (le_signed_bytes 8 (tv_sec t)) = tv_sec t"
    "le_signed (le_signed_bytes 8 (tv_usec t)) = tv_usec t"
    using assms(2,3) by (intro le_signed_round; simp)+
  note at = bytes_at_append
  show "icmp_type n buf = Inr ICMP_ECHOREPLY"
    using assms(5) by (simp add: icmp_type_def byte_at_def bytes_at_def eq ICMP_ECHOREPLY_def)
  show "icmp_id n buf = Inr (unat i)"
    using at [of "hdr @ [0, 0] @ ck" "n + 4" "le_bytes 2 (unat i)" 2] assms(1,5)
    by (simp add: icmp_id_def eq le_word16)
  show "icmp_seq n buf = Inr (unat s)"
    using at [of "hdr @ [0, 0] @ ck @ le_bytes 2 (unat i)" "n + 6" "le_bytes 2 (unat s)" 2]
      assms(1,5) by (simp add: icmp_seq_def eq le_word16)
  show "icmp_timeval n buf = Inr t"
    using at [of "hdr @ [0, 0] @ ck @ le_bytes 2 (unat i) @ le_bytes 2 (unat s)" "n + 8"
        "le_signed_bytes 8 (tv_sec t)" 8]
      at [of "hdr @ [0, 0] @ ck @ le_bytes 2 (unat i) @ le_bytes 2 (unat s) @
        le_signed_bytes 8 (tv_sec t)" "n + 16" "le_signed_bytes 8 (tv_usec t)" 8] assms(1,5)
    by (simp add: icmp_timeval_def eq tv)
qed

lemma reply_fields:
  assumes "holds_reply hl ttl i s t buf"
  shows "ip_hlen 0 buf = Inr (4 * hl)" "ip_p 0 buf = Inr IPPROTO_ICMP"
    "ip_ttl 0 buf = Inr (unat ttl)" "icmp_type (4 * hl) buf = Inr ICMP_ECHOREPLY"
    "icmp_id (4 * hl) buf = Inr (unat i)" "icmp_seq (4 * hl) buf = Inr (unat s)"
    "icmp_timeval (4 * hl) buf = Inr t"
proof -
  obtain opts ck rest c where l: "length opts = 4 * hl - 10" "length ck = 2" "5 \<le> hl" "hl \<le> 15"
    "\<bar>tv_sec t\<bar> < 2 ^ 61" "\<bar>tv_usec t\<bar> < 2 ^ 61"
    and buf: "buf = ip_header hl ttl IPPROTO_ICMP opts @ echo_reply ck (icmp_echo c i s t) @ rest"
    using assms unfolding holds_reply_def by blast
  have n: "length (ip_header hl ttl IPPROTO_ICMP opts) = 4 * hl"
    using l(1,3) by (simp add: ip_header_def)
  show "ip_hlen 0 buf = Inr (4 * hl)" "ip_p 0 buf = Inr IPPROTO_ICMP"
    "ip_ttl 0 buf = Inr (unat ttl)"
    unfolding buf using ip_header_fields [OF l(4), of ttl IPPROTO_ICMP opts]
    by (simp_all add: IPPROTO_ICMP_def)
  show "icmp_type (4 * hl) buf = Inr ICMP_ECHOREPLY" "icmp_id (4 * hl) buf = Inr (unat i)"
    "icmp_seq (4 * hl) buf = Inr (unat s)" "icmp_timeval (4 * hl) buf = Inr t"
    using echo_reply_fields [OF l(2,5,6) buf n] by simp_all
qed

end
