(* ===== verification/Ping_Test.thy ===== *)
theory Ping_Test
  imports Ping_Packet
begin

section \<open>\<open>ping_test.cpp\<close>: the ping test\<close>

text \<open>
  \<open>Ping_test\<close> extends the base class with its own fields, as the C++ class does. Every method
  is a definition that takes the object and the operating system's answers and returns the
  object and the calls made; the two libevent callbacks are the last definitions. The lemmas
  after each method describe all of its branches; the theory \<open>Ping_Run\<close> composes them into
  whole runs.
\<close>

subsection \<open>State\<close>

record ping_data =
  pd_ttl :: nat
  pd_rtt :: real
  pd_datalen :: int
  pd_icmpseq :: nat
  pd_hostip :: string

record ping_test = test_base +
  sockfd :: int
  host :: string
  ping_times :: int        \<comment> \<open>probes per run\<close>
  nowtimes :: int          \<comment> \<open>probes sent in this run\<close>
  nowrecvtimes :: int      \<comment> \<open>answers read in this run\<close>
  ttl :: int
  recvtime :: timeval
  servaddr :: "in_addr option"
  status :: int
  recvbuf :: "8 word list"
  nsent :: int
  starttime :: int
  donetime :: int
  data_vec :: "ping_data list"
  pid :: int
  recvlen :: int
  timeout :: int
  interval :: int

text \<open>The constructor, over the memory the object is built in; strings and vectors start empty.\<close>

definition Ping_test_new :: "int \<Rightarrow> ping_test \<Rightarrow> ping_test" where
  "Ping_test_new getpid junk =
     junk\<lparr>t_name := [], host := [], data_vec := [], servaddr := None, nowtimes := 0,
          pid := getpid\<rparr>"

definition Ping_config :: "config \<Rightarrow> ping_test \<Rightarrow> ping_test" where
  "Ping_config conf t = t\<lparr>
     ping_times := (if get_times conf \<le> 0 then 4 else get_times conf),
     ttl := (if get_ttl conf \<le> 0 then 64 else get_ttl conf),
     host := get_host conf,
     t_frenc := get_frenc conf,
     timeout := (if get_timeout conf \<le> 0 then -1 else get_timeout conf),
     interval := (if get_interval conf \<le> 0 then -1 else get_interval conf)\<rparr>"

definition Ping_get_times :: "ping_test \<Rightarrow> int" where
  [simp]: "Ping_get_times t = ping_times t"
definition Ping_get_nowtimes :: "ping_test \<Rightarrow> int" where
  [simp]: "Ping_get_nowtimes t = nowtimes t"
definition Ping_get_interval :: "ping_test \<Rightarrow> int" where
  [simp]: "Ping_get_interval t = interval t"

subsection \<open>\<open>init\<close>, \<open>probe\<close>, \<open>receive\<close>\<close>

definition Ping_init :: "env \<Rightarrow> ping_test \<Rightarrow> int \<times> ping_test" where
  "Ping_init e t =
     (let t1 = t\<lparr>sockfd := e_sock e\<rparr> in
      if e_sock e < 0 then (TEST_STATUS_FAIL, t1)
      else case e_addr e of
        None \<Rightarrow> (TEST_STATUS_FAIL, t1)
      | Some a \<Rightarrow>
          (TEST_STATUS_INIT,
           t1\<lparr>servaddr := Some a, status := TEST_STATUS_INIT, nsent := 0,
              recvbuf := replicate recvbuf_size 0, starttime := e_time e,
              nowrecvtimes := 0, nowtimes := 0\<rparr>))"

text \<open>The accessors of \<open>Ping_Test_event\<close>; an event is built with some mark, which is then set.\<close>

definition Ping_get_mark :: "test_event \<Rightarrow> bool" where
  [simp]: "Ping_get_mark ev = ev_mark ev"

definition Ping_set_mark :: "bool \<Rightarrow> test_event \<Rightarrow> test_event" where
  [simp]: "Ping_set_mark m ev = ev\<lparr>ev_mark := m\<rparr>"

definition read_event :: "ping_test \<Rightarrow> test_event" where
  "read_event t = Ping_set_mark True
     \<lparr>ev_cb = PingSocketCb, ev_fd = sockfd t, ev_persist = False, ev_read = True,
      ev_timeout = (if timeout t > 0 then Some (ms_timeval (timeout t)) else None),
      ev_mark = False\<rparr>"

definition Ping_probe :: "env \<Rightarrow> ping_test \<Rightarrow> (int \<times> ping_test \<times> effect list) res" where
  "Ping_probe e t =
     rbind (ck_int (nsent t + 1)) (\<lambda>nsent'.
     rbind (build_probe (e_pid e) (nsent t) (e_tod e)) (\<lambda>packet.
     rbind (need NullDeref (servaddr t)) (\<lambda>_.
     let t1 = t\<lparr>nsent := nsent'\<rparr> in
     if \<not> e_send_ok e then Inr (TEST_STATUS_FAIL, t1, [])
     else rbind (ck_int (nowtimes t + 1)) (\<lambda>n.
       Inr (TEST_STATUS_PROBE, t1\<lparr>nowtimes := n, status := TEST_STATUS_PROBE\<rparr>,
            [SendTo (sockfd t) packet, NewEvent (read_event t) None])))))"

definition Ping_receive :: "env \<Rightarrow> ping_test \<Rightarrow> (int \<times> ping_test) res" where
  "Ping_receive e t =
     rbind (need NullDeref (servaddr t)) (\<lambda>_.
     rbind (ck_int (nowrecvtimes t + 1)) (\<lambda>n.
     let (len, buf) = recv_into (e_recv e) (recvbuf t) in
     Inr (TEST_STATUS_RECV,
          t\<lparr>recvlen := len, recvbuf := buf, recvtime := e_tod e, status := TEST_STATUS_RECV,
            nowrecvtimes := n\<rparr>)))"

subsection \<open>\<open>process\<close>\<close>

text \<open>
  \<open>icmplen = recvlen - hlen1\<close> is computed in \<open>unsigned int\<close>. A message that is not an echo
  reply leaves \<open>process\<close> without a \<open>return\<close>.
\<close>

definition Ping_process :: "ping_test \<Rightarrow> (int \<times> ping_test) res" where
  "Ping_process t0 =
     (let t = t0\<lparr>status := TEST_STATUS_PROCESS\<rparr>; buf = recvbuf t in
      rbind (ip_hlen 0 buf) (\<lambda>hlen1.
      rbind (ip_p 0 buf) (\<lambda>p.
      if p \<noteq> IPPROTO_ICMP then Inr (TEST_STATUS_FAIL, t)
      else
        let icmplen = (of_int (recvlen t) :: 32 word) - of_nat hlen1 in
        if icmplen < 8 then Inr (TEST_STATUS_FAIL, t)
        else
          rbind (icmp_type hlen1 buf) (\<lambda>ty.
          if ty \<noteq> ICMP_ECHOREPLY then Inl MissingReturn
          else
            rbind (icmp_id hlen1 buf) (\<lambda>ident.
            if int ident \<noteq> pid t then Inr (TEST_STATUS_FAIL, t)
            else if icmplen < 16 then Inr (TEST_STATUS_FAIL, t)
            else
              rbind (icmp_timeval hlen1 buf) (\<lambda>tvsend.
              rbind (tv_sub (recvtime t) tvsend) (\<lambda>diff.
              rbind (need NullDeref (servaddr t)) (\<lambda>sin.
              rbind (ip_ttl 0 buf) (\<lambda>ttl'.
              rbind (icmp_seq hlen1 buf) (\<lambda>seq.
              let probedata =
                    \<lparr>pd_ttl = ttl',
                     pd_rtt = of_int (tv_sec diff) * 1000 + of_int (tv_usec diff) / 1000,
                     pd_datalen = sint icmplen, pd_icmpseq = seq, pd_hostip = inet_ntop sin\<rparr>;
                  t' = t\<lparr>recvtime := diff, data_vec := data_vec t @ [probedata]\<rparr> in
              Inr (if nowtimes t \<ge> ping_times t then TEST_STATUS_LAST
                   else if interval t \<le> 0 then TEST_STATUS_NOLAST
                   else TEST_STATUS_PROCESS, t')))))))))))"

subsection \<open>\<open>finish\<close>\<close>

text \<open>
  Doubles are real numbers (rounding is not modelled) or \<open>None\<close>: a NaN, an infinity, or a
  variable that was never assigned. The loop over \<open>data_vec\<close> gives minimum, maximum and sum.
\<close>

definition rtt_step :: "ping_data \<Rightarrow> real \<times> real \<times> real \<Rightarrow> real \<times> real \<times> real" where
  "rtt_step d = (\<lambda>(mn, mx, sm).
     (if pd_rtt d < mn then pd_rtt d else mn, if pd_rtt d > mx then pd_rtt d else mx,
      sm + pd_rtt d))"

fun rtt_stats :: "ping_data list \<Rightarrow> (real \<times> real \<times> real) option" where
  "rtt_stats [] = None"
| "rtt_stats (d # ds) = Some (fold rtt_step ds (pd_rtt d, pd_rtt d, pd_rtt d))"

definition rtt_avg :: "ping_data list \<Rightarrow> real option" where
  "rtt_avg ds = map_option (\<lambda>(mn, mx, sm). sm / of_nat (length ds)) (rtt_stats ds)"

text \<open>\<open>rtt_accum\<close> has no initial value: the loop adds to what its stack slot holds.\<close>

definition rtt_accum :: "real option \<Rightarrow> ping_data list \<Rightarrow> real option" where
  "rtt_accum junk ds =
     (case rtt_avg ds of None \<Rightarrow> junk
      | Some avg \<Rightarrow> map_option (\<lambda>a. fold (\<lambda>d acc. acc + (pd_rtt d - avg) * (pd_rtt d - avg)) ds a) junk)"

definition rtt_mdev :: "real option \<Rightarrow> ping_data list \<Rightarrow> real option" where
  "rtt_mdev junk ds =
     (case rtt_accum junk ds of None \<Rightarrow> None
      | Some a \<Rightarrow> if ds = [] \<or> a < 0 then None else Some (sqrt (a / of_nat (length ds))))"

text \<open>
  \<open>(int)x\<close> of a double truncates towards zero and is undefined when the result does not fit;
  the cast binds tighter than the \<open>*100\<close> that follows it.
\<close>

definition cast_int :: "real option \<Rightarrow> int option" where
  "cast_int x =
     (case x of None \<Rightarrow> None
      | Some r \<Rightarrow> (let i = (if r < 0 then \<lceil>r\<rceil> else \<lfloor>r\<rfloor>) in if int_range i then Some i else None))"

definition times_int :: "int \<Rightarrow> int option \<Rightarrow> int option" where
  "times_int k x = (case x of None \<Rightarrow> None | Some i \<Rightarrow> if int_range (i * k) then Some (i * k) else None)"

definition jnum :: "int option \<Rightarrow> jval" where
  "jnum x = (case x of None \<Rightarrow> JIndet | Some i \<Rightarrow> JInt i)"

definition loss_percent :: "int \<Rightarrow> int \<Rightarrow> real option" where
  "loss_percent recvd sent =
     (if sent = 0 then None else Some (100 - of_int recvd * 100 / of_int sent))"

definition ping_metric :: "real option \<Rightarrow> ping_test \<Rightarrow> metric" where
  "ping_metric accum t =
     [(''host'', JStr (host t)),
      (''transmitted'', JInt (nowtimes t)),
      (''received'', JInt (nowrecvtimes t)),
      (''loss'', jnum (cast_int (loss_percent (nowrecvtimes t) (nowtimes t)))),
      (''time'', jnum (times_int 1000
         (Some (sint (of_int (donetime t - starttime t) :: 32 word))))),
      (''min'', jnum (times_int 100 (cast_int (map_option fst (rtt_stats (data_vec t)))))),
      (''avg'', jnum (times_int 100 (cast_int (rtt_avg (data_vec t))))),
      (''max'', jnum (times_int 100 (cast_int (map_option (fst \<circ> snd) (rtt_stats (data_vec t)))))),
      (''mdev'', jnum (times_int 100 (cast_int (rtt_mdev accum (data_vec t)))))]"

definition logbuf_size :: nat where "logbuf_size = 256"

definition Ping_finish :: "'j jsonlib \<Rightarrow> env \<Rightarrow> ping_test \<Rightarrow> (int \<times> ping_test \<times> effect list) res" where
  "Ping_finish J e t0 =
     (let t = t0\<lparr>donetime := e_time e, servaddr := None\<rparr>;
          metric_str = j_write J (ping_metric (e_accum e) t) in
      rbind (sprintf_buf logbuf_size (cstr (host t) @ '' '' @ fst (e_logs e))) (\<lambda>log1.
      rbind (sprintf_buf logbuf_size (cstr (host t) @ '' '' @ snd (e_logs e))) (\<lambda>log2.
      Inr (TEST_STATUS_DONE, t\<lparr>status := TEST_STATUS_DONE, data_vec := []\<rparr>,
           [CloseFd (sockfd t), SendResult metric_str, LogInfo log1, LogInfo log2]))))"

subsection \<open>\<open>run\<close> and the callbacks\<close>

definition timer_event :: "ping_test \<Rightarrow> test_event" where
  "timer_event t = Ping_set_mark False
     \<lparr>ev_cb = PingTimeoutCb, ev_fd = -1, ev_persist = True, ev_read = False,
      ev_timeout = Some (ms_timeval (interval t)), ev_mark = True\<rparr>"

definition Ping_run :: "'j jsonlib \<Rightarrow> env \<Rightarrow> ping_test \<Rightarrow> (int \<times> ping_test \<times> effect list) res" where
  "Ping_run J e t =
     (let (result, t1) = Ping_init e (t\<lparr>starttime := e_time e\<rparr>) in
      rbind (if result = TEST_STATUS_FAIL then Ping_finish J e t1 else Inr (result, t1, []))
        (\<lambda>(_, t2, es1).
      if interval t2 > 0 then Inr (TEST_STATUS_OK, t2, es1 @ [NewEvent (timer_event t2) None])
      else rbind (Ping_probe e t2) (\<lambda>(_, t3, es2). Inr (TEST_STATUS_OK, t3, es1 @ es2))))"

definition ping_timeout_callback_fn ::
  "'j jsonlib \<Rightarrow> env \<Rightarrow> ping_test \<Rightarrow> (ping_test \<times> effect list) res" where
  "ping_timeout_callback_fn J e t =
     (if Ping_get_nowtimes t \<ge> Ping_get_times t
      then rbind (Ping_finish J e t) (\<lambda>(_, t', es). Inr (t', es @ [FreeOwnEvent]))
      else rbind (Ping_probe e t) (\<lambda>(_, t', es). Inr (t', es)))"

datatype fired = EvTimeout | EvRead

fun ping_socket_callback_fn ::
  "'j jsonlib \<Rightarrow> env \<Rightarrow> fired \<Rightarrow> ping_test \<Rightarrow> (ping_test \<times> effect list) res" where
  "ping_socket_callback_fn J e EvTimeout t =
     (if Ping_get_nowtimes t \<ge> Ping_get_times t
      then rbind (Ping_finish J e t) (\<lambda>(_, t', es). Inr (t', es @ [FreeOwnEvent]))
      else if Ping_get_interval t \<le> 0
      then rbind (Ping_probe e t) (\<lambda>(_, t', es). Inr (t', FreeOwnEvent # es))
      else Inr (t, [FreeOwnEvent]))"
| "ping_socket_callback_fn J e EvRead t =
     rbind (Ping_receive e t) (\<lambda>(r1, t1).
     if r1 = TEST_STATUS_FAIL
     then rbind (Ping_finish J e t1) (\<lambda>(_, t', es). Inr (t', FreeOwnEvent # es))
     else
       rbind (Ping_process t1) (\<lambda>(r2, t2).
       if r2 = TEST_STATUS_NOLAST
       then rbind (Ping_probe e t2) (\<lambda>(_, t', es). Inr (t', FreeOwnEvent # es))
       else if r2 = TEST_STATUS_PROCESS then Inr (t2, [FreeOwnEvent])
       else if r2 = TEST_STATUS_LAST
       then rbind (Ping_finish J e t2) (\<lambda>(_, t', es). Inr (t', FreeOwnEvent # es))
       else Inr (t2, [FreeOwnEvent])))"

subsection \<open>Facts about the methods\<close>

lemma Ping_finish_eq:
  "Ping_finish J e t = Inr (r, t', es) \<longleftrightarrow>
     r = TEST_STATUS_DONE \<and>
     t' = t\<lparr>donetime := e_time e, servaddr := None, status := TEST_STATUS_DONE, data_vec := []\<rparr> \<and>
     length (cstr (host t) @ '' '' @ fst (e_logs e)) < logbuf_size \<and>
     length (cstr (host t) @ '' '' @ snd (e_logs e)) < logbuf_size \<and>
     es = [CloseFd (sockfd t),
           SendResult (j_write J (ping_metric (e_accum e) (t\<lparr>donetime := e_time e\<rparr>))),
           LogInfo (cstr (host t) @ '' '' @ fst (e_logs e)),
           LogInfo (cstr (host t) @ '' '' @ snd (e_logs e))]"
proof -
  have m: "ping_metric a (t\<lparr>donetime := e_time e, servaddr := None\<rparr>) =
    ping_metric a (t\<lparr>donetime := e_time e\<rparr>)" for a
    by (simp add: ping_metric_def)
  show ?thesis by (auto simp: Ping_finish_def Let_def m)
qed

interpretation ping: result_reporter "Ping_finish J" sockfd status
    "\<lambda>e t. j_write J (ping_metric (e_accum e) (t\<lparr>donetime := e_time e\<rparr>))" for J
  by unfold_locales (auto simp: Ping_finish_eq)

lemma Ping_probe_sent:
  assumes "servaddr t = Some a" "e_send_ok e" "int_range (nsent t + 1)" "int_range (nowtimes t + 1)"
  shows "\<exists>p. build_probe (e_pid e) (nsent t) (e_tod e) = Inr p \<and>
    Ping_probe e t =
      Inr (TEST_STATUS_PROBE,
           t\<lparr>nsent := nsent t + 1, nowtimes := nowtimes t + 1, status := TEST_STATUS_PROBE\<rparr>,
           [SendTo (sockfd t) p, NewEvent (read_event t) None])"
  using assms build_probe_total [of "e_pid e" "nsent t" "e_tod e"]
  by (auto simp: Ping_probe_def Let_def ck_int_def)

lemma Ping_probe_cases:
  assumes "Ping_probe e t = Inr (r, t', es)"
  shows "r = TEST_STATUS_FAIL \<and> t' = t\<lparr>nsent := nsent t + 1\<rparr> \<and> es = [] \<or>
    r = TEST_STATUS_PROBE \<and>
    t' = t\<lparr>nsent := nsent t + 1, nowtimes := nowtimes t + 1, status := TEST_STATUS_PROBE\<rparr> \<and>
    (\<exists>p. es = [SendTo (sockfd t) p, NewEvent (read_event t) None])"
  using assms by (auto simp: Ping_probe_def Let_def split: if_splits)

lemma Ping_probe_no_addr: "servaddr t = None \<Longrightarrow> \<exists>f. Ping_probe e t = Inl f"
  using build_probe_total [of "e_pid e" "nsent t" "e_tod e"]
  by (auto simp: Ping_probe_def ck_int_def)

lemma Ping_receive_eq:
  "Ping_receive e t = Inr (r, t') \<longleftrightarrow>
     servaddr t \<noteq> None \<and> int_range (nowrecvtimes t + 1) \<and> r = TEST_STATUS_RECV \<and>
     t' = t\<lparr>recvlen := fst (recv_into (e_recv e) (recvbuf t)),
            recvbuf := snd (recv_into (e_recv e) (recvbuf t)),
            recvtime := e_tod e, status := TEST_STATUS_RECV,
            nowrecvtimes := nowrecvtimes t + 1\<rparr>"
  by (auto simp: Ping_receive_def case_prod_beta Let_def)

text \<open>
  \<open>process\<close> either rejects the message, or appends one measurement and decides by the number
  of probes already sent.
\<close>

definition ping_verdict :: "ping_test \<Rightarrow> int" where
  "ping_verdict t =
     (if nowtimes t \<ge> ping_times t then TEST_STATUS_LAST
      else if interval t \<le> 0 then TEST_STATUS_NOLAST else TEST_STATUS_PROCESS)"

lemma Ping_process_cases:
  assumes "Ping_process t = Inr (r, t')"
  shows "r = TEST_STATUS_FAIL \<and> t' = t\<lparr>status := TEST_STATUS_PROCESS\<rparr> \<or>
    r = ping_verdict t \<and>
    t' = t\<lparr>status := TEST_STATUS_PROCESS, recvtime := recvtime t',
           data_vec := data_vec t @ [last (data_vec t')]\<rparr>"
  using assms unfolding Ping_process_def Let_def
  by (elim res_elims; hypsubst; simp (no_asm) add: ping_verdict_def)

lemma Ping_process_shape:
  assumes "Ping_process t = Inr (r, t')"
  obtains (reject) "r = TEST_STATUS_FAIL" "t' = t\<lparr>status := TEST_STATUS_PROCESS\<rparr>"
  | (accept) rt d where "r = ping_verdict t"
      "t' = t\<lparr>status := TEST_STATUS_PROCESS, recvtime := rt, data_vec := data_vec t @ [d]\<rparr>"
  using Ping_process_cases [OF assms] by blast

text \<open>\<open>recvlen - hlen1\<close> in 32-bit unsigned arithmetic.\<close>

lemma icmplen_unat:
  "unat ((of_int n :: 32 word) - of_nat h) = nat ((n - int h) mod 2 ^ 32)"
proof -
  have "(of_int n :: 32 word) - of_nat h = of_int (n - int h)" by simp
  then show ?thesis by (simp only: unat_eq_nat_uint uint_word_of_int) (simp add: take_bit_eq_mod)
qed

lemma icmplen_ge:
  assumes "int h \<le> n" "n < 2 ^ 31" "k < 2 ^ 31"
  shows "(of_int n :: 32 word) - of_nat h < of_nat k \<longleftrightarrow> n - int h < int k"
proof -
  have "(n - int h) mod 2 ^ 32 = n - int h" using assms by (intro mod_pos_pos_trivial) auto
  moreover have "unat (of_nat k :: 32 word) = k" using assms(3) by (simp add: unat_of_nat)
  ultimately show ?thesis
    using assms(1) by (simp add: word_less_nat_alt icmplen_unat nat_less_iff)
qed

text \<open>
  A buffer that holds an answer of this process is accepted whenever the length test is passed.
\<close>

lemma Ping_process_held:
  assumes buf: "holds_reply hl tv i s tm (recvbuf t)"
    and len: "\<not> (of_int (recvlen t) :: 32 word) - of_nat (4 * hl) < 8"
      "\<not> (of_int (recvlen t) :: 32 word) - of_nat (4 * hl) < 16"
    and pid: "int (unat i) = pid t"
    and nrm: "tv_normal (recvtime t)" "tv_normal tm"
    and addr: "servaddr t = Some a"
  shows "\<exists>diff d. tv_sub (recvtime t) tm = Inr diff \<and>
    tv_micros diff = tv_micros (recvtime t) - tv_micros tm \<and>
    d = \<lparr>pd_ttl = unat tv, pd_rtt = of_int (tv_sec diff) * 1000 + of_int (tv_usec diff) / 1000,
         pd_datalen = sint ((of_int (recvlen t) :: 32 word) - of_nat (4 * hl)),
         pd_icmpseq = unat s, pd_hostip = inet_ntop a\<rparr> \<and>
    Ping_process t =
      Inr (ping_verdict t,
           t\<lparr>status := TEST_STATUS_PROCESS, recvtime := diff, data_vec := data_vec t @ [d]\<rparr>)"
proof -
  obtain diff where diff: "tv_sub (recvtime t) tm = Inr diff"
    "tv_micros diff = tv_micros (recvtime t) - tv_micros tm"
    using tv_sub_normal [OF nrm] by blast
  define L where "L = (of_int (recvlen t) :: 32 word) - of_nat (4 * hl)"
  show ?thesis
    unfolding Ping_process_def ping_verdict_def Let_def
    using pid addr diff len unfolding L_def [symmetric]
    by (simp add: reply_fields [OF buf] L_def [symmetric] del: of_nat_mult)
qed

lemma icmplen_enough:
  assumes "int (4 * hl) + 16 \<le> n" "n < 2 ^ 31"
  shows "\<not> (of_int n :: 32 word) - of_nat (4 * hl) < 8"
    "\<not> (of_int n :: 32 word) - of_nat (4 * hl) < 16"
  using assms icmplen_ge [of "4 * hl" n 8] icmplen_ge [of "4 * hl" n 16] by simp_all

text \<open>\<open>recvlen = -1\<close>, or shorter than the IP header: the difference wraps around and is large.\<close>

lemma icmplen_wraps:
  assumes "n < int h" "int h \<le> 60" "-1 \<le> n" "k \<le> 16"
  shows "\<not> (of_int n :: 32 word) - of_nat h < of_nat k"
proof -
  have "(n - int h) mod 2 ^ 32 = (n - int h + 2 ^ 32) mod 2 ^ 32" by simp
  also have "\<dots> = n - int h + 2 ^ 32" using assms by (intro mod_pos_pos_trivial) auto
  finally have "unat ((of_int n :: 32 word) - of_nat h) = nat (n - int h + 2 ^ 32)"
    by (simp add: icmplen_unat)
  moreover have "unat (of_nat k :: 32 word) = k" using assms(4) by (simp add: unat_of_nat)
  ultimately show ?thesis using assms by (simp add: word_less_nat_alt)
qed

end
