(* ===== verification/Udp_Test.thy ===== *)
theory Udp_Test
  imports Test_Base
begin

section \<open>\<open>udp_test.cpp\<close>: the UDP port test\<close>

text \<open>
  \<open>UDP_test\<close> sends one datagram per run and reports the port as working when its timeout passes
  (or data arrives) and as closed when the worker's raw socket sees an ICMP port-unreachable
  message for it. The worker finds the pending event of a target by a printed key
  \<open>address:port\<close>; \<open>get_readable_addr\<close> (\<open>worker.cpp\<close>) computes it for a socket address and is
  modelled here, where its users are.
\<close>

subsection \<open>Socket addresses and their keys\<close>

definition htons :: "16 word \<Rightarrow> 16 word" where
  "htons x = of_nat (le_nat (rev (le_bytes 2 (unat x))))"

definition ntohs :: "16 word \<Rightarrow> 16 word" where
  "ntohs = htons"

record sockaddr_in =
  sin_addr :: in_addr
  sin_port :: "16 word"      \<comment> \<open>in network order\<close>

text \<open>\<open>sprintf(key_c, "%s:%d", addr, port)\<close> into 23 bytes.\<close>

definition addr_key :: "in_addr \<Rightarrow> nat \<Rightarrow> string" where
  "addr_key a p = inet_ntop a @ '':'' @ show_nat p"

definition get_readable_addr :: "sockaddr_in \<Rightarrow> string res" where
  "get_readable_addr a = sprintf_buf 23 (addr_key (sin_addr a) (unat (ntohs (sin_port a))))"

lemma ntohs_htons: "ntohs (htons x) = x"
proof -
  obtain a b where ab: "le_bytes 2 (unat x) = [a, b]"
    by (simp add: numeral_2_eq_2)
  have "le_nat (le_bytes 2 (unat x)) = unat x"
    using unsigned_less [of x, where ?'a = nat] by (simp add: le_nat_le_bytes)
  then have x: "of_nat (le_nat [a, b]) = x" using ab by (simp del: le_nat.simps)
  have bd: "le_nat [b, a] < 65536" using le_nat_less [of "[b, a]"] by simp
  have "unat (of_nat (le_nat [b, a]) :: 16 word) = le_nat [b, a]"
    using bd by (simp only: unat_of_nat) simp
  moreover have "length [b, a] = 2" by simp
  ultimately have "le_bytes 2 (unat (of_nat (le_nat [b, a]) :: 16 word)) = [b, a]"
    by (metis le_bytes_le_nat)
  then show ?thesis
    using x ab by (simp add: ntohs_def htons_def del: le_nat.simps)
qed

lemma get_readable_addr_total:
  "get_readable_addr a = Inr (addr_key (sin_addr a) (unat (ntohs (sin_port a))))"
proof -
  have "unat (ntohs (sin_port a)) < 10 ^ 5"
    using unsigned_less [of "ntohs (sin_port a)", where ?'a = nat] by simp
  then have "length (show_nat (unat (ntohs (sin_port a)))) \<le> 5"
    by (rule length_show_nat) simp
  then show ?thesis
    using length_inet_ntop [of "sin_addr a"]
    by (simp add: get_readable_addr_def sprintf_buf_def addr_key_def)
qed

subsection \<open>State\<close>

record udp_test = test_base +
  u_sockfd :: int
  u_success :: bool
  u_host :: string
  u_port :: int
  u_servaddr :: sockaddr_in
  u_status :: int
  u_starttime :: int
  u_donetime :: int
  u_pid :: int
  u_timeout :: int

text \<open>The constructor, over the memory the object is built in; strings start empty.\<close>

definition UDP_test_new :: "int \<Rightarrow> udp_test \<Rightarrow> udp_test" where
  "UDP_test_new getpid junk = junk\<lparr>t_name := [], u_host := [], u_pid := getpid\<rparr>"

definition UDP_config :: "config \<Rightarrow> udp_test \<Rightarrow> udp_test" where
  "UDP_config conf t = t\<lparr>
     t_id := get_id conf,
     u_host := get_host conf,
     u_port := get_port conf,
     u_timeout := (if get_timeout conf \<le> 0 then -1 else get_timeout conf),
     t_frenc := (if get_frenc conf \<le> 0 then -1 else get_frenc conf),
     t_name := get_type conf\<rparr>"

subsection \<open>\<open>init\<close>, \<open>probe\<close>, \<open>finish\<close>\<close>

text \<open>
  \<open>inet_pton\<close> of a text that is no address leaves the zeroed structure; its result is not
  looked at. \<open>htons\<close> takes the low 16 bits of the port.
\<close>

definition UDP_init :: "env \<Rightarrow> udp_test \<Rightarrow> int \<times> udp_test" where
  "UDP_init e t =
     (let t1 = t\<lparr>u_sockfd := e_sock e\<rparr> in
      if e_sock e < 0 then (TEST_STATUS_FAIL, t1)
      else
        (TEST_STATUS_INIT,
         t1\<lparr>u_servaddr := \<lparr>sin_addr = (case e_addr e of Some a \<Rightarrow> a | None \<Rightarrow> (0, 0, 0, 0)),
                            sin_port = htons (of_int (u_port t))\<rparr>,
            u_status := TEST_STATUS_INIT, u_success := False\<rparr>))"

text \<open>The datagram is the one NUL byte of the empty string; a failed \<open>sendto\<close> is only printed.\<close>

definition UDP_probe :: "env \<Rightarrow> udp_test \<Rightarrow> int \<times> udp_test \<times> effect list" where
  "UDP_probe e t =
     (TEST_STATUS_PROBE, t\<lparr>u_starttime := e_time e, u_status := TEST_STATUS_PROBE\<rparr>,
      if e_send_ok e then [SendTo (u_sockfd t) [0]] else [])"

definition UDP_receive :: "udp_test \<Rightarrow> int \<times> udp_test" where
  "UDP_receive t = (TEST_STATUS_RECV, t\<lparr>u_status := TEST_STATUS_RECV\<rparr>)"

definition UDP_process :: "udp_test \<Rightarrow> (int \<times> udp_test) res" where
  "UDP_process t = Inl MissingReturn"

definition udp_metric :: "int \<Rightarrow> udp_test \<Rightarrow> metric" where
  "udp_metric verdict t =
     [(''host'', JStr (u_host t)), (''port'', JInt (u_port t)), (''status'', JInt verdict)]"

definition udp_logbuf_size :: nat where "udp_logbuf_size = 256"

text \<open>\<open>finish()\<close>: the port is reported as working.\<close>

definition UDP_finish :: "'j jsonlib \<Rightarrow> env \<Rightarrow> udp_test \<Rightarrow> (int \<times> udp_test \<times> effect list) res" where
  "UDP_finish J e t =
     rbind (sprintf_buf udp_logbuf_size
        (''udp service '' @ cstr (u_host t) @ '':'' @ show_int (u_port t) @ '' is ok''))
       (\<lambda>logbuf.
     Inr (TEST_STATUS_DONE, t\<lparr>u_donetime := e_time e, u_status := TEST_STATUS_DONE\<rparr>,
          [CloseFd (u_sockfd t), LogInfo logbuf, SendResult (j_write J (udp_metric 1 t))]))"

text \<open>\<open>finish(addr_str)\<close>: the port is reported as unreachable.\<close>

definition UDP_finish_unreach ::
  "'j jsonlib \<Rightarrow> string \<Rightarrow> env \<Rightarrow> udp_test \<Rightarrow> (int \<times> udp_test \<times> effect list) res" where
  "UDP_finish_unreach J addr_str e t =
     rbind (sprintf_buf udp_logbuf_size (''udp service '' @ cstr addr_str @ '' is unreachable''))
       (\<lambda>logbuf.
     Inr (TEST_STATUS_DONE, t\<lparr>u_donetime := e_time e, u_status := TEST_STATUS_DONE\<rparr>,
          [CloseFd (u_sockfd t), LogInfo logbuf, SendResult (j_write J (udp_metric 0 t))]))"

subsection \<open>\<open>run\<close> and the timeout callback\<close>

definition UDP_get_mark :: "test_event \<Rightarrow> bool" where
  [simp]: "UDP_get_mark ev = ev_mark ev"

definition UDP_set_mark :: "bool \<Rightarrow> test_event \<Rightarrow> test_event" where
  [simp]: "UDP_set_mark m ev = ev\<lparr>ev_mark := m\<rparr>"

definition udp_event :: "udp_test \<Rightarrow> test_event" where
  "udp_event t = UDP_set_mark False
     \<lparr>ev_cb = UdpTimeoutCb, ev_fd = u_sockfd t, ev_persist = False, ev_read = True,
      ev_timeout = Some (ms_timeval (u_timeout t)), ev_mark = True\<rparr>"

text \<open>The new event with the key the worker files it under, and the removal of the key.\<close>

definition register_event :: "udp_test \<Rightarrow> test_event \<Rightarrow> effect res" where
  [simp]: "register_event t ev =
     rbind (get_readable_addr (u_servaddr t)) (\<lambda>key. Inr (NewEvent ev (Some key)))"

definition unregister_event :: "udp_test \<Rightarrow> effect res" where
  [simp]: "unregister_event t =
     rbind (get_readable_addr (u_servaddr t)) (\<lambda>key. Inr (Unregister key))"

definition UDP_run :: "'j jsonlib \<Rightarrow> env \<Rightarrow> udp_test \<Rightarrow> (int \<times> udp_test \<times> effect list) res" where
  "UDP_run J e t =
     (let (result, t1) = UDP_init e (t\<lparr>u_starttime := e_time e\<rparr>) in
      rbind (if result = TEST_STATUS_FAIL then UDP_finish J e t1 else Inr (result, t1, []))
        (\<lambda>(_, t2, es1).
      rbind (if u_timeout t2 > 0
             then rbind (register_event t2 (udp_event t2)) (\<lambda>ef. Inr [ef])
             else Inr [])
        (\<lambda>es2.
      let (_, t3, es3) = UDP_probe e t2 in
      Inr (TEST_STATUS_OK, t3, es1 @ es2 @ es3))))"

text \<open>The same callback for a timeout and for data: it unregisters the target and finishes.\<close>

definition udp_timeout_callback_fn ::
  "'j jsonlib \<Rightarrow> env \<Rightarrow> udp_test \<Rightarrow> (udp_test \<times> effect list) res" where
  "udp_timeout_callback_fn J e t =
     rbind (unregister_event t) (\<lambda>ef.
     rbind (UDP_finish J e t) (\<lambda>(_, t', es).
     Inr (t', [ef] @ es @ [FreeOwnEvent])))"

subsection \<open>Facts about the methods\<close>

definition u_key :: "udp_test \<Rightarrow> string" where
  "u_key t = addr_key (sin_addr (u_servaddr t)) (unat (ntohs (sin_port (u_servaddr t))))"

lemma readable_u_key [simp]: "get_readable_addr (u_servaddr t) = Inr (u_key t)"
  by (simp add: get_readable_addr_total u_key_def)

lemma UDP_finish_eq:
  "UDP_finish J e t = Inr (r, t', es) \<longleftrightarrow>
     r = TEST_STATUS_DONE \<and> t' = t\<lparr>u_donetime := e_time e, u_status := TEST_STATUS_DONE\<rparr> \<and>
     length (''udp service '' @ cstr (u_host t) @ '':'' @ show_int (u_port t) @ '' is ok'')
       < udp_logbuf_size \<and>
     es = [CloseFd (u_sockfd t),
           LogInfo (''udp service '' @ cstr (u_host t) @ '':'' @ show_int (u_port t) @ '' is ok''),
           SendResult (j_write J (udp_metric 1 t))]"
  by (auto simp: UDP_finish_def)

lemma UDP_finish_unreach_eq:
  "UDP_finish_unreach J a e t = Inr (r, t', es) \<longleftrightarrow>
     r = TEST_STATUS_DONE \<and> t' = t\<lparr>u_donetime := e_time e, u_status := TEST_STATUS_DONE\<rparr> \<and>
     length (''udp service '' @ cstr a @ '' is unreachable'') < udp_logbuf_size \<and>
     es = [CloseFd (u_sockfd t), LogInfo (''udp service '' @ cstr a @ '' is unreachable''),
           SendResult (j_write J (udp_metric 0 t))]"
  by (auto simp: UDP_finish_unreach_def)

interpretation udp: result_reporter "UDP_finish J" u_sockfd u_status
    "\<lambda>e t. j_write J (udp_metric 1 t)" for J
  by unfold_locales (auto simp: UDP_finish_eq)

interpretation udp_unreach: result_reporter "UDP_finish_unreach J a" u_sockfd u_status
    "\<lambda>e t. j_write J (udp_metric 0 t)" for J a
  by unfold_locales (auto simp: UDP_finish_unreach_eq)

text \<open>The log line of a host name and a port: 256 bytes are enough for names up to 200 bytes.\<close>

definition host_fits :: "udp_test \<Rightarrow> bool" where
  "host_fits t \<longleftrightarrow> length (cstr (u_host t)) \<le> 200 \<and> int_range (u_port t)"

lemma length_show_int: "int_range x \<Longrightarrow> length (show_int x) \<le> 11"
proof -
  assume "int_range x"
  then have "length (show_nat (nat x)) \<le> 10" "length (show_nat (nat (- x))) \<le> 10"
    by (intro length_show_nat; auto simp: int_range_def)+
  then show ?thesis by (auto simp: show_int_def)
qed

lemma UDP_finish_total:
  assumes "host_fits t"
  shows "\<exists>es. UDP_finish J e t =
    Inr (TEST_STATUS_DONE, t\<lparr>u_donetime := e_time e, u_status := TEST_STATUS_DONE\<rparr>, es)"
  using assms length_show_int [of "u_port t"]
  by (simp add: UDP_finish_def sprintf_buf_def host_fits_def udp_logbuf_size_def)

lemma UDP_finish_unreach_total:
  assumes "length a \<le> 200"
  shows "\<exists>es. UDP_finish_unreach J a e t =
    Inr (TEST_STATUS_DONE, t\<lparr>u_donetime := e_time e, u_status := TEST_STATUS_DONE\<rparr>, es)"
proof -
  have "length (cstr a) \<le> length a" by (simp add: cstr_def length_takeWhile_le)
  then show ?thesis
    using assms by (simp add: UDP_finish_unreach_def sprintf_buf_def udp_logbuf_size_def)
qed

text \<open>A run that opened its socket: the object, the effects.\<close>

definition udp_inited :: "env \<Rightarrow> udp_test \<Rightarrow> udp_test" where
  "udp_inited e t = snd (UDP_init e (t\<lparr>u_starttime := e_time e\<rparr>))"

lemma UDP_run_ok:
  assumes "0 \<le> e_sock e"
  shows "UDP_run J e t = Inr (TEST_STATUS_OK,
    (udp_inited e t)\<lparr>u_starttime := e_time e, u_status := TEST_STATUS_PROBE\<rparr>,
    (if u_timeout t > 0 then [NewEvent (udp_event (udp_inited e t)) (Some (u_key (udp_inited e t)))]
     else []) @ (if e_send_ok e then [SendTo (e_sock e) [0]] else []))"
  using assms
  by (simp add: UDP_run_def UDP_init_def UDP_probe_def udp_inited_def Let_def
      get_readable_addr_total u_key_def)

lemma udp_inited_fields:
  assumes "0 \<le> e_sock e"
  shows "u_sockfd (udp_inited e t) = e_sock e" "u_host (udp_inited e t) = u_host t"
    "u_port (udp_inited e t) = u_port t" "u_timeout (udp_inited e t) = u_timeout t"
    "t_id (udp_inited e t) = t_id t"
    "e_addr e = Some a \<Longrightarrow> u_key (udp_inited e t) = addr_key a (nat (u_port t mod 65536))"
  using assms
  by (auto simp: udp_inited_def UDP_init_def Let_def u_key_def ntohs_htons unat_eq_nat_uint
      uint_word_of_int take_bit_eq_mod)

subsection \<open>Properties\<close>

text \<open>C29. One run of a UDP test with a timeout: the event registered under the key of the target
  is the one the timeout unregisters, the socket of the run is closed, and exactly one result is
  sent, with status 1.\<close>

theorem udp_run_then_timeout:
  assumes "0 \<le> e_sock e" "0 < u_timeout t" "host_fits t" "e_addr e = Some a"
  shows "\<exists>t1 es1 t2 es2 ev.
    UDP_run J e t = Inr (TEST_STATUS_OK, t1, es1) \<and>
    udp_timeout_callback_fn J e' t1 = Inr (t2, es2) \<and>
    NewEvent ev (Some (addr_key a (nat (u_port t mod 65536)))) \<in> set es1 \<and>
    Unregister (addr_key a (nat (u_port t mod 65536))) \<in> set es2 \<and>
    ev_fd ev = e_sock e \<and> CloseFd (e_sock e) \<in> set es2 \<and> u_status t2 = TEST_STATUS_DONE \<and>
    results_of (es1 @ es2) = [j_write J (udp_metric 1 t)]"
proof -
  define t1 where "t1 = (udp_inited e t)\<lparr>u_starttime := e_time e, u_status := TEST_STATUS_PROBE\<rparr>"
  note f = udp_inited_fields [OF assms(1), where t = t]
  obtain es where fin: "UDP_finish J e' t1 =
      Inr (TEST_STATUS_DONE, t1\<lparr>u_donetime := e_time e', u_status := TEST_STATUS_DONE\<rparr>, es)"
    using UDP_finish_total [of t1 J e'] assms(3) f(2,3) by (auto simp: t1_def host_fits_def)
  have k: "u_key t1 = addr_key a (nat (u_port t mod 65536))"
    using f(6) [OF assms(4)] by (simp add: t1_def u_key_def)
  have t1: "u_sockfd t1 = e_sock e" "udp_metric 1 t1 = udp_metric 1 t"
    using f by (simp_all add: t1_def udp_metric_def)
  have "udp_timeout_callback_fn J e' t1 =
      Inr (t1\<lparr>u_donetime := e_time e', u_status := TEST_STATUS_DONE\<rparr>,
        [Unregister (u_key t1)] @ es @ [FreeOwnEvent])"
    by (simp add: udp_timeout_callback_fn_def fin)
  moreover have "results_of es = [j_write J (udp_metric 1 t)]" "CloseFd (e_sock e) \<in> set es"
    using udp.finish_reports [OF fin] udp.finish_closes [OF fin] t1 by simp_all
  moreover have "UDP_run J e t = Inr (TEST_STATUS_OK, t1,
      [NewEvent (udp_event (udp_inited e t)) (Some (addr_key a (nat (u_port t mod 65536))))] @
      (if e_send_ok e then [SendTo (e_sock e) [0]] else []))"
    using UDP_run_ok [OF assms(1), of J t] assms(2) f(6) [OF assms(4)] by (simp add: t1_def)
  ultimately show ?thesis
    using k f(1) by (simp add: udp_event_def)
qed

text \<open>Without a timeout a UDP run leaves nothing behind that could end it: no event, no result,
  and the socket it opened is never closed.\<close>

theorem udp_no_timeout_leaks:
  assumes "u_timeout t \<le> 0" "0 \<le> e_sock e"
  shows "\<exists>t' es. UDP_run J e t = Inr (TEST_STATUS_OK, t', es) \<and> u_sockfd t' = e_sock e \<and>
    \<not> list_ex is_new_event es \<and> results_of es = [] \<and> (\<forall>fd. CloseFd fd \<notin> set es)"
  using UDP_run_ok [OF assms(2), of J t] udp_inited_fields(1) [OF assms(2), where t = t] assms(1)
  by auto

text \<open>A UDP test that cannot even open a socket reports the port as working.\<close>

theorem udp_socket_failure_reports_ok:
  assumes "e_sock e < 0" "host_fits t"
  shows "\<exists>t' es. UDP_run J e t = Inr (TEST_STATUS_OK, t', es) \<and>
    results_of es = [j_write J (udp_metric 1 t)]"
proof -
  define t1 where "t1 = t\<lparr>u_starttime := e_time e, u_sockfd := e_sock e\<rparr>"
  have i: "UDP_init e (t\<lparr>u_starttime := e_time e\<rparr>) = (TEST_STATUS_FAIL, t1)"
    using assms(1) by (simp add: UDP_init_def Let_def t1_def)
  obtain t2 es where fin: "UDP_finish J e t1 = Inr (TEST_STATUS_DONE, t2, es)"
    using UDP_finish_total [of t1 J e] assms(2) by (auto simp: t1_def host_fits_def)
  then have "results_of es = [j_write J (udp_metric 1 t)]"
    using udp.finish_reports [OF fin] by (simp add: t1_def udp_metric_def)
  then show ?thesis
    using i fin by (auto simp: UDP_run_def UDP_probe_def)
qed

subsection \<open>Witnesses\<close>

definition demo_udp :: udp_test where
  "demo_udp = \<lparr>t_id = 5, t_frenc = 60, t_name = ''UDP'', u_sockfd = 0, u_success = False,
     u_host = ''10.0.0.1'', u_port = 9002,
     u_servaddr = \<lparr>sin_addr = (0, 0, 0, 0), sin_port = 0\<rparr>, u_status = 0, u_starttime = 0,
     u_donetime = 0, u_pid = 42, u_timeout = 1500\<rparr>"

definition demo_udp_env :: env where
  "demo_udp_env = \<lparr>e_time = 100, e_tod = \<lparr>tv_sec = 100, tv_usec = 5000\<rparr>, e_pid = 42, e_sock = 9,
     e_addr = Some (10, 0, 0, 1), e_send_ok = True, e_recv = None, e_accum = None,
     e_logs = ([], [])\<rparr>"

lemma demo_udp_fits: "host_fits demo_udp"
  by (simp add: host_fits_def demo_udp_def int_range_def cstr_def)

theorem udp_run_then_timeout_witness:
  "\<exists>t1 es1. UDP_run (table_json []) demo_udp_env demo_udp = Inr (TEST_STATUS_OK, t1, es1) \<and>
    (\<exists>t2 es2. udp_timeout_callback_fn (table_json []) demo_udp_env t1 = Inr (t2, es2) \<and>
      u_status t2 = TEST_STATUS_DONE)"
  using udp_run_then_timeout [of demo_udp_env demo_udp "(10, 0, 0, 1)" "table_json []" demo_udp_env]
    demo_udp_fits by (auto simp: demo_udp_env_def demo_udp_def)

theorem udp_no_timeout_leaks_witness:
  "\<exists>t' es. UDP_run (table_json []) demo_udp_env (demo_udp\<lparr>u_timeout := -1\<rparr>) =
      Inr (TEST_STATUS_OK, t', es) \<and> CloseFd 9 \<notin> set es"
  using udp_no_timeout_leaks [of "demo_udp\<lparr>u_timeout := -1\<rparr>" demo_udp_env "table_json []"]
  by (auto simp: demo_udp_env_def)

theorem udp_socket_failure_reports_ok_witness:
  "\<exists>t' es. UDP_run (table_json []) (demo_udp_env\<lparr>e_sock := -1\<rparr>) demo_udp =
      Inr (TEST_STATUS_OK, t', es) \<and> length (results_of es) = 1"
  using udp_socket_failure_reports_ok [OF _ demo_udp_fits, of "demo_udp_env\<lparr>e_sock := -1\<rparr>" "table_json []"]
  by auto

end
