(* ===== verification/Worker.thy ===== *)
theory Worker
  imports Std_Map Logger Channel Ping_Test Udp_Test
begin

section \<open>\<open>worker.cpp\<close>: the worker process\<close>

text \<open>
  A worker owns the running tests. Its state is a record: the two maps of the class, the logger,
  the redis connection, and a heap for the objects \<open>new\<close> creates: tests and \<open>Test_event\<close>s live
  at addresses that are never used twice, \<open>delete\<close> empties the address, and following an empty
  address is the fault \<open>UseAfterFree\<close>. \<open>w_timers\<close> is the event embedded in each test
  (\<open>test_ev\<close>), armed with the test's period. Every libevent callback is a definition;
  \<open>worker_handle\<close> dispatches the inputs of the event loop to them.

  \<open>delete\<close> of a \<open>Test *\<close> without a virtual destructor is undefined by the language; it is
  modelled as what compilers do, freeing the object without running the derived destructor.
\<close>

subsection \<open>State\<close>

datatype test_obj = PingT ping_test | UdpT udp_test

fun obj_id :: "test_obj \<Rightarrow> int" where
  "obj_id (PingT t) = Test_get_id t"
| "obj_id (UdpT t) = Test_get_id t"

fun obj_frenc :: "test_obj \<Rightarrow> int" where
  "obj_frenc (PingT t) = Test_get_frenc t"
| "obj_frenc (UdpT t) = Test_get_frenc t"

record 'c worker =
  w_test_map :: "(int, nat) smap"                      \<comment> \<open>id to test\<close>
  w_icmp_map :: "(string, nat) smap"                   \<comment> \<open>target to \<open>Test_event\<close>\<close>
  w_tests :: "nat \<Rightarrow> test_obj option"
  w_events :: "nat \<Rightarrow> (test_event \<times> nat) option"      \<comment> \<open>pending events and their test\<close>
  w_timers :: "nat \<Rightarrow> int option"                      \<comment> \<open>armed \<open>test_ev\<close>: period in seconds\<close>
  w_next :: nat
  w_logger :: logger
  w_redisport :: int
  w_redis :: "'c option"                               \<comment> \<open>\<open>redisc\<close>: indeterminate at first\<close>
  w_attached :: "'c list"                              \<comment> \<open>connections the event loop serves\<close>
  w_freed :: "'c list"                                 \<comment> \<open>connections hiredis has freed\<close>
  w_connects :: nat                                    \<comment> \<open>calls of \<open>redisAsyncConnect\<close>\<close>
  w_stdout :: "string list"                            \<comment> \<open>printed by the connection callbacks\<close>
  w_inbuf :: string                                    \<comment> \<open>input buffer of the channel\<close>
  w_out :: "channel_data list"                         \<comment> \<open>written to the channel\<close>
  w_cmds :: "('c \<times> string list) list"                 \<comment> \<open>redis commands issued\<close>
  w_log :: "log_effect list"
  w_calls :: "effect list"                             \<comment> \<open>sockets closed, packets sent\<close>

text \<open>
  What the surroundings answer: the time for log lines, the process id, the memory objects are
  built in, the connection the \<open>k\<close>th call of \<open>redisAsyncConnect\<close> returns for a port (\<open>None\<close> is a null
  pointer), and whether its \<open>err\<close> is set.
\<close>

record 'c worker_env =
  we_timebuf :: string
  we_pid :: int
  we_config :: config
  we_ping :: ping_test
  we_udp :: udp_test
  we_redis :: "nat \<Rightarrow> int \<Rightarrow> 'c option"
  we_redis_err :: "'c \<Rightarrow> bool"

text \<open>The constructor, over the memory of the object; \<open>set_logger\<close> follows it.\<close>

definition Worker_set_logger :: "logger \<Rightarrow> 'c worker \<Rightarrow> 'c worker" where
  [simp]: "Worker_set_logger lg w = w\<lparr>w_logger := lg\<rparr>"

definition Worker_get_logger :: "'c worker \<Rightarrow> logger" where
  [simp]: "Worker_get_logger w = w_logger w"

definition Worker_get_redis :: "'c worker \<Rightarrow> 'c option" where
  [simp]: "Worker_get_redis w = w_redis w"

definition Worker_new :: "logger \<Rightarrow> 'c worker \<Rightarrow> 'c worker" where
  "Worker_new lg junk = Worker_set_logger lg (junk\<lparr>w_test_map := [], w_icmp_map := [], w_tests := Map.empty,
     w_events := Map.empty, w_timers := Map.empty, w_next := 0, w_inbuf := [],
     w_redis := None, w_attached := [], w_freed := [], w_connects := 0, w_stdout := [], w_out := [], w_cmds := [], w_log := [], w_calls := []\<rparr>)"

definition worker_info :: "string \<Rightarrow> string \<Rightarrow> 'c worker \<Rightarrow> 'c worker" where
  "worker_info tb content w = w\<lparr>w_log := w_log w @ log_info tb content (w_logger w)\<rparr>"

subsection \<open>The table of unreachable targets\<close>

definition get_icmp_unreach_test_event :: "string \<Rightarrow> 'c worker \<Rightarrow> nat option" where
  "get_icmp_unreach_test_event addr_str w = smap_find (w_icmp_map w) addr_str"

definition get_icmp_unreach_test_event_at :: "sockaddr_in \<Rightarrow> 'c worker \<Rightarrow> nat option res" where
  "get_icmp_unreach_test_event_at a w =
     rbind (get_readable_addr a) (\<lambda>key. Inr (get_icmp_unreach_test_event key w))"

definition set_icmp_unreach_test_event :: "string \<Rightarrow> nat \<Rightarrow> 'c worker \<Rightarrow> 'c worker" where
  "set_icmp_unreach_test_event key a w = w\<lparr>w_icmp_map := smap_put key a (w_icmp_map w)\<rparr>"

definition del_icmp_unreach_test_event :: "string \<Rightarrow> 'c worker \<Rightarrow> 'c worker" where
  "del_icmp_unreach_test_event key w = w\<lparr>w_icmp_map := smap_erase key (w_icmp_map w)\<rparr>"

subsection \<open>The calls a test makes\<close>

text \<open>
  \<open>own\<close> is the event whose callback runs, \<open>ta\<close> the test it belongs to. A result goes to redis
  through the connection the worker holds.
\<close>

fun do_call :: "string \<Rightarrow> nat option \<Rightarrow> nat \<Rightarrow> effect \<Rightarrow> 'c worker \<Rightarrow> 'c worker res" where
  "do_call tb own ta (NewEvent ev key) w =
     (let a = w_next w;
          w1 = w\<lparr>w_events := (w_events w)(a \<mapsto> (ev, ta)), w_next := Suc a\<rparr>
      in Inr (case key of None \<Rightarrow> w1 | Some k \<Rightarrow> set_icmp_unreach_test_event k a w1))"
| "do_call tb own ta FreeOwnEvent w =
     Inr (case own of None \<Rightarrow> w | Some ea \<Rightarrow> w\<lparr>w_events := (w_events w)(ea := None)\<rparr>)"
| "do_call tb own ta (Unregister key) w = Inr (del_icmp_unreach_test_event key w)"
| "do_call tb own ta (SendResult s) w =
     rbind (sendresult (Worker_get_redis w) (w_freed w) s) (\<lambda>c. Inr (w\<lparr>w_cmds := w_cmds w @ [c]\<rparr>))"
| "do_call tb own ta (LogInfo s) w = Inr (worker_info tb s w)"
| "do_call tb own ta (CloseFd fd) w = Inr (w\<lparr>w_calls := w_calls w @ [CloseFd fd]\<rparr>)"
| "do_call tb own ta (SendTo fd p) w = Inr (w\<lparr>w_calls := w_calls w @ [SendTo fd p]\<rparr>)"

definition do_calls ::
  "string \<Rightarrow> nat option \<Rightarrow> nat \<Rightarrow> effect list \<Rightarrow> 'c worker \<Rightarrow> 'c worker res" where
  "do_calls tb own ta es w = fold_res (do_call tb own ta) es w"

definition put_test :: "nat \<Rightarrow> test_obj \<Rightarrow> 'c worker \<Rightarrow> 'c worker" where
  "put_test ta t w = w\<lparr>w_tests := (w_tests w)(ta \<mapsto> t)\<rparr>"

subsection \<open>Callbacks of tests\<close>

text \<open>The virtual \<open>run\<close>, and the callback of each kind of \<open>Test_event\<close>.\<close>

fun run_obj :: "'j jsonlib \<Rightarrow> env \<Rightarrow> test_obj \<Rightarrow> (test_obj \<times> effect list) res" where
  "run_obj J e (PingT t) = rbind (Ping_run J e t) (\<lambda>(_, t', es). Inr (PingT t', es))"
| "run_obj J e (UdpT t) = rbind (UDP_run J e t) (\<lambda>(_, t', es). Inr (UdpT t', es))"

text \<open>The callbacks cast the test of their event to the class they belong to; theory
  \<open>Worker_Types\<close> shows that the cast is always to the class of the object.\<close>

fun event_callback ::
  "'j jsonlib \<Rightarrow> env \<Rightarrow> fired \<Rightarrow> callback \<Rightarrow> test_obj \<Rightarrow> (test_obj \<times> effect list) res" where
  "event_callback J e f PingTimeoutCb (PingT t) =
     rbind (ping_timeout_callback_fn J e t) (\<lambda>(t', es). Inr (PingT t', es))"
| "event_callback J e f PingSocketCb (PingT t) =
     rbind (ping_socket_callback_fn J e f t) (\<lambda>(t', es). Inr (PingT t', es))"
| "event_callback J e f UdpTimeoutCb (UdpT t) =
     rbind (udp_timeout_callback_fn J e t) (\<lambda>(t', es). Inr (UdpT t', es))"
| "event_callback J e f _ _ = Inl BadCast"

definition worker_timeout_callback_fn ::
  "'j jsonlib \<Rightarrow> string \<Rightarrow> env \<Rightarrow> nat \<Rightarrow> 'c worker \<Rightarrow> 'c worker res" where
  "worker_timeout_callback_fn J tb e ta w =
     rbind (need UseAfterFree (w_tests w ta)) (\<lambda>t.
     rbind (run_obj J e t) (\<lambda>(t', es). do_calls tb None ta es (put_test ta t' w)))"

definition fire_event ::
  "'j jsonlib \<Rightarrow> string \<Rightarrow> env \<Rightarrow> fired \<Rightarrow> nat \<Rightarrow> 'c worker \<Rightarrow> 'c worker res" where
  "fire_event J tb e f ea w =
     rbind (need UseAfterFree (w_events w ea)) (\<lambda>(ev, ta).
     rbind (need UseAfterFree (w_tests w ta)) (\<lambda>t.
     rbind (event_callback J e f (ev_cb ev) t) (\<lambda>(t', es).
       do_calls tb (Some ea) ta es (put_test ta t' w))))"

subsection \<open>\<open>worker_icmp_cb\<close>\<close>

definition BUFSIZE :: nat where "BUFSIZE = 1500"

definition ip_dst :: "nat \<Rightarrow> 8 word list \<Rightarrow> in_addr res" where
  "ip_dst off buf =
     rbind (bytes_at (off + 16) 4 buf) (\<lambda>bs. Inr (bs ! 0, bs ! 1, bs ! 2, bs ! 3))"

definition udp_dest :: "nat \<Rightarrow> 8 word list \<Rightarrow> 16 word res" where
  "udp_dest off buf = rbind (bytes_at (off + 2) 2 buf) (\<lambda>bs. Inr (of_nat (le_nat bs)))"

text \<open>
  The virtual \<open>finish(addr)\<close>. Only UDP tests override it; the base class's body is empty,
  though it has to return a value.
\<close>

fun finish_addr :: "'j jsonlib \<Rightarrow> string \<Rightarrow> env \<Rightarrow> test_obj \<Rightarrow> (test_obj \<times> effect list) res" where
  "finish_addr J a e (UdpT t) = rbind (UDP_finish_unreach J a e t) (\<lambda>(_, t', es). Inr (UdpT t', es))"
| "finish_addr J a e (PingT t) = Inl MissingReturn"

text \<open>The event found for the target finishes its test and is deleted; its key stays behind.\<close>

definition unreach_target ::
  "'j jsonlib \<Rightarrow> string \<Rightarrow> env \<Rightarrow> string \<Rightarrow> 'c worker \<Rightarrow> 'c worker res" where
  "unreach_target J tb e addr_str w =
     (case get_icmp_unreach_test_event addr_str w of None \<Rightarrow> Inr w
      | Some ea \<Rightarrow>
          rbind (need UseAfterFree (w_events w ea)) (\<lambda>(ev, ta).
          rbind (need UseAfterFree (w_tests w ta)) (\<lambda>t.
          rbind (finish_addr J addr_str e t) (\<lambda>(t', es).
            do_calls tb (Some ea) ta (es @ [FreeOwnEvent]) (put_test ta t' w)))))"

definition worker_icmp_cb :: "'j jsonlib \<Rightarrow> string \<Rightarrow> env \<Rightarrow> 'c worker \<Rightarrow> 'c worker res" where
  "worker_icmp_cb J tb e w =
     (let (num, buf) = recv_into (e_recv e) (replicate BUFSIZE 0) in
      rbind (ip_hlen 0 buf) (\<lambda>hlen1.
      let icmplen = num - int hlen1 in
      if icmplen < 8 then Inr w
      else rbind (icmp_type hlen1 buf) (\<lambda>ty.
      if ty \<noteq> ICMP_UNREACH then Inr w
      else if icmplen < 8 + 20 then Inr w
      else rbind (ip_hlen (hlen1 + 8) buf) (\<lambda>hlen2.
      if icmplen < 8 + int hlen2 + 4 then Inr w
      else rbind (ip_p (hlen1 + 8) buf) (\<lambda>p.
      if p \<noteq> IPPROTO_UDP then Inr w
      else rbind (icmp_code hlen1 buf) (\<lambda>code.
      if code \<noteq> ICMP_UNREACH_PORT then Inr w
      else rbind (ip_dst (hlen1 + 8) buf) (\<lambda>dst.
      rbind (udp_dest (hlen1 + 8 + hlen2) buf) (\<lambda>dport.
      rbind (sprintf_buf 6 (show_nat (unat (ntohs dport)))) (\<lambda>port_buff.
      unreach_target J tb e (inet_ntop dst @ '':'' @ port_buff) w)))))))))"

subsection \<open>Building, adding and deleting tests\<close>

text \<open>\<open>if (root.isMember(k)) config.set(root[k].as...())\<close>\<close>

definition cfg_int ::
  "'j jsonlib \<Rightarrow> 'j \<Rightarrow> string \<Rightarrow> (int \<Rightarrow> config \<Rightarrow> config) \<Rightarrow> config \<Rightarrow> config res" where
  "cfg_int J r k upd c =
     rbind (isMember J r k) (\<lambda>b. if b then rbind (asInt J r k) (\<lambda>v. Inr (upd v c)) else Inr c)"

definition cfg_str ::
  "'j jsonlib \<Rightarrow> 'j \<Rightarrow> string \<Rightarrow> (string \<Rightarrow> config \<Rightarrow> config) \<Rightarrow> config \<Rightarrow> config res" where
  "cfg_str J r k upd c =
     rbind (isMember J r k) (\<lambda>b. if b then rbind (asString J r k) (\<lambda>v. Inr (upd v c)) else Inr c)"

definition ping_conf :: "'j jsonlib \<Rightarrow> config \<Rightarrow> 'j \<Rightarrow> config res" where
  "ping_conf J junk r =
     rbind (asInt J r ''id'') (\<lambda>i.
     rbind (cfg_str J r ''host'' set_host (set_id i (Config_new junk))) (\<lambda>c.
     rbind (cfg_int J r ''times'' set_times c) (\<lambda>c.
     rbind (cfg_int J r ''ttl'' set_ttl c) (\<lambda>c.
     rbind (cfg_int J r ''frenc'' set_frenc c) (\<lambda>c.
     cfg_int J r ''interval'' set_interval c)))))"

definition udp_conf :: "'j jsonlib \<Rightarrow> config \<Rightarrow> 'j \<Rightarrow> config res" where
  "udp_conf J junk r =
     rbind (asInt J r ''id'') (\<lambda>i.
     rbind (asString J r ''type'') (\<lambda>ty.
     rbind (cfg_str J r ''host'' set_host (set_type ty (set_id i (Config_new junk)))) (\<lambda>c.
     rbind (cfg_int J r ''port'' set_port c) (\<lambda>c.
     rbind (cfg_int J r ''frenc'' set_frenc c) (\<lambda>c.
     cfg_int J r ''timeout'' set_timeout c)))))"

definition new_test :: "test_obj \<Rightarrow> 'c worker \<Rightarrow> nat option \<times> 'c worker" where
  "new_test t w =
     (Some (w_next w), w\<lparr>w_tests := (w_tests w)(w_next w \<mapsto> t), w_next := Suc (w_next w)\<rparr>)"

text \<open>\<open>None\<close> is the null pointer.\<close>

definition generate_test ::
  "'j jsonlib \<Rightarrow> 'c worker_env \<Rightarrow> 'j \<Rightarrow> 'c worker \<Rightarrow> (nat option \<times> 'c worker) res" where
  "generate_test J en r w =
     rbind (has_both J r ''type'' ''id'') (\<lambda>ok.
     if \<not> ok then Inr (None, w)
     else rbind (asString J r ''type'') (\<lambda>ty.
       let w1 = worker_info (we_timebuf en) (''genreate type '' @ ty @ '' test'') w in
       if ty = ''PING'' then
         rbind (ping_conf J (we_config en) r) (\<lambda>c.
         Inr (new_test (PingT (Ping_config c (Ping_test_new (we_pid en) (we_ping en)))) w1))
       else if ty = ''UDP'' then
         rbind (udp_conf J (we_config en) r) (\<lambda>c.
         Inr (new_test (UdpT (UDP_config c (UDP_test_new (we_pid en) (we_udp en)))) w1))
       else Inr (None, w1)))"

definition add_test :: "nat option \<Rightarrow> 'c worker \<Rightarrow> 'c worker res" where
  "add_test p_test w =
     rbind (need NullDeref p_test) (\<lambda>a.
     rbind (need UseAfterFree (w_tests w a)) (\<lambda>t.
     Inr (w\<lparr>w_timers := (w_timers w)(a \<mapsto> obj_frenc t),
            w_test_map := smap_put (obj_id t) a (w_test_map w)\<rparr>)))"

definition delete_test :: "'j jsonlib \<Rightarrow> 'j \<Rightarrow> 'c worker \<Rightarrow> (int \<times> 'c worker) res" where
  "delete_test J r w =
     rbind (isMember J r ''id'') (\<lambda>b.
     if \<not> b then Inr (-1, w)
     else rbind (asInt J r ''id'') (\<lambda>i.
       case smap_find (w_test_map w) i of
         None \<Rightarrow> Inr (-1, w)
       | Some a \<Rightarrow>
           rbind (need UseAfterFree (w_tests w a)) (\<lambda>_.
           Inr (0, w\<lparr>w_test_map := smap_erase i (w_test_map w),
                     w_timers := (w_timers w)(a := None),
                     w_tests := (w_tests w)(a := None)\<rparr>))))"

text \<open>
  The destructors of the derived tests disarm the test's timer. \<open>delete\<close> does not run them, and
  \<open>delete_test\<close> has already disarmed it: they would change nothing.
\<close>

definition Ping_test_delete :: "nat \<Rightarrow> 'c worker \<Rightarrow> 'c worker" where
  "Ping_test_delete a w = w\<lparr>w_timers := (w_timers w)(a := None)\<rparr>"

definition UDP_test_delete :: "nat \<Rightarrow> 'c worker \<Rightarrow> 'c worker" where
  "UDP_test_delete a w = w\<lparr>w_timers := (w_timers w)(a := None)\<rparr>"

lemma destructor_not_missed:
  assumes "delete_test J r w = Inr (0, w')" "asInt J r ''id'' = Inr i" "smap_find (w_test_map w) i = Some a"
  shows "Ping_test_delete a w' = w'" "UDP_test_delete a w' = w'"
  using assms by (auto simp: delete_test_def Ping_test_delete_def UDP_test_delete_def split: if_splits)

subsection \<open>The channel\<close>

text \<open>A new connection is at an address that is not freed any more.\<close>

definition openredis :: "'c worker_env \<Rightarrow> 'c worker \<Rightarrow> 'c worker res" where
  "openredis en w =
     rbind (need NullDeref (we_redis en (w_connects w) (w_redisport w))) (\<lambda>c.
       let w1 = w\<lparr>w_redis := Some c, w_connects := Suc (w_connects w), w_freed := removeAll c (w_freed w)\<rparr> in
       if we_redis_err en c then Inr w1 else Inr (w1\<lparr>w_attached := w_attached w1 @ [c]\<rparr>))"

text \<open>
  The callbacks of the connection and the fifo. The callbacks only print; each
  returns its lines; \<open>openfifo\<close>, which no function calls, the descriptor and what it logs as
  well. \<open>made\<close> and \<open>exists\<close> are the outcome of \<open>mkfifo\<close>, \<open>fd\<close> and \<open>err\<close> that of \<open>open\<close>.
\<close>

definition REDIS_OK :: int where "REDIS_OK = 0"

definition redisconnectCallback :: "string \<Rightarrow> int \<Rightarrow> string list" where
  "redisconnectCallback errstr st =
     (if st \<noteq> REDIS_OK then [''11 Error: '' @ cstr errstr @ [LF]] else [''Connected...'' @ [LF]])"

definition redisdisconnectCallback :: "string \<Rightarrow> int \<Rightarrow> string list" where
  "redisdisconnectCallback errstr st =
     (if st \<noteq> REDIS_OK then [''11 Error: '' @ cstr errstr @ [LF]] else [''Disconnected...'' @ [LF]])"

text \<open>
  hiredis runs them for a connection the event loop serves, and frees the connection after a failed
  connect and after any disconnect; nobody tells the worker, whose \<open>redisc\<close> stays.
\<close>

definition redis_gone :: "'c \<Rightarrow> 'c worker \<Rightarrow> 'c worker" where
  "redis_gone c w = w\<lparr>w_attached := removeAll c (w_attached w), w_freed := c # w_freed w\<rparr>"

definition redis_connected :: "'c \<Rightarrow> int \<Rightarrow> string \<Rightarrow> 'c worker \<Rightarrow> 'c worker" where
  "redis_connected c st errstr w =
     (let w1 = w\<lparr>w_stdout := w_stdout w @ redisconnectCallback errstr st\<rparr> in
      if c \<notin> set (w_attached w) then w else if st \<noteq> REDIS_OK then redis_gone c w1 else w1)"

definition redis_disconnected :: "'c \<Rightarrow> int \<Rightarrow> string \<Rightarrow> 'c worker \<Rightarrow> 'c worker" where
  "redis_disconnected c st errstr w =
     (if c \<notin> set (w_attached w) then w
      else redis_gone c (w\<lparr>w_stdout := w_stdout w @ redisdisconnectCallback errstr st\<rparr>))"

record worker_fifo =
  fifopath :: string
  fifofd :: int

definition openfifo ::
  "string \<Rightarrow> bool \<Rightarrow> bool \<Rightarrow> int \<Rightarrow> string \<Rightarrow> logger \<Rightarrow> worker_fifo \<Rightarrow>
   worker_fifo \<times> log_effect list \<times> string list" where
  "openfifo tb made exists fd err l f =
     (f\<lparr>fifofd := fd\<rparr>,
      if \<not> made \<and> \<not> exists then log_error tb ''mkfifo failed'' l else [],
      if fd = -1 then [''open fifo failed '' @ cstr err @ [LF]] else [])"

definition getfifo :: "worker_fifo \<Rightarrow> int" where
  "getfifo f = fifofd f"

text \<open>
  One turn of the loop of \<open>deal_channel_data\<close>; the flag is false where the source returns. The
  test is built and acknowledged before \<open>add_test\<close> is given the pointer, null or not.
\<close>

definition handle_msg ::
  "'j jsonlib \<Rightarrow> 'c worker_env \<Rightarrow> channel_data \<Rightarrow> 'c worker \<Rightarrow> (bool \<times> 'c worker) res" where
  "handle_msg J en d w =
     (if cd_type d = MASTER_MSG_TYPE_ADDCONF then
        let w1 = worker_info (we_timebuf en) ''add new conf'' w in
        rbind (msg_text d) (\<lambda>s.
        case j_parse J s of
          None \<Rightarrow> Inr (False, w1)
        | Some r \<Rightarrow>
            rbind (generate_test J en r w1) (\<lambda>(p, w2).
            rbind (if p = None then Inr w2
                   else rbind (asInt J r ''id'') (\<lambda>i. Inr (w2\<lparr>w_out := w_out w2 @ [ack_msg i d]\<rparr>)))
              (\<lambda>w3.
            rbind (add_test p w3) (\<lambda>w4. Inr (True, w4)))))
      else if cd_type d = MASTER_MSG_TYPE_DELCONF then
        rbind (msg_text d) (\<lambda>s.
        case j_parse J s of
          None \<Rightarrow> Inr (False, w)
        | Some r \<Rightarrow>
            rbind (delete_test J r (worker_info (we_timebuf en) ''delete conf'' w)) (\<lambda>(_, w1).
            Inr (True, w1)))
      else if cd_type d = MASTER_MSG_TYPE_REDISPORT then
        let w1 = worker_info (we_timebuf en) ''FIFO path'' w in
        rbind (msg_text d) (\<lambda>s.
        rbind (atoi s) (\<lambda>n.
        rbind (openredis en (w1\<lparr>w_redisport := n\<rparr>)) (\<lambda>w2. Inr (True, w2))))
      else Inr (True, w))"

text \<open>
  The loop: complete structures are taken off the buffer until one makes it return. The buffer
  belongs to the \<open>bufferevent\<close>, so the handlers see a worker without it.
\<close>

function drain ::
  "'j jsonlib \<Rightarrow> 'c worker_env \<Rightarrow> string \<Rightarrow> 'c worker \<Rightarrow> (string \<times> 'c worker) res" where
  "drain J en buf w =
     (if channel_data_size \<le> length buf
      then rbind (handle_msg J en (cd_of_bytes (take channel_data_size buf)) w) (\<lambda>(go, w').
           if go then drain J en (drop channel_data_size buf) w'
           else Inr (drop channel_data_size buf, w'))
      else Inr (buf, w))"
  by pat_completeness auto
termination
  by (relation "measure (\<lambda>(J, en, buf, w). length buf)") (auto simp: channel_data_size_def)

declare drain.simps [simp del]

definition deal_channel_data :: "'j jsonlib \<Rightarrow> 'c worker_env \<Rightarrow> 'c worker \<Rightarrow> 'c worker res" where
  "deal_channel_data J en w =
     rbind (drain J en (w_inbuf w) (w\<lparr>w_inbuf := []\<rparr>))
       (\<lambda>(rest, w'). Inr (w'\<lparr>w_inbuf := rest\<rparr>))"

definition split_log_fd :: "int \<Rightarrow> 'c worker \<Rightarrow> 'c worker" where
  "split_log_fd newfd w =
     w\<lparr>w_log := w_log w @ snd (close_fd (Worker_get_logger w)),
       w_logger := snd (set_fd newfd (w_logger w))\<rparr>"

definition worker_channel_1_cb ::
  "control \<Rightarrow> recv_out \<Rightarrow> recv_out \<Rightarrow> 'c worker \<Rightarrow> 'c worker" where
  "worker_channel_1_cb junk r1 r2 w = split_log_fd (recv_openfd junk r1 r2) w"

subsection \<open>The event loop\<close>

text \<open>
  The inputs of a worker: the period of a test passes, a pending event fires, the raw socket has
  a packet, bytes arrive on the channel, a descriptor arrives on the second channel, a connection to
  redis is made or fails, or is lost. An input
  for an event that is not pending, or with a reason it was not added for, does nothing.
\<close>

datatype 'c worker_input =
    TestDue nat env
  | EventDue nat fired env
  | IcmpIn env
  | ChannelIn string
  | FdIn recv_out recv_out control
  | RedisConnected 'c int string
  | RedisDisconnected 'c int string

definition can_fire :: "fired \<Rightarrow> test_event \<Rightarrow> bool" where
  "can_fire f ev = (case f of EvRead \<Rightarrow> ev_read ev | EvTimeout \<Rightarrow> ev_timeout ev \<noteq> None)"

fun worker_handle ::
  "'j jsonlib \<Rightarrow> 'c worker_env \<Rightarrow> 'c worker_input \<Rightarrow> 'c worker \<Rightarrow> 'c worker res" where
  "worker_handle J en (TestDue ta e) w =
     (if w_timers w ta = None then Inr w else worker_timeout_callback_fn J (we_timebuf en) e ta w)"
| "worker_handle J en (EventDue ea f e) w =
     (case w_events w ea of None \<Rightarrow> Inr w
      | Some (ev, ta) \<Rightarrow> if can_fire f ev then fire_event J (we_timebuf en) e f ea w else Inr w)"
| "worker_handle J en (IcmpIn e) w = worker_icmp_cb J (we_timebuf en) e w"
| "worker_handle J en (ChannelIn bs) w = deal_channel_data J en (w\<lparr>w_inbuf := w_inbuf w @ bs\<rparr>)"
| "worker_handle J en (FdIn r1 r2 junk) w = Inr (worker_channel_1_cb junk r1 r2 w)"
| "worker_handle J en (RedisConnected c st errstr) w = Inr (redis_connected c st errstr w)"
| "worker_handle J en (RedisDisconnected c st errstr) w = Inr (redis_disconnected c st errstr w)"

text \<open>What the loss of a connection touches.\<close>

lemma redis_callbacks_frame [simp]:
  "w_test_map (redis_connected c st x w) = w_test_map w" "w_test_map (redis_disconnected c st x w) = w_test_map w"
  "w_icmp_map (redis_connected c st x w) = w_icmp_map w" "w_icmp_map (redis_disconnected c st x w) = w_icmp_map w"
  "w_tests (redis_connected c st x w) = w_tests w" "w_tests (redis_disconnected c st x w) = w_tests w"
  "w_events (redis_connected c st x w) = w_events w" "w_events (redis_disconnected c st x w) = w_events w"
  "w_timers (redis_connected c st x w) = w_timers w" "w_timers (redis_disconnected c st x w) = w_timers w"
  "w_next (redis_connected c st x w) = w_next w" "w_next (redis_disconnected c st x w) = w_next w"
  "w_redis (redis_connected c st x w) = w_redis w" "w_redis (redis_disconnected c st x w) = w_redis w"
  "w_inbuf (redis_connected c st x w) = w_inbuf w" "w_inbuf (redis_disconnected c st x w) = w_inbuf w"
  "w_out (redis_connected c st x w) = w_out w" "w_out (redis_disconnected c st x w) = w_out w"
  "w_cmds (redis_connected c st x w) = w_cmds w" "w_cmds (redis_disconnected c st x w) = w_cmds w"
  "w_calls (redis_connected c st x w) = w_calls w" "w_calls (redis_disconnected c st x w) = w_calls w"
  by (simp_all add: redis_connected_def redis_disconnected_def redis_gone_def Let_def)

text \<open>The connection that results go to is one that can be used.\<close>

definition redis_live :: "'c worker \<Rightarrow> bool" where
  "redis_live w \<longleftrightarrow> w_redis w \<noteq> None \<and> the (w_redis w) \<notin> set (w_freed w)"

end
