(* ===== verification/Worker_Inv.thy ===== *)
theory Worker_Inv
  imports Worker
begin

section \<open>The invariant of a worker\<close>

text \<open>
  \<open>worker_inv\<close> ties the maps of the class to the heap: every entry of \<open>test_map\<close> leads to a live
  test that has this very id and an armed timer; every armed timer belongs to a live test; every
  pending event is one that the class of its test creates, so the casts in the callbacks are
  right; and the table of unreachable targets holds events of UDP tests only. Every callback
  keeps it, so it holds in every state a worker can reach. What it does not say is what the
  program does not ensure: that a pending event's test is alive, or that an entry of the table
  of targets still leads to a live event (theory \<open>Worker_Props\<close>).
\<close>

subsection \<open>Statement\<close>

fun cb_fits :: "callback \<Rightarrow> test_obj \<Rightarrow> bool" where
  "cb_fits UdpTimeoutCb (UdpT t) = True"
| "cb_fits PingTimeoutCb (PingT t) = True"
| "cb_fits PingSocketCb (PingT t) = True"
| "cb_fits cb t = False"

definition worker_inv :: "'c worker \<Rightarrow> bool" where
  "worker_inv w \<longleftrightarrow>
     smap_ok (w_test_map w) \<and> smap_ok (w_icmp_map w) \<and>
     (\<forall>i a. smap_find (w_test_map w) i = Some a \<longrightarrow>
        w_timers w a \<noteq> None \<and> (\<exists>t. w_tests w a = Some t \<and> obj_id t = i)) \<and>
     (\<forall>a. w_timers w a \<noteq> None \<longrightarrow> w_tests w a \<noteq> None) \<and>
     (\<forall>a. w_tests w a \<noteq> None \<longrightarrow> a < w_next w) \<and>
     (\<forall>ea ev ta. w_events w ea = Some (ev, ta) \<longrightarrow> ea < w_next w \<and> ta < w_next w \<and>
        (\<forall>t. w_tests w ta = Some t \<longrightarrow> cb_fits (ev_cb ev) t)) \<and>
     (\<forall>k ea. smap_find (w_icmp_map w) k = Some ea \<longrightarrow> ea < w_next w \<and>
        (\<forall>ev ta. w_events w ea = Some (ev, ta) \<longrightarrow> ev_cb ev = UdpTimeoutCb))"

text \<open>The parts, as rules.\<close>

lemma worker_invI:
  assumes "smap_ok (w_test_map w)" "smap_ok (w_icmp_map w)"
    and "\<And>i a. smap_find (w_test_map w) i = Some a \<Longrightarrow>
        w_timers w a \<noteq> None \<and> (\<exists>t. w_tests w a = Some t \<and> obj_id t = i)"
    and "\<And>a. w_timers w a \<noteq> None \<Longrightarrow> w_tests w a \<noteq> None"
    and "\<And>a. w_tests w a \<noteq> None \<Longrightarrow> a < w_next w"
    and "\<And>ea ev ta. w_events w ea = Some (ev, ta) \<Longrightarrow> ea < w_next w \<and> ta < w_next w"
    and "\<And>ea ev ta t. w_events w ea = Some (ev, ta) \<Longrightarrow> w_tests w ta = Some t \<Longrightarrow>
        cb_fits (ev_cb ev) t"
    and "\<And>k ea. smap_find (w_icmp_map w) k = Some ea \<Longrightarrow> ea < w_next w"
    and "\<And>k ea ev ta. smap_find (w_icmp_map w) k = Some ea \<Longrightarrow> w_events w ea = Some (ev, ta) \<Longrightarrow>
        ev_cb ev = UdpTimeoutCb"
  shows "worker_inv w"
  unfolding worker_inv_def using assms by blast

lemma worker_invD:
  assumes "worker_inv w"
  shows "smap_ok (w_test_map w)" "smap_ok (w_icmp_map w)"
    and "\<And>i a. smap_find (w_test_map w) i = Some a \<Longrightarrow> w_timers w a \<noteq> None"
    and "\<And>i a. smap_find (w_test_map w) i = Some a \<Longrightarrow> \<exists>t. w_tests w a = Some t \<and> obj_id t = i"
    and "\<And>a. w_timers w a \<noteq> None \<Longrightarrow> w_tests w a \<noteq> None"
    and "\<And>a. w_tests w a \<noteq> None \<Longrightarrow> a < w_next w"
    and "\<And>ea ev ta. w_events w ea = Some (ev, ta) \<Longrightarrow> ea < w_next w \<and> ta < w_next w"
    and "\<And>ea ev ta t. w_events w ea = Some (ev, ta) \<Longrightarrow> w_tests w ta = Some t \<Longrightarrow>
        cb_fits (ev_cb ev) t"
    and "\<And>k ea. smap_find (w_icmp_map w) k = Some ea \<Longrightarrow> ea < w_next w"
    and "\<And>k ea ev ta. smap_find (w_icmp_map w) k = Some ea \<Longrightarrow> w_events w ea = Some (ev, ta) \<Longrightarrow>
        ev_cb ev = UdpTimeoutCb"
  using assms unfolding worker_inv_def by blast+

text \<open>The invariant reads the maps, the heap and the timers only.\<close>

lemma worker_inv_frame:
  "worker_inv w \<Longrightarrow> w_test_map w' = w_test_map w \<Longrightarrow> w_icmp_map w' = w_icmp_map w \<Longrightarrow>
   w_tests w' = w_tests w \<Longrightarrow> w_events w' = w_events w \<Longrightarrow> w_timers w' = w_timers w \<Longrightarrow>
   w_next w' = w_next w \<Longrightarrow> worker_inv w'"
  unfolding worker_inv_def by simp

lemma worker_info_inv [inv_intros]: "worker_inv w \<Longrightarrow> worker_inv (worker_info tb s w)"
  by (erule worker_inv_frame) (simp_all add: worker_info_def)

subsection \<open>The calls of a test\<close>

text \<open>What a test may ask for: events of its own class, keys for UDP events only.\<close>

fun call_fits :: "test_obj \<Rightarrow> effect \<Rightarrow> bool" where
  "call_fits t (NewEvent ev k) \<longleftrightarrow> cb_fits (ev_cb ev) t \<and> (k \<noteq> None \<longrightarrow> ev_cb ev = UdpTimeoutCb)"
| "call_fits t _ \<longleftrightarrow> True"

abbreviation calls_fit :: "test_obj \<Rightarrow> effect list \<Rightarrow> bool" where
  "calls_fit t \<equiv> list_all (call_fits t)"

lemma new_event_inv:
  assumes inv: "worker_inv w" and t: "w_tests w ta = Some t" "cb_fits (ev_cb ev) t"
    and w': "w' = w\<lparr>w_events := (w_events w)(w_next w \<mapsto> (ev, ta)), w_next := Suc (w_next w)\<rparr>"
  shows "worker_inv w'"
proof -
  note I = worker_invD [OF inv]
  have "ta < w_next w" using I(6) t(1) by blast
  moreover have "smap_find (w_icmp_map w) k \<noteq> Some (w_next w)" for k
    using I(9) by blast
  ultimately show ?thesis
    using I t unfolding w'
    by (intro worker_invI) (fastforce split: if_splits simp: less_Suc_eq)+
qed

lemma register_inv:
  assumes inv: "worker_inv w" and "a < w_next w"
    and "\<And>ev ta. w_events w a = Some (ev, ta) \<Longrightarrow> ev_cb ev = UdpTimeoutCb"
  shows "worker_inv (set_icmp_unreach_test_event k a w)"
  using worker_invD [OF inv] assms(2,3) unfolding set_icmp_unreach_test_event_def
  by (intro worker_invI) (auto split: if_splits)

lemma unregister_inv [inv_intros]:
  assumes inv: "worker_inv w" shows "worker_inv (del_icmp_unreach_test_event k w)"
  using worker_invD [OF inv] unfolding del_icmp_unreach_test_event_def
  by (intro worker_invI) (auto split: if_splits)

lemma free_event_inv:
  assumes inv: "worker_inv w" shows "worker_inv (w\<lparr>w_events := (w_events w)(ea := None)\<rparr>)"
  using worker_invD [OF inv] by (intro worker_invI) (auto split: if_splits)

lemma do_call_inv:
  assumes "worker_inv w" "w_tests w ta = Some t" "call_fits t c" "do_call tb own ta c w = Inr w'"
  shows "worker_inv w' \<and> w_tests w' = w_tests w"
proof (cases c)
  case (NewEvent ev key)
  define w1 where
    "w1 = w\<lparr>w_events := (w_events w)(w_next w \<mapsto> (ev, ta)), w_next := Suc (w_next w)\<rparr>"
  have w1: "worker_inv w1"
    using assms(3) NewEvent by (intro new_event_inv [OF assms(1,2) _ w1_def]) simp
  show ?thesis
  proof (cases key)
    case None
    then have "w' = w1" using assms(4) NewEvent by (simp add: w1_def Let_def)
    with w1 show ?thesis by (simp add: w1_def)
  next
    case (Some k)
    then have "w' = set_icmp_unreach_test_event k (w_next w) w1"
      using assms(4) NewEvent by (simp add: w1_def Let_def)
    moreover have "worker_inv (set_icmp_unreach_test_event k (w_next w) w1)"
      using assms(3) NewEvent Some by (intro register_inv [OF w1]) (auto simp: w1_def)
    ultimately show ?thesis by (simp add: set_icmp_unreach_test_event_def w1_def)
  qed
next
  case FreeOwnEvent
  with assms(1,4) show ?thesis by (auto simp: free_event_inv split: option.splits)
next
  case (Unregister key)
  with assms(1,4) show ?thesis
    by (auto simp: unregister_inv) (simp add: del_icmp_unreach_test_event_def)
next
  case (LogInfo s)
  with assms(1,4) show ?thesis by (auto simp: worker_info_inv) (simp add: worker_info_def)
qed (use assms in \<open>auto intro: worker_inv_frame\<close>)

lemma do_calls_inv:
  "worker_inv w \<Longrightarrow> w_tests w ta = Some t \<Longrightarrow> calls_fit t es \<Longrightarrow>
   do_calls tb own ta es w = Inr w' \<Longrightarrow> worker_inv w' \<and> w_tests w' = w_tests w"
proof (induction es arbitrary: w)
  case (Cons c es)
  then obtain w1 where w1: "do_call tb own ta c w = Inr w1" "do_calls tb own ta es w1 = Inr w'"
    by (auto simp: do_calls_def)
  have fit: "call_fits t c" "calls_fit t es" using Cons.prems(3) by simp_all
  then have i: "worker_inv w1" "w_tests w1 = w_tests w"
    using do_call_inv [OF Cons.prems(1,2) _ w1(1)] by auto
  from i(2) Cons.prems(2) have "w_tests w1 ta = Some t" by simp
  from Cons.IH [OF i(1) this fit(2) w1(2)] i(2) show ?case by simp
qed (simp add: do_calls_def)

text \<open>A callback that leaves its test an object of the same class with the same id.\<close>

fun same_obj :: "test_obj \<Rightarrow> test_obj \<Rightarrow> bool" where
  "same_obj (PingT a) (PingT b) \<longleftrightarrow> t_id a = t_id b"
| "same_obj (UdpT a) (UdpT b) \<longleftrightarrow> t_id a = t_id b"
| "same_obj _ _ \<longleftrightarrow> False"

lemma same_obj_fits: "same_obj t t' \<Longrightarrow> cb_fits cb t' \<longleftrightarrow> cb_fits cb t"
  by (cases t; cases t'; cases cb) auto

lemma same_obj_id: "same_obj t t' \<Longrightarrow> obj_id t' = obj_id t"
  by (cases t; cases t') (auto simp: Test_get_id_def)

lemma put_test_inv:
  assumes inv: "worker_inv w" and t: "w_tests w ta = Some t" "same_obj t t'"
  shows "worker_inv (put_test ta t' w)"
proof -
  note I = worker_invD [OF inv]
  let ?w = "put_test ta t' w"
  have f: "w_tests ?w a = (if a = ta then Some t' else w_tests w a)" for a
    by (simp add: put_test_def)
  have same: "w_test_map ?w = w_test_map w" "w_icmp_map ?w = w_icmp_map w" "w_timers ?w = w_timers w"
    "w_events ?w = w_events w" "w_next ?w = w_next w" by (simp_all add: put_test_def)
  show ?thesis
  proof (rule worker_invI, unfold same)
    fix i a assume "smap_find (w_test_map w) i = Some a"
    then show "w_timers w a \<noteq> None \<and> (\<exists>u. w_tests ?w a = Some u \<and> obj_id u = i)"
      using I(3) [of i a] I(4) [of i a] t(1) same_obj_id [OF t(2)] f [of a] by auto
  next
    fix a assume "w_timers w a \<noteq> None"
    then show "w_tests ?w a \<noteq> None" using I(5) [of a] f [of a] by simp
  next
    fix a assume "w_tests ?w a \<noteq> None"
    then show "a < w_next w" using I(6) [of a] f [of a] t(1) by (cases "a = ta") auto
  next
    fix ea ev tb u assume "w_events w ea = Some (ev, tb)" "w_tests ?w tb = Some u"
    then show "cb_fits (ev_cb ev) u"
      using I(8) [of ea ev tb] f [of tb] t(1) same_obj_fits [OF t(2)] by (cases "tb = ta") auto
  qed (rule I(1) I(2) | erule I(7) I(9) I(10) | assumption)+
qed

lemma callback_inv:
  assumes "worker_inv w" "w_tests w ta = Some t" "same_obj t t'" "calls_fit t' es"
    and "do_calls tb own ta es (put_test ta t' w) = Inr w'"
  shows "worker_inv w'"
  using do_calls_inv [OF put_test_inv [OF assms(1-3)] _ assms(4,5)]
  by (simp add: put_test_def)

subsection \<open>The callbacks\<close>

lemma Ping_probe_fits:
  assumes "Ping_probe e t = Inr (r, t', es)"
  shows "t_id t' = t_id t \<and> calls_fit (PingT u) es"
  using Ping_probe_cases [OF assms] by (auto simp: read_event_def)

lemma Ping_finish_fits:
  assumes "Ping_finish J e t = Inr (r, t', es)"
  shows "t_id t' = t_id t \<and> calls_fit (PingT u) es"
  using assms by (auto simp: Ping_finish_eq)

lemma Ping_process_id: "Ping_process t = Inr (r, t') \<Longrightarrow> t_id t' = t_id t"
  by (erule Ping_process_shape) auto

lemma Ping_run_fits:
  assumes "Ping_run J e t = Inr (r, t', es)"
  shows "t_id t' = t_id t \<and> calls_fit (PingT u) es"
proof -
  obtain q t1 where i: "Ping_init e (t\<lparr>starttime := e_time e\<rparr>) = (q, t1)"
    by fastforce
  then have "t_id t1 = t_id t"
    by (auto simp: Ping_init_def Let_def split: if_splits option.splits)
  then show ?thesis
    using assms i unfolding Ping_run_def
    by (auto simp: timer_event_def split: if_splits
        dest!: Ping_finish_fits [where u = u] Ping_probe_fits [where u = u])
qed

lemma ping_timeout_fits:
  assumes "ping_timeout_callback_fn J e t = Inr (t', es)"
  shows "t_id t' = t_id t \<and> calls_fit (PingT u) es"
  using assms unfolding ping_timeout_callback_fn_def
  by (auto split: if_splits
      dest!: Ping_finish_fits [where u = u] Ping_probe_fits [where u = u])

lemma ping_socket_fits:
  assumes "ping_socket_callback_fn J e f t = Inr (t', es)"
  shows "t_id t' = t_id t \<and> calls_fit (PingT u) es"
proof (cases f)
  case EvTimeout
  with assms show ?thesis
    by (auto split: if_splits dest!: Ping_finish_fits [where u = u] Ping_probe_fits [where u = u])
next
  case EvRead
  from assms obtain r1 t1 where rc: "Ping_receive e t = Inr (r1, t1)"
    and rest: "(if r1 = TEST_STATUS_FAIL
     then rbind (Ping_finish J e t1) (\<lambda>(_, t', es). Inr (t', FreeOwnEvent # es))
     else
       rbind (Ping_process t1) (\<lambda>(r2, t2).
       if r2 = TEST_STATUS_NOLAST
       then rbind (Ping_probe e t2) (\<lambda>(_, t', es). Inr (t', FreeOwnEvent # es))
       else if r2 = TEST_STATUS_PROCESS then Inr (t2, [FreeOwnEvent])
       else if r2 = TEST_STATUS_LAST
       then rbind (Ping_finish J e t2) (\<lambda>(_, t', es). Inr (t', FreeOwnEvent # es))
       else Inr (t2, [FreeOwnEvent]))) = Inr (t', es)"
    unfolding EvRead ping_socket_callback_fn.simps by (auto simp del: if_split)
  have "t_id t1 = t_id t" using rc by (auto simp: Ping_receive_eq)
  then show ?thesis
    using rest
    by (auto split: if_splits dest!: Ping_process_id
        dest: Ping_finish_fits [where u = u] Ping_probe_fits [where u = u])
qed

lemma UDP_finish_fits:
  assumes "UDP_finish J e t = Inr (r, t', es)"
  shows "t_id t' = t_id t \<and> calls_fit (UdpT u) es"
  using assms by (auto simp: UDP_finish_eq)

lemma UDP_run_fits:
  assumes "UDP_run J e t = Inr (r, t', es)"
  shows "t_id t' = t_id t \<and> calls_fit (UdpT u) es"
proof -
  obtain q t1 where i: "UDP_init e (t\<lparr>u_starttime := e_time e\<rparr>) = (q, t1)"
    by fastforce
  then have "t_id t1 = t_id t" by (auto simp: UDP_init_def Let_def split: if_splits)
  then show ?thesis
    using assms i unfolding UDP_run_def UDP_probe_def
    by (auto simp: udp_event_def Let_def split: if_splits dest!: UDP_finish_fits [where u = u])
qed

lemma udp_timeout_fits:
  assumes "udp_timeout_callback_fn J e t = Inr (t', es)"
  shows "t_id t' = t_id t \<and> calls_fit (UdpT u) es"
  using assms unfolding udp_timeout_callback_fn_def
  by (auto dest!: UDP_finish_fits [where u = u])

lemma run_obj_fits:
  "run_obj J e t = Inr (t', es) \<Longrightarrow> same_obj t t' \<and> calls_fit t' es"
  by (cases t) (auto dest!: Ping_run_fits UDP_run_fits)

lemma finish_addr_fits:
  "finish_addr J a e t = Inr (t', es) \<Longrightarrow> same_obj t t' \<and> calls_fit t' es"
  by (cases t) (auto simp: UDP_finish_unreach_eq)

lemma event_callback_fits:
  assumes "event_callback J e f cb t = Inr (t', es)"
  shows "same_obj t t' \<and> calls_fit t' es"
  using assms
  by (cases cb; cases t) (auto dest!: ping_timeout_fits ping_socket_fits udp_timeout_fits)

lemma run_test_inv:
  assumes "worker_inv w" "worker_timeout_callback_fn J tb e ta w = Inr w'"
  shows "worker_inv w'"
  using assms(2) run_obj_fits callback_inv [OF assms(1)]
  by (fastforce simp: worker_timeout_callback_fn_def)

lemma fire_event_inv:
  assumes "worker_inv w" "fire_event J tb e f ea w = Inr w'"
  shows "worker_inv w'"
  using assms(2) event_callback_fits callback_inv [OF assms(1)]
  by (fastforce simp: fire_event_def)

lemma unreach_target_inv:
  assumes "worker_inv w" "unreach_target J tb e a w = Inr w'"
  shows "worker_inv w'"
proof (cases "get_icmp_unreach_test_event a w")
  case (Some ea)
  then obtain ev ta t t' es where c: "w_tests w ta = Some t" "finish_addr J a e t = Inr (t', es)"
    "do_calls tb (Some ea) ta (es @ [FreeOwnEvent]) (put_test ta t' w) = Inr w'"
    using assms(2) by (auto simp: unreach_target_def)
  with finish_addr_fits [OF c(2)] callback_inv [OF assms(1) c(1) _ _ c(3)] show ?thesis by simp
qed (use assms in \<open>simp add: unreach_target_def\<close>)

lemma icmp_cb_inv:
  assumes "worker_inv w" "worker_icmp_cb J tb e w = Inr w'"
  shows "worker_inv w'"
  using assms(2) unfolding worker_icmp_cb_def Let_def case_prod_beta
  by (elim res_elims; (use assms(1) unreach_target_inv in \<open>blast | simp\<close>)?)

subsection \<open>Messages\<close>

lemma new_test_inv:
  assumes inv: "worker_inv w" and n: "new_test t w = (p, w')"
  shows "worker_inv w' \<and> p = Some (w_next w) \<and> w_tests w' (w_next w) = Some t"
proof -
  note I = worker_invD [OF inv]
  have fresh: "w_tests w (w_next w) = None" using I(6) [of "w_next w"] by blast
  have w': "w' = w\<lparr>w_tests := (w_tests w)(w_next w \<mapsto> t), w_next := Suc (w_next w)\<rparr>"
    and p: "p = Some (w_next w)" using n by (simp_all add: new_test_def)
  have f: "w_tests w' a = (if a = w_next w then Some t else w_tests w a)" for a
    by (simp add: w')
  have same: "w_test_map w' = w_test_map w" "w_icmp_map w' = w_icmp_map w" "w_timers w' = w_timers w"
    "w_events w' = w_events w" "w_next w' = Suc (w_next w)" by (simp_all add: w')
  have "worker_inv w'"
  proof (rule worker_invI, unfold same)
    fix i a assume "smap_find (w_test_map w) i = Some a"
    then show "w_timers w a \<noteq> None \<and> (\<exists>u. w_tests w' a = Some u \<and> obj_id u = i)"
      using I(3) [of i a] I(4) [of i a] fresh f [of a] by auto
  next
    fix a assume "w_timers w a \<noteq> None"
    then show "w_tests w' a \<noteq> None" using I(5) [of a] f [of a] by simp
  next
    fix a assume "w_tests w' a \<noteq> None"
    then show "a < Suc (w_next w)" using I(6) [of a] f [of a] by (cases "a = w_next w") auto
  next
    fix ea ev tb assume "w_events w ea = Some (ev, tb)"
    then show "ea < Suc (w_next w) \<and> tb < Suc (w_next w)" using I(7) [of ea ev tb] by simp
  next
    fix ea ev tb u assume "w_events w ea = Some (ev, tb)" "w_tests w' tb = Some u"
    then show "cb_fits (ev_cb ev) u"
      using I(7) [of ea ev tb] I(8) [of ea ev tb u] f [of tb] by (auto split: if_splits)
  next
    fix k ea assume "smap_find (w_icmp_map w) k = Some ea"
    then show "ea < Suc (w_next w)" using I(9) [of k ea] by simp
  qed (rule I(1) I(2) | erule I(10) | assumption)+
  with p show ?thesis by (simp add: f)
qed

lemma generate_test_inv:
  assumes "worker_inv w" "generate_test J en r w = Inr (p, w')"
  shows "worker_inv w'"
proof -
  have i: "worker_inv (worker_info (we_timebuf en) s w)" for s
    by (rule worker_info_inv [OF assms(1)])
  show ?thesis
    using assms(2) unfolding generate_test_def Let_def
    by (elim res_elims; (use assms(1) i new_test_inv [OF i] in \<open>fastforce\<close>)?)
qed

lemma add_test_inv:
  assumes inv: "worker_inv w" and a: "add_test p w = Inr w'"
  shows "worker_inv w'"
proof -
  note I = worker_invD [OF inv]
  obtain a t where t: "w_tests w a = Some t"
    and w': "w' = w\<lparr>w_timers := (w_timers w)(a \<mapsto> obj_frenc t),
      w_test_map := smap_put (obj_id t) a (w_test_map w)\<rparr>"
    using a by (auto simp: add_test_def)
  have same: "w_icmp_map w' = w_icmp_map w" "w_tests w' = w_tests w"
    "w_events w' = w_events w" "w_next w' = w_next w"
    "w_test_map w' = smap_put (obj_id t) a (w_test_map w)"
    "w_timers w' = (w_timers w)(a \<mapsto> obj_frenc t)" by (simp_all add: w')
  show ?thesis
  proof (rule worker_invI, unfold same)
    show "smap_ok (smap_put (obj_id t) a (w_test_map w))" using I(1) by simp
  next
    fix i b assume "smap_find (smap_put (obj_id t) a (w_test_map w)) i = Some b"
    then show "((w_timers w)(a \<mapsto> obj_frenc t)) b \<noteq> None \<and> (\<exists>u. w_tests w b = Some u \<and> obj_id u = i)"
      using I(3) [of i b] I(4) [of i b] t by (auto split: if_splits)
  next
    fix b assume "((w_timers w)(a \<mapsto> obj_frenc t)) b \<noteq> None"
    then show "w_tests w b \<noteq> None" using I(5) [of b] t by (auto split: if_splits)
  qed (rule I(2) | erule I(6) I(7) I(8) I(9) I(10) | assumption)+
qed

lemma delete_test_inv:
  assumes inv: "worker_inv w" and d: "delete_test J r w = Inr (x, w')"
  shows "worker_inv w'"
proof -
  note I = worker_invD [OF inv]
  consider "w' = w" | i a where "smap_find (w_test_map w) i = Some a"
    "w' = w\<lparr>w_test_map := smap_erase i (w_test_map w), w_timers := (w_timers w)(a := None),
       w_tests := (w_tests w)(a := None)\<rparr>"
    using d by (auto simp: delete_test_def split: if_splits option.splits)
  then show ?thesis
  proof cases
    case 1
    with inv show ?thesis by simp
  next
    case (2 i a)
    have same: "w_icmp_map w' = w_icmp_map w" "w_tests w' = (w_tests w)(a := None)"
      "w_events w' = w_events w" "w_next w' = w_next w"
      "w_test_map w' = smap_erase i (w_test_map w)"
      "w_timers w' = (w_timers w)(a := None)" by (simp_all add: 2(2))
    show ?thesis
    proof (rule worker_invI, unfold same)
      show "smap_ok (smap_erase i (w_test_map w))" using I(1) by simp
    next
      fix j b assume "smap_find (smap_erase i (w_test_map w)) j = Some b"
      then have j: "j \<noteq> i" "smap_find (w_test_map w) j = Some b"
        using I(1) by (auto split: if_splits)
      then have "b \<noteq> a" using I(4) [of j b] I(4) [OF 2(1)] by auto
      with j show "((w_timers w)(a := None)) b \<noteq> None \<and>
          (\<exists>u. ((w_tests w)(a := None)) b = Some u \<and> obj_id u = j)"
        using I(3) [of j b] I(4) [of j b] by auto
    next
      fix b assume "((w_timers w)(a := None)) b \<noteq> None"
      then show "((w_tests w)(a := None)) b \<noteq> None" using I(5) [of b] by (auto split: if_splits)
    next
      fix b assume "((w_tests w)(a := None)) b \<noteq> None"
      then show "b < w_next w" using I(6) [of b] by (auto split: if_splits)
    next
      fix ea ev tb u assume "w_events w ea = Some (ev, tb)" "((w_tests w)(a := None)) tb = Some u"
      then show "cb_fits (ev_cb ev) u" using I(8) [of ea ev tb u] by (auto split: if_splits)
    qed (rule I(2) | erule I(7) I(9) I(10) | assumption)+
  qed
qed

lemma openredis_sets:
  assumes "openredis en w = Inr w'"
  obtains c where "we_redis en (w_connects w) (w_redisport w) = Some c"
    "w' = w\<lparr>w_redis := Some c, w_connects := Suc (w_connects w), w_freed := removeAll c (w_freed w),
      w_attached := w_attached w @ (if we_redis_err en c then [] else [c])\<rparr>"
proof -
  obtain c where c: "we_redis en (w_connects w) (w_redisport w) = Some c"
    using assms by (cases "we_redis en (w_connects w) (w_redisport w)") (simp_all add: openredis_def)
  let ?w1 = "w\<lparr>w_redis := Some c, w_connects := Suc (w_connects w), w_freed := removeAll c (w_freed w)\<rparr>"
  have a: "w' = (if we_redis_err en c then ?w1 else ?w1\<lparr>w_attached := w_attached w @ [c]\<rparr>)"
    using assms c by (simp add: openredis_def Let_def split: if_split_asm)
  have "?w1 = ?w1\<lparr>w_attached := w_attached w\<rparr>" by (cases w) simp
  with a have "w' = ?w1\<lparr>w_attached := w_attached w @ (if we_redis_err en c then [] else [c])\<rparr>"
    by (cases "we_redis_err en c") simp_all
  with c show thesis by (rule that)
qed

lemma handle_msg_inv:
  assumes inv: "worker_inv w" and h: "handle_msg J en d w = Inr (go, w')"
  shows "worker_inv w'"
proof -
  have info: "worker_inv (worker_info (we_timebuf en) s w)" for s
    by (rule worker_info_inv [OF inv])
  consider (add) "cd_type d = MASTER_MSG_TYPE_ADDCONF" | (del) "cd_type d = MASTER_MSG_TYPE_DELCONF"
    | (redis) "cd_type d = MASTER_MSG_TYPE_REDISPORT"
    | (other) "cd_type d \<noteq> MASTER_MSG_TYPE_ADDCONF" "cd_type d \<noteq> MASTER_MSG_TYPE_DELCONF"
      "cd_type d \<noteq> MASTER_MSG_TYPE_REDISPORT" by blast
  then show ?thesis
  proof cases
    case add
    then obtain s where "msg_text d = Inr s" and c: "(case j_parse J s of
        None \<Rightarrow> Inr (False, worker_info (we_timebuf en) ''add new conf'' w)
      | Some r \<Rightarrow> rbind (generate_test J en r (worker_info (we_timebuf en) ''add new conf'' w))
          (\<lambda>(p, w2). rbind (if p = None then Inr w2
              else rbind (asInt J r ''id'') (\<lambda>i. Inr (w2\<lparr>w_out := w_out w2 @ [ack_msg i d]\<rparr>)))
            (\<lambda>w3. rbind (add_test p w3) (\<lambda>w4. Inr (True, w4))))) = Inr (go, w')"
      using h by (auto simp: handle_msg_def Let_def)
    show ?thesis
    proof (cases "j_parse J s")
      case None
      with c info show ?thesis by auto
    next
      case (Some r)
      with c obtain p w2 w3 where g: "generate_test J en r (worker_info (we_timebuf en) ''add new conf'' w) = Inr (p, w2)"
        and w3: "w3 = w2 \<or> (\<exists>i. w3 = w2\<lparr>w_out := w_out w2 @ [ack_msg i d]\<rparr>)"
        and a: "add_test p w3 = Inr w'"
        by (auto split: if_splits)
      have "worker_inv w2" by (rule generate_test_inv [OF info g])
      then have "worker_inv w3" using w3 by (auto elim: worker_inv_frame)
      then show ?thesis by (rule add_test_inv [OF _ a])
    qed
  next
    case del
    with h info inv show ?thesis
      by (auto simp: handle_msg_def msg_type_defs split: option.splits
          dest: delete_test_inv [OF info])
  next
    case redis
    with h obtain n where op:
      "openredis en ((worker_info (we_timebuf en) ''FIFO path'' w)\<lparr>w_redisport := n\<rparr>) = Inr w'"
      by (auto simp: handle_msg_def msg_type_defs)
    show ?thesis
      by (rule openredis_sets [OF op], rule worker_inv_frame [OF info [of "''FIFO path''"]]) simp_all
  next
    case other
    with h inv show ?thesis by (simp add: handle_msg_def)
  qed
qed

lemma drain_inv: "worker_inv w \<Longrightarrow> drain J en buf w = Inr (rest, w') \<Longrightarrow> worker_inv w'"
proof (induction J en buf w arbitrary: rest w' rule: drain.induct)
  case (1 J en buf w)
  show ?case
  proof (cases "channel_data_size \<le> length buf")
    case True
    with 1(3) obtain go w1 where
      h: "handle_msg J en (cd_of_bytes (take channel_data_size buf)) w = Inr (go, w1)"
      and c: "(if go then drain J en (drop channel_data_size buf) w1
        else Inr (drop channel_data_size buf, w1)) = Inr (rest, w')"
      by (auto simp: drain.simps [of J en buf w])
    have "worker_inv w1" by (rule handle_msg_inv [OF 1(2) h])
    with 1(1) [OF True h refl] c show ?thesis by (cases go) auto
  next
    case False
    with 1(2,3) show ?thesis by (simp add: drain.simps [of J en buf w])
  qed
qed

lemma worker_handle_inv:
  assumes inv: "worker_inv w" and h: "worker_handle J en i w = Inr w'"
  shows "worker_inv w'"
proof (cases i)
  case (TestDue ta e)
  with h inv run_test_inv show ?thesis by (auto split: if_splits)
next
  case (EventDue ea f e)
  with h inv fire_event_inv show ?thesis by (auto split: if_splits option.splits)
next
  case (IcmpIn e)
  with h inv icmp_cb_inv show ?thesis by auto
next
  case (ChannelIn bs)
  have i: "worker_inv (w\<lparr>w_inbuf := []\<rparr>)" using inv by (rule worker_inv_frame) simp_all
  obtain rest w1 where d: "drain J en (w_inbuf w @ bs) (w\<lparr>w_inbuf := []\<rparr>) = Inr (rest, w1)"
    "w' = w1\<lparr>w_inbuf := rest\<rparr>"
    using h ChannelIn by (auto simp: deal_channel_data_def)
  from drain_inv [OF i d(1)] show ?thesis by (rule worker_inv_frame) (simp_all add: d(2))
next
  case (FdIn r1 r2 junk)
  with h inv show ?thesis
    by (auto simp: worker_channel_1_cb_def split_log_fd_def elim: worker_inv_frame)
next
  case (RedisConnected c st x)
  with h inv show ?thesis by (auto elim!: worker_inv_frame)
next
  case (RedisDisconnected c st x)
  with h inv show ?thesis by (auto elim!: worker_inv_frame)
qed

lemma Worker_new_inv: "worker_inv (Worker_new lg junk)"
  by (simp add: worker_inv_def Worker_new_def)

interpretation wm: res_machine "\<lambda>(en, i). worker_handle J en i" worker_inv for J
  by unfold_locales (auto intro: worker_handle_inv)

end
