(* ===== verification/Worker_Props.thy ===== *)
theory Worker_Props
  imports Worker_Inv
begin

section \<open>What a worker does with its messages, tests and packets\<close>

text \<open>
  Functional facts about the operations of \<open>Worker\<close> and the properties built on them: adding,
  acknowledging and deleting tests; delivery of results to redis; the message stream and how it
  is cut into reads; the ICMP path. The section on defects states the same kind of facts for
  the inputs the code mishandles.
\<close>

subsection \<open>Messages and the stream\<close>

text \<open>A message whose text, if its type carries JSON, parses.\<close>

definition parses :: "'j jsonlib \<Rightarrow> channel_data \<Rightarrow> bool" where
  "parses J d \<longleftrightarrow> (cd_type d = MASTER_MSG_TYPE_ADDCONF \<or> cd_type d = MASTER_MSG_TYPE_DELCONF \<longrightarrow>
     (case msg_text d of Inl f \<Rightarrow> True | Inr s \<Rightarrow> j_parse J s \<noteq> None))"

lemma handle_msg_go:
  assumes "parses J d" "handle_msg J en d w = Inr (go, w')"
  shows "go"
  using assms
  by (auto simp: handle_msg_def parses_def Let_def split: if_splits option.splits)

lemma generate_test_inbuf:
  "generate_test J en r w = Inr (p, w') \<Longrightarrow> w_inbuf w' = w_inbuf w"
  unfolding generate_test_def Let_def
  by (elim res_elims) (auto simp: new_test_def worker_info_def)

lemma add_test_inbuf: "add_test p w = Inr w' \<Longrightarrow> w_inbuf w' = w_inbuf w"
  by (auto simp: add_test_def)

lemma delete_test_inbuf: "delete_test J r w = Inr (x, w') \<Longrightarrow> w_inbuf w' = w_inbuf w"
  by (auto simp: delete_test_def split: if_splits option.splits)

lemma openredis_inbuf: "openredis en w = Inr w' \<Longrightarrow> w_inbuf w' = w_inbuf w"
  by (erule openredis_sets) simp

lemma worker_info_inbuf: "w_inbuf (worker_info tb s w) = w_inbuf w"
  by (simp add: worker_info_def)

lemmas inbuf_simps = generate_test_inbuf add_test_inbuf delete_test_inbuf openredis_inbuf

lemma handle_msg_inbuf: "handle_msg J en d w = Inr (go, w') \<Longrightarrow> w_inbuf w' = w_inbuf w"
  unfolding handle_msg_def Let_def
  by (elim res_elims)
    (auto simp: worker_info_inbuf split: option.splits if_splits dest!: inbuf_simps)

text \<open>Handling messages one by one, whatever reads brought them.\<close>

definition deliver1 :: "'j jsonlib \<Rightarrow> 'c worker_env \<Rightarrow> channel_data \<Rightarrow> 'c worker \<Rightarrow> 'c worker res" where
  "deliver1 J en d w = rbind (handle_msg J en d w) (\<lambda>(go, w'). Inr w')"

definition deliver ::
  "'j jsonlib \<Rightarrow> 'c worker_env \<Rightarrow> channel_data list \<Rightarrow> 'c worker \<Rightarrow> 'c worker res" where
  "deliver J en ms w = fold_res (deliver1 J en) ms w"

lemma drain_deframe:
  "list_all (parses J) (fst (deframe channel_data_size cd_of_bytes buf)) \<Longrightarrow>
   drain J en buf w =
     rbind (deliver J en (fst (deframe channel_data_size cd_of_bytes buf)) w)
       (\<lambda>w'. Inr (snd (deframe channel_data_size cd_of_bytes buf), w'))"
proof (induction J en buf w rule: drain.induct)
  case (1 J en buf w)
  show ?case
  proof (cases "channel_data_size \<le> length buf")
    case True
    define d b where "d = cd_of_bytes (take channel_data_size buf)"
      and "b = drop channel_data_size buf"
    have df: "deframe channel_data_size cd_of_bytes buf =
        (d # fst (deframe channel_data_size cd_of_bytes b), snd (deframe channel_data_size cd_of_bytes b))"
      using True chan.size_pos
      by (subst deframe.simps) (simp add: d_def b_def case_prod_beta Let_def)
    have p: "parses J d" "list_all (parses J) (fst (deframe channel_data_size cd_of_bytes b))"
      using "1.prems" by (simp_all add: df)
    show ?thesis
    proof (cases "handle_msg J en d w")
      case (Inl f)
      then show ?thesis
        using True by (simp add: drain.simps [of J en buf w] df d_def deliver_def deliver1_def)
    next
      case (Inr x)
      then obtain go w1 where h: "handle_msg J en d w = Inr (go, w1)" by (cases x) auto
      then have "go" using handle_msg_go [OF p(1)] by blast
      with h "1.IH" [OF True, of "(go, w1)"] p(2) True show ?thesis
        by (simp add: drain.simps [of J en buf w] df deliver_def deliver1_def flip: d_def b_def)
    qed
  next
    case False
    then show ?thesis
      by (simp add: drain.simps [of J en buf w] chan.deframe_short deliver_def)
  qed
qed

lemma deliver_inbuf: "deliver J en ms w = Inr w' \<Longrightarrow> w_inbuf w' = w_inbuf w"
proof (induction ms arbitrary: w)
  case (Cons d ms)
  then obtain w1 where "deliver1 J en d w = Inr w1" "deliver J en ms w1 = Inr w'"
    by (auto simp: deliver_def)
  with Cons.IH [of w1] show ?case by (auto simp: deliver1_def dest!: handle_msg_inbuf)
qed (simp add: deliver_def)

text \<open>
  Reading a stream in pieces: as long as every message parses, the pieces do not matter.
\<close>

lemma channel_chunks:
  assumes "w_inbuf w = []" "deliver J en (fst (deframe channel_data_size cd_of_bytes (concat cs))) w = Inr w'"
    and "list_all (parses J) (fst (deframe channel_data_size cd_of_bytes (concat cs)))"
  shows "fold_res (worker_handle J en) (map ChannelIn cs) w =
    Inr (w'\<lparr>w_inbuf := snd (deframe channel_data_size cd_of_bytes (concat cs))\<rparr>)"
  using assms(2,3)
proof (induction cs arbitrary: w' rule: rev_induct)
  case Nil
  have "w' = w" using Nil.prems(1) chan.size_pos
    by (simp add: chan.deframe_short deliver_def)
  then show ?case using assms(1) chan.size_pos by (simp add: chan.deframe_short)
next
  case (snoc c cs)
  define b where "b = concat cs"
  define ms r where "ms = fst (deframe channel_data_size cd_of_bytes b)"
    and "r = snd (deframe channel_data_size cd_of_bytes b)"
  define ms' r' where "ms' = fst (deframe channel_data_size cd_of_bytes (r @ c))"
    and "r' = snd (deframe channel_data_size cd_of_bytes (r @ c))"
  have ap: "deframe channel_data_size cd_of_bytes (concat (cs @ [c])) = (ms @ ms', r')"
    using chan.deframe_append [of b c] by (simp add: b_def ms_def r_def ms'_def r'_def)
  note d = snoc.prems [unfolded ap fst_conv]
  obtain w1 where w1: "deliver J en ms w = Inr w1" "deliver J en ms' w1 = Inr w'"
    using d(1) by (auto simp: deliver_def)
  have p: "list_all (parses J) ms" "list_all (parses J) ms'" using d(2) by simp_all
  have IH: "fold_res (worker_handle J en) (map ChannelIn cs) w = Inr (w1\<lparr>w_inbuf := r\<rparr>)"
    using snoc.IH [of w1] w1(1) p(1) by (simp add: ms_def r_def b_def)
  have i: "w_inbuf w1 = []" using deliver_inbuf [OF w1(1)] assms(1) by simp
  have "drain J en (r @ c) w1 = Inr (r', w')"
    using drain_deframe [of J "r @ c" en w1] p(2) w1(2) by (simp add: ms'_def r'_def)
  moreover have "w1\<lparr>w_inbuf := []\<rparr> = w1" using i by (cases w1) simp
  ultimately have "worker_handle J en (ChannelIn c) (w1\<lparr>w_inbuf := r\<rparr>) = Inr (w'\<lparr>w_inbuf := r'\<rparr>)"
    by (simp add: deal_channel_data_def)
  with IH show ?case unfolding ap by simp
qed

subsection \<open>Adding and deleting\<close>

definition ok_obj :: "'j jsonlib \<Rightarrow> 'j \<Rightarrow> string \<Rightarrow> int \<Rightarrow> bool" where
  "ok_obj J r ty i \<longleftrightarrow> j_member J r ''type'' = Some True \<and> j_member J r ''id'' = Some True \<and>
     j_str J r ''type'' = Some ty \<and> j_int J r ''id'' = Some i"

lemma udp_conf_id: "udp_conf J junk r = Inr c \<Longrightarrow> asInt J r ''id'' = Inr i \<Longrightarrow> cf_id c = i"
  by (auto simp: udp_conf_def cfg_int_def cfg_str_def config_setters Config_new_def split: if_splits)

lemma generate_udp:
  assumes "ok_obj J r ''UDP'' i" "udp_conf J (we_config en) r = Inr c"
  shows "generate_test J en r w =
    Inr (new_test (UdpT (UDP_config c (UDP_test_new (we_pid en) (we_udp en))))
      (worker_info (we_timebuf en) (''genreate type '' @ ''UDP'' @ '' test'') w))"
  using assms by (simp add: generate_test_def ok_obj_def has_both_def isMember_def asString_def Let_def)

lemma generate_ping:
  assumes "ok_obj J r ''PING'' i" "ping_conf J (we_config en) r = Inr c"
  shows "generate_test J en r w =
    Inr (new_test (PingT (Ping_config c (Ping_test_new (we_pid en) (we_ping en))))
      (worker_info (we_timebuf en) (''genreate type '' @ ''PING'' @ '' test'') w))"
  using assms by (simp add: generate_test_def ok_obj_def has_both_def isMember_def asString_def Let_def)

text \<open>What an ADDCONF does once the test object is built.\<close>

lemma handle_add:
  assumes "cd_type d = MASTER_MSG_TYPE_ADDCONF" "msg_text d = Inr s" "j_parse J s = Some r"
    and "generate_test J en r (worker_info (we_timebuf en) ''add new conf'' w) = Inr (new_test t w1)"
    and "j_int J r ''id'' = Some i"
  shows "\<exists>w'. handle_msg J en d w = Inr (True, w') \<and>
    w_test_map w' = smap_put (obj_id t) (w_next w1) (w_test_map w1) \<and>
    w_tests w' = (w_tests w1)(w_next w1 \<mapsto> t) \<and>
    w_timers w' = (w_timers w1)(w_next w1 \<mapsto> obj_frenc t) \<and>
    w_out w' = w_out w1 @ [ack_msg i d] \<and> w_events w' = w_events w1 \<and>
    w_icmp_map w' = w_icmp_map w1 \<and> w_redis w' = w_redis w1 \<and> w_next w' = Suc (w_next w1) \<and>
    w_cmds w' = w_cmds w1"
  using assms
  by (simp add: handle_msg_def new_test_def add_test_def asInt_def Let_def)

text \<open>C27. ADDCONF of a UDP test: the worker acknowledges with the configured id, files the test
  under this id with the configured host and port, and arms its timer with the configured
  period; every other id keeps its test.\<close>

theorem worker_add_udp:
  assumes "cd_type d = MASTER_MSG_TYPE_ADDCONF" "msg_text d = Inr s" "j_parse J s = Some r"
    and "ok_obj J r ''UDP'' i" "udp_conf J (we_config en) r = Inr c" "int_range i"
  shows "\<exists>w' a t m. handle_msg J en d w = Inr (True, w') \<and>
    w_out w' = w_out w @ [m] \<and> cd_type m = MASTER_MSG_TYPE_ADDCONF \<and> ack_id m = i \<and>
    smap_find (w_test_map w') i = Some a \<and> w_tests w' a = Some (UdpT t) \<and>
    t_id t = i \<and> u_host t = cf_host c \<and> u_port t = cf_port c \<and>
    w_timers w' a = Some (if cf_frenc c \<le> 0 then -1 else cf_frenc c) \<and>
    (\<forall>j. j \<noteq> i \<longrightarrow> smap_find (w_test_map w') j = smap_find (w_test_map w) j)"
proof -
  define w1 where "w1 = worker_info (we_timebuf en) (''genreate type '' @ ''UDP'' @ '' test'')
      (worker_info (we_timebuf en) ''add new conf'' w)"
  define t where "t = UDP_config c (UDP_test_new (we_pid en) (we_udp en))"
  have i: "j_int J r ''id'' = Some i" "asInt J r ''id'' = Inr i"
    using assms(4) by (simp_all add: ok_obj_def asInt_def)
  have "cf_id c = i" by (rule udp_conf_id [OF assms(5) i(2)])
  then have t: "t_id t = i" "u_host t = cf_host c" "u_port t = cf_port c"
    "t_frenc t = (if cf_frenc c \<le> 0 then -1 else cf_frenc c)"
    by (simp_all add: t_def UDP_config_def)
  have w1: "w_out w1 = w_out w" "w_test_map w1 = w_test_map w"
    by (simp_all add: w1_def worker_info_def)
  have "generate_test J en r (worker_info (we_timebuf en) ''add new conf'' w) = Inr (new_test (UdpT t) w1)"
    using generate_udp [OF assms(4,5)] by (simp add: t_def w1_def)
  from handle_add [OF assms(1-3) this i(1)] obtain w' where "handle_msg J en d w = Inr (True, w')"
    "w_test_map w' = smap_put (obj_id (UdpT t)) (w_next w1) (w_test_map w1)"
    "w_tests w' = (w_tests w1)(w_next w1 \<mapsto> UdpT t)"
    "w_timers w' = (w_timers w1)(w_next w1 \<mapsto> obj_frenc (UdpT t))"
    "w_out w' = w_out w1 @ [ack_msg i d]" by blast
  then show ?thesis
    using t w1 ack_id_msg [OF assms(6), of d] assms(1)
    by (intro exI [of _ w'] exI [of _ "w_next w1"] exI [of _ t] exI [of _ "ack_msg i d"])
      (simp add: Test_get_id_def Test_get_frenc_def ack_msg_def)
qed

text \<open>A PING test is configured without its id: the worker files it under whatever the id
  field of the new object held, while the acknowledgement carries the configured id. A later
  DELCONF with the configured id finds nothing, and the test keeps running.\<close>

theorem worker_add_ping_loses_id:
  assumes "worker_inv w" "cd_type d = MASTER_MSG_TYPE_ADDCONF" "msg_text d = Inr s"
    and "j_parse J s = Some r" "ok_obj J r ''PING'' i" "ping_conf J (we_config en) r = Inr c"
    and "t_id (we_ping en) \<noteq> i" "smap_find (w_test_map w) i = None" "int_range i"
  shows "\<exists>w' a m t. handle_msg J en d w = Inr (True, w') \<and> w_out w' = w_out w @ [m] \<and> ack_id m = i \<and>
    smap_find (w_test_map w') (t_id (we_ping en)) = Some a \<and> w_tests w' a = Some (PingT t) \<and>
    w_timers w' a \<noteq> None \<and> delete_test J r w' = Inr (-1, w')"
proof -
  define w1 where "w1 = worker_info (we_timebuf en) (''genreate type '' @ ''PING'' @ '' test'')
      (worker_info (we_timebuf en) ''add new conf'' w)"
  define t where "t = Ping_config c (Ping_test_new (we_pid en) (we_ping en))"
  have i: "j_int J r ''id'' = Some i" "isMember J r ''id'' = Inr True" "asInt J r ''id'' = Inr i"
    using assms(5) by (simp_all add: ok_obj_def asInt_def isMember_def)
  have t: "t_id t = t_id (we_ping en)" by (simp add: t_def Ping_config_def Ping_test_new_def)
  have w1: "w_out w1 = w_out w" "w_test_map w1 = w_test_map w"
    by (simp_all add: w1_def worker_info_def)
  have "generate_test J en r (worker_info (we_timebuf en) ''add new conf'' w) = Inr (new_test (PingT t) w1)"
    using generate_ping [OF assms(5,6)] by (simp add: t_def w1_def)
  from handle_add [OF assms(2-4) this i(1)] obtain w' where h: "handle_msg J en d w = Inr (True, w')"
    "w_test_map w' = smap_put (obj_id (PingT t)) (w_next w1) (w_test_map w1)"
    "w_tests w' = (w_tests w1)(w_next w1 \<mapsto> PingT t)"
    "w_timers w' = (w_timers w1)(w_next w1 \<mapsto> obj_frenc (PingT t))"
    "w_out w' = w_out w1 @ [ack_msg i d]" by blast
  have "smap_find (w_test_map w') i = None"
    using h(2) t w1 assms(7,8) by (simp add: Test_get_id_def)
  then have "delete_test J r w' = Inr (-1, w')" using i by (simp add: delete_test_def)
  then show ?thesis
    using h t w1 ack_id_msg [OF assms(9), of d]
    by (intro exI [of _ w'] exI [of _ "w_next w1"] exI [of _ "ack_msg i d"] exI [of _ t])
      (simp add: Test_get_id_def)
qed

text \<open>An ADDCONF whose object has no id, or a type other than PING and UDP, hands \<open>add_test\<close> a
  null pointer: one bad configuration ends the worker.\<close>

theorem worker_add_unknown_crashes:
  assumes "cd_type d = MASTER_MSG_TYPE_ADDCONF" "msg_text d = Inr s" "j_parse J s = Some r"
    and "has_both J r ''type'' ''id'' = Inr False \<or>
      (\<exists>ty i. ok_obj J r ty i \<and> ty \<noteq> ''PING'' \<and> ty \<noteq> ''UDP'')"
  shows "handle_msg J en d w = Inl NullDeref"
  using assms
  by (auto simp: handle_msg_def Let_def generate_test_def add_test_def ok_obj_def has_both_def
      isMember_def asString_def)

text \<open>C35. Deleting a test leaves its pending events behind: when one of them fires, its callback
  uses the freed object.\<close>

theorem worker_delete_pending_crashes:
  assumes "worker_inv w" "ok_obj J r ty i" "smap_find (w_test_map w) i = Some a"
    and "w_events w ea = Some (ev, a)" "can_fire f ev"
  shows "\<exists>w'. delete_test J r w = Inr (0, w') \<and> w_tests w' a = None \<and> w_timers w' a = None \<and>
    smap_find (w_test_map w') i = None \<and>
    (\<forall>j. j \<noteq> i \<longrightarrow> smap_find (w_test_map w') j = smap_find (w_test_map w) j) \<and>
    worker_handle J en (EventDue ea f e) w' = Inl UseAfterFree"
proof -
  obtain t where "w_tests w a = Some t" using worker_invD(4) [OF assms(1,3)] by blast
  then show ?thesis
    using assms worker_invD(1) [OF assms(1)]
    by (simp add: delete_test_def ok_obj_def isMember_def asInt_def fire_event_def)
qed

subsection \<open>Results and redis\<close>

definition lpush :: "'c \<Rightarrow> string \<Rightarrow> 'c \<times> string list" where
  "lpush c s = (c, [''LPUSH'', ''proberlist'', cstr s])"

lemma do_calls_total:
  assumes "w_redis w = Some c" "c \<notin> set (w_freed w)"
  shows "\<exists>w'. do_calls tb own ta es w = Inr w' \<and> w_redis w' = Some c \<and> w_freed w' = w_freed w \<and>
    w_cmds w' = w_cmds w @ map (lpush c) (results_of es) \<and> w_test_map w' = w_test_map w \<and>
    w_tests w' = w_tests w \<and> w_timers w' = w_timers w"
  using assms
proof (induction es arbitrary: w)
  case (Cons x es)
  have "\<exists>w1. do_call tb own ta x w = Inr w1 \<and> w_redis w1 = Some c \<and> w_freed w1 = w_freed w \<and>
    w_cmds w1 = w_cmds w @ map (lpush c) (results_of [x]) \<and> w_test_map w1 = w_test_map w \<and>
    w_tests w1 = w_tests w \<and> w_timers w1 = w_timers w"
    using Cons.prems
    by (cases x) (auto simp: Let_def sendresult_def lpush_def worker_info_def
        set_icmp_unreach_test_event_def del_icmp_unreach_test_event_def split: option.splits)
  then obtain w1 where w1: "do_call tb own ta x w = Inr w1" "w_redis w1 = Some c" "w_freed w1 = w_freed w"
    "w_cmds w1 = w_cmds w @ map (lpush c) (results_of [x])" "w_test_map w1 = w_test_map w"
    "w_tests w1 = w_tests w" "w_timers w1 = w_timers w" by blast
  have "results_of (x # es) = results_of [x] @ results_of es" by (simp add: results_of_def)
  with Cons.IH [OF w1(2)] w1 Cons.prems(2) show ?case by (auto simp: do_calls_def)
qed (simp add: do_calls_def)

text \<open>A connection that cannot be used: none yet, or one that hiredis has freed.\<close>

definition redis_fault :: "'c worker \<Rightarrow> fault" where
  "redis_fault w = (if w_redis w = None then UninitRead else UseAfterFree)"

lemma do_calls_no_redis:
  "\<not> redis_live w \<Longrightarrow> results_of es \<noteq> [] \<Longrightarrow> do_calls tb own ta es w = Inl (redis_fault w)"
  unfolding redis_live_def redis_fault_def
proof (induction es arbitrary: w)
  case (Cons x es)
  show ?case
  proof (cases x)
    case (SendResult s)
    with Cons.prems show ?thesis by (auto simp: do_calls_def sendresult_def split: option.splits)
  next
    case (NewEvent ev key)
    with Cons show ?thesis
      by (cases key) (auto simp: do_calls_def Let_def set_icmp_unreach_test_event_def)
  next
    case FreeOwnEvent
    with Cons show ?thesis by (cases own) (auto simp: do_calls_def)
  qed (use Cons in \<open>auto simp: do_calls_def worker_info_def del_icmp_unreach_test_event_def\<close>)
qed simp

text \<open>C26. A pending event of a live test, in a worker connected to redis: its callback always
  completes if the test's own code does, and every result the test sends becomes exactly one
  \<open>LPUSH proberlist\<close> on that connection, in order; test table and timers are left alone.\<close>

theorem worker_results_reach_redis:
  assumes "w_redis w = Some c" "w_events w ea = Some (ev, ta)" "can_fire f ev"
    and "w_tests w ta = Some t" "event_callback J e f (ev_cb ev) t = Inr (t', es)"
    and "c \<notin> set (w_freed w)"
  shows "\<exists>w'. worker_handle J en (EventDue ea f e) w = Inr w' \<and>
    w_cmds w' = w_cmds w @ map (lpush c) (results_of es) \<and> w_tests w' = (w_tests w)(ta \<mapsto> t') \<and>
    w_test_map w' = w_test_map w \<and> w_timers w' = w_timers w"
proof -
  have "w_redis (put_test ta t' w) = Some c" "c \<notin> set (w_freed (put_test ta t' w))"
    using assms(1,6) by (simp_all add: put_test_def)
  from do_calls_total [OF this, of "we_timebuf en" "Some ea" ta es] show ?thesis
    using assms(2-5) by (auto simp: fire_event_def put_test_def)
qed

lemma event_result_no_redis:
  assumes "\<not> redis_live w" "w_events w ea = Some (ev, ta)" "can_fire f ev"
    and "w_tests w ta = Some t" "event_callback J e f (ev_cb ev) t = Inr (t', es)" "results_of es \<noteq> []"
  shows "worker_handle J en (EventDue ea f e) w = Inl (redis_fault w)"
proof -
  have "\<not> redis_live (put_test ta t' w)" using assms(1) by (simp add: put_test_def redis_live_def)
  from do_calls_no_redis [OF this assms(6), of "we_timebuf en" "Some ea" ta] show ?thesis
    using assms(2-5) by (simp add: fire_event_def put_test_def redis_fault_def)
qed

text \<open>Before the first REDISPORT message the connection pointer is indeterminate: the first
  result a test sends follows it. A worker the master sends no configuration at startup never
  gets that message.\<close>

theorem worker_result_without_redis:
  assumes "w_redis w = None" "w_events w ea = Some (ev, ta)" "can_fire f ev"
    and "w_tests w ta = Some t" "event_callback J e f (ev_cb ev) t = Inr (t', es)" "results_of es \<noteq> []"
  shows "worker_handle J en (EventDue ea f e) w = Inl UninitRead"
proof -
  have "\<not> redis_live w" "redis_fault w = UninitRead" using assms(1) by (simp_all add: redis_live_def redis_fault_def)
  with event_result_no_redis [OF _ assms(2-6)] show ?thesis by simp
qed

subsection \<open>Unreachable targets\<close>

text \<open>
  An ICMP port-unreachable message about a datagram to \<open>dst:port\<close>: outer IP header of
  \<open>4 * hl\<close> bytes, ICMP header, the inner IP header of \<open>4 * hl2\<close> bytes, the first UDP words with
  the ports in network order.
\<close>

definition unreach_packet ::
  "nat \<Rightarrow> 8 word list \<Rightarrow> 8 word list \<Rightarrow> nat \<Rightarrow> 8 word list \<Rightarrow> in_addr \<Rightarrow> 8 word list \<Rightarrow> 8 word list \<Rightarrow>
   nat \<Rightarrow> 8 word list" where
  "unreach_packet hl outer ck hl2 inner dst opts sport dport =
     (of_nat (64 + hl) # outer) @ ([3, 3] @ ck) @
     (of_nat (64 + hl2) # take 8 inner @ [17] @ drop 8 inner @
      (case dst of (a, b, c, d) \<Rightarrow> [a, b, c, d]) @ opts) @ sport @ rev (le_bytes 2 dport)"

definition unreach_shape ::
  "nat \<Rightarrow> 8 word list \<Rightarrow> 8 word list \<Rightarrow> nat \<Rightarrow> 8 word list \<Rightarrow> 8 word list \<Rightarrow> 8 word list \<Rightarrow> bool" where
  "unreach_shape hl outer ck hl2 inner opts sport \<longleftrightarrow>
     5 \<le> hl \<and> hl \<le> 15 \<and> length outer = 4 * hl - 1 \<and> length ck = 6 \<and> 5 \<le> hl2 \<and> hl2 \<le> 15 \<and>
     length inner = 14 \<and> length opts = 4 * hl2 - 20 \<and> length sport = 2"

lemma hlen_byte:
  assumes "hl \<le> 15" "length pre = off"
  shows "ip_hlen off (pre @ of_nat (64 + hl) # r) = Inr (4 * hl)"
proof -
  have "unat (of_nat (64 + hl) :: 8 word) = 64 + hl"
    using assms by (simp only: unat_of_nat) simp
  then have "unat (64 + word_of_nat hl :: 8 word) mod 16 = hl"
    using assms by simp presburger
  then show ?thesis using assms(2) by (simp add: ip_hlen_def byte_at_def bytes_at_def)
qed

lemma byte_at_append: "length pre = off \<Longrightarrow> byte_at off (pre @ b # r) = Inr (unat b)"
  by (simp add: byte_at_def bytes_at_def)

lemma ntohs_port:
  "unat (ntohs (of_nat (le_nat (rev (le_bytes 2 p))))) = p mod 65536"
proof -
  have "htons (of_nat p) = of_nat (le_nat (rev (le_bytes 2 (p mod 65536))))"
    by (simp add: htons_def unat_of_nat)
  moreover have "le_bytes 2 (p mod 65536) = le_bytes 2 p"
    using le_bytes_le_nat [of "le_bytes 2 p"] by (simp add: le_nat_le_bytes)
  ultimately have "of_nat (le_nat (rev (le_bytes 2 p))) = htons (of_nat p)" by simp
  then show ?thesis by (simp add: ntohs_htons unat_of_nat)
qed

lemma unreach_fields:
  assumes "unreach_shape hl outer ck hl2 inner opts sport" "dport < 65536"
    and b: "buf = unreach_packet hl outer ck hl2 inner (d1, d2, d3, d4) opts sport dport @ rest"
  shows "ip_hlen 0 buf = Inr (4 * hl)" "icmp_type (4 * hl) buf = Inr ICMP_UNREACH"
    "icmp_code (4 * hl) buf = Inr ICMP_UNREACH_PORT" "ip_hlen (4 * hl + 8) buf = Inr (4 * hl2)"
    "ip_p (4 * hl + 8) buf = Inr IPPROTO_UDP" "ip_dst (4 * hl + 8) buf = Inr (d1, d2, d3, d4)"
    "udp_dest (4 * hl + 8 + 4 * hl2) buf = Inr (of_nat (le_nat (rev (le_bytes 2 dport))))"
proof -
  note s = assms(1) [unfolded unreach_shape_def]
  define ih where "ih = of_nat (64 + hl2) # take 8 inner"
  define ip2 where "ip2 = ih @ [17] @ drop 8 inner @ [d1, d2, d3, d4] @ opts"
  define tl2 where "tl2 = sport @ rev (le_bytes 2 dport) @ rest"
  define oh where "oh = of_nat (64 + hl) # outer"
  have l: "length oh = 4 * hl" "length ih = 9" "length ip2 = 4 * hl2" "length ck = 6"
    "length (drop 8 inner) = 6" "length sport = 2"
    using s by (auto simp: oh_def ih_def ip2_def)
  have e: "buf = oh @ [3, 3] @ ck @ ip2 @ tl2"
    by (simp add: b unreach_packet_def oh_def ip2_def ih_def tl2_def)
  show "ip_hlen 0 buf = Inr (4 * hl)"
    using hlen_byte [of hl "[]" 0] s by (simp add: e oh_def)
  show "icmp_type (4 * hl) buf = Inr ICMP_UNREACH"
    using byte_at_append [OF l(1), of 3] by (simp add: e icmp_type_def ICMP_UNREACH_def)
  show "icmp_code (4 * hl) buf = Inr ICMP_UNREACH_PORT"
    using byte_at_append [of "oh @ [3]" "4 * hl + 1" 3] l(1)
    by (simp add: e icmp_code_def ICMP_UNREACH_PORT_def)
  show "ip_hlen (4 * hl + 8) buf = Inr (4 * hl2)"
    using hlen_byte [of hl2 "oh @ [3, 3] @ ck" "4 * hl + 8"] s l
    by (simp add: e ip2_def ih_def)
  show "ip_p (4 * hl + 8) buf = Inr IPPROTO_UDP"
    using byte_at_append [of "oh @ [3, 3] @ ck @ ih" "4 * hl + 8 + 9" 17] l
    by (simp add: e ip2_def ip_p_def IPPROTO_UDP_def)
  show "ip_dst (4 * hl + 8) buf = Inr (d1, d2, d3, d4)"
    using bytes_at_append [of "oh @ [3, 3] @ ck @ ih @ [17] @ drop 8 inner" "4 * hl + 8 + 16"
        "[d1, d2, d3, d4]" 4 "opts @ tl2"] l
    by (simp add: e ip2_def ip_dst_def)
  show "udp_dest (4 * hl + 8 + 4 * hl2) buf = Inr (of_nat (le_nat (rev (le_bytes 2 dport))))"
    using bytes_at_append [of "oh @ [3, 3] @ ck @ ip2 @ sport" "4 * hl + 8 + 4 * hl2 + 2"
        "rev (le_bytes 2 dport)" 2 rest] l
    by (simp add: e tl2_def udp_dest_def)
qed

lemma length_unreach_packet:
  "unreach_shape hl outer ck hl2 inner opts sport \<Longrightarrow>
   length (unreach_packet hl outer ck hl2 inner dst opts sport dport) = 4 * hl + 8 + 4 * hl2 + 4"
  by (cases dst) (simp add: unreach_packet_def unreach_shape_def)

lemma icmp_cb_target:
  assumes s: "unreach_shape hl outer ck hl2 inner opts sport" and p: "dport < 65536"
    and r: "e_recv e = Some (unreach_packet hl outer ck hl2 inner dst opts sport dport)"
  shows "worker_icmp_cb J tb e w = unreach_target J tb e (addr_key dst dport) w"
proof -
  obtain d1 d2 d3 d4 where d: "dst = (d1, d2, d3, d4)" by (cases dst)
  define P where "P = unreach_packet hl outer ck hl2 inner dst opts sport dport"
  define buf where "buf = P @ replicate (BUFSIZE - length P) 0"
  have l: "length P = 4 * hl + 8 + 4 * hl2 + 4" by (simp add: P_def length_unreach_packet [OF s])
  have le: "length P \<le> BUFSIZE" using s by (simp add: l unreach_shape_def BUFSIZE_def)
  have rv: "recv_into (e_recv e) (replicate BUFSIZE 0) = (int (4 * hl + 8 + 4 * hl2 + 4), buf)"
    using le l by (simp add: r recv_into_def Let_def buf_def flip: P_def)
  have b: "buf = unreach_packet hl outer ck hl2 inner (d1, d2, d3, d4) opts sport dport @
      replicate (BUFSIZE - length P) 0" by (simp add: buf_def P_def d)
  note f = unreach_fields [OF s p b]
  have "length (show_nat dport) \<le> 5" using p by (intro length_show_nat) simp_all
  then have sp: "sprintf_buf 6 (show_nat dport) = Inr (show_nat dport)" by (simp add: sprintf_buf_def)
  have hl2: "5 \<le> hl2" using s by (simp add: unreach_shape_def)
  show ?thesis
    unfolding worker_icmp_cb_def rv prod.case
    using hl2 p by (simp add: f sp ntohs_port addr_key_def d del: inet_ntop.simps)
qed

lemma unreach_found:
  assumes "get_icmp_unreach_test_event k w = Some ea" "w_events w ea = Some (ev, ta)"
    and "w_tests w ta = Some (UdpT t)" "w_redis w = Some c" "length k \<le> 200"
    and "c \<notin> set (w_freed w)"
  shows "\<exists>w'. unreach_target J tb e k w = Inr w' \<and>
    w_cmds w' = w_cmds w @ [lpush c (j_write J (udp_metric 0 t))] \<and> w_events w' ea = None \<and>
    CloseFd (u_sockfd t) \<in> set (w_calls w') \<and> w_icmp_map w' = w_icmp_map w"
proof -
  obtain es where es: "UDP_finish_unreach J k e t =
      Inr (TEST_STATUS_DONE, t\<lparr>u_donetime := e_time e, u_status := TEST_STATUS_DONE\<rparr>, es)"
    using UDP_finish_unreach_total [OF assms(5)] by blast
  then have "es = [CloseFd (u_sockfd t), LogInfo (''udp service '' @ cstr k @ '' is unreachable''),
      SendResult (j_write J (udp_metric 0 t))]"
    by (simp add: UDP_finish_unreach_eq)
  then show ?thesis
    using assms es
    by (simp add: unreach_target_def do_calls_def put_test_def sendresult_def worker_info_def lpush_def)
qed

text \<open>C16. The ICMP path: when the port-unreachable message for a target arrives while the target's
  UDP test is pending, exactly one result is pushed, with status 0, the test's socket is closed
  and the event deleted. The parsing of the message yields the very key the test registered.\<close>

theorem icmp_unreachable_reports:
  assumes "unreach_shape hl outer ck hl2 inner opts sport" "dport < 65536"
    and "e_recv e = Some (unreach_packet hl outer ck hl2 inner dst opts sport dport)"
    and "w_events w ea = Some (ev, ta)" "w_tests w ta = Some (UdpT t)" "w_redis w = Some c"
    and "sin_addr (u_servaddr t) = dst" "ntohs (sin_port (u_servaddr t)) = of_nat dport"
    and "get_readable_addr (u_servaddr t) = Inr k" "get_icmp_unreach_test_event k w = Some ea"
    and "c \<notin> set (w_freed w)"
  shows "\<exists>w'. worker_handle J en (IcmpIn e) w = Inr w' \<and>
    w_cmds w' = w_cmds w @ [lpush c (j_write J (udp_metric 0 t))] \<and> w_events w' ea = None \<and>
    CloseFd (u_sockfd t) \<in> set (w_calls w')"
proof -
  have k: "k = addr_key dst dport"
    using assms(2,7,8,9) by (simp add: get_readable_addr_total unat_of_nat)
  have "length (show_nat dport) \<le> 5" using assms(2) by (intro length_show_nat) simp_all
  then have "length k \<le> 200" using length_inet_ntop [of dst] by (simp add: k addr_key_def)
  from unreach_found [OF assms(10,4,5,6) this assms(11), of J "we_timebuf en" e] show ?thesis
    by (auto simp: icmp_cb_target [OF assms(1-3)] k)
qed

text \<open>C34. The handler of an ICMP message deletes the event but leaves its key in the table: the
  next port-unreachable message for the same target (routers send one per datagram, and every
  period sends a datagram) uses the freed event.\<close>

theorem icmp_unreachable_twice_crashes:
  assumes "unreach_shape hl outer ck hl2 inner opts sport" "dport < 65536"
    and "e_recv e = Some (unreach_packet hl outer ck hl2 inner dst opts sport dport)"
    and "e_recv e' = e_recv e"
    and "get_icmp_unreach_test_event (addr_key dst dport) w = Some ea"
    and "worker_handle J en (IcmpIn e) w = Inr w'"
  shows "worker_handle J en (IcmpIn e') w' = Inl UseAfterFree"
proof -
  have calls: "do_calls tb own ta fs u = Inr u' \<Longrightarrow> \<forall>x \<in> set fs. \<forall>key. x \<noteq> Unregister key \<Longrightarrow>
      \<forall>x \<in> set fs. \<not> is_new_event x \<Longrightarrow> w_icmp_map u' = w_icmp_map u \<and>
      (\<forall>a. w_events u a = None \<longrightarrow> w_events u' a = None)" for tb own ta fs u u'
  proof (induction fs arbitrary: u)
    case (Cons x fs)
    then obtain u1 where u1: "do_call tb own ta x u = Inr u1" "do_calls tb own ta fs u1 = Inr u'"
      by (auto simp: do_calls_def)
    moreover have "w_icmp_map u1 = w_icmp_map u \<and> (\<forall>a. w_events u a = None \<longrightarrow> w_events u1 a = None)"
      using u1(1) Cons.prems(2,3) by (cases x) (auto simp: worker_info_def split: option.splits)
    ultimately show ?case using Cons.IH [OF u1(2)] Cons.prems(2,3) by simp
  qed (simp add: do_calls_def)
  have e': "e_recv e' = Some (unreach_packet hl outer ck hl2 inner dst opts sport dport)"
    using assms(3,4) by simp
  note c = icmp_cb_target [OF assms(1-3)] icmp_cb_target [OF assms(1,2) e']
  have "unreach_target J (we_timebuf en) e (addr_key dst dport) w = Inr w'"
    using assms(6) by (simp add: c(1))
  then obtain ev ta t t' es where e: "w_tests w ta = Some t"
    "finish_addr J (addr_key dst dport) e t = Inr (t', es)"
    "do_calls (we_timebuf en) (Some ea) ta (es @ [FreeOwnEvent]) (put_test ta t' w) = Inr w'"
    using assms(5) by (auto simp: unreach_target_def)
  then obtain x where x: "do_calls (we_timebuf en) (Some ea) ta es (put_test ta t' w) = Inr x"
    "w' = x\<lparr>w_events := (w_events x)(ea := None)\<rparr>" by (auto simp: do_calls_def)
  have "\<forall>x \<in> set es. (\<forall>key. x \<noteq> Unregister key) \<and> \<not> is_new_event x"
    using e(2) by (cases t) (auto simp: UDP_finish_unreach_eq)
  with calls [OF x(1)] have "w_icmp_map w' = w_icmp_map w" "w_events w' ea = None"
    using x(2) by (auto simp: put_test_def)
  then show ?thesis
    using assms(5) by (simp add: c(2) unreach_target_def get_icmp_unreach_test_event_def)
qed

text \<open>Two tests of the same target share one key: the timeout of the first removes the entry
  of the second, so that a port-unreachable message for the target is ignored while the second
  is still pending, and its port will be reported as working.\<close>

theorem shared_target_forgotten:
  assumes "worker_inv w" "get_icmp_unreach_test_event k w = Some ea2" "w_events w ea2 = Some (ev2, tb)"
    and "w_events w ea1 = Some (ev1, ta)" "ea1 \<noteq> ea2" "ev_cb ev1 = UdpTimeoutCb" "can_fire f ev1"
    and "w_tests w ta = Some (UdpT t1)" "u_key t1 = k" "host_fits t1" "w_redis w = Some c"
    and "c \<notin> set (w_freed w)"
  shows "\<exists>w'. worker_handle J en (EventDue ea1 f e) w = Inr w' \<and>
    w_cmds w' = w_cmds w @ [lpush c (j_write J (udp_metric 1 t1))] \<and>
    w_events w' ea2 = Some (ev2, tb) \<and> get_icmp_unreach_test_event k w' = None \<and>
    unreach_target J tb' e' k w' = Inr w'"
proof -
  obtain es where es: "UDP_finish J e t1 =
      Inr (TEST_STATUS_DONE, t1\<lparr>u_donetime := e_time e, u_status := TEST_STATUS_DONE\<rparr>, es)"
    using UDP_finish_total [OF assms(10)] by blast
  then have es': "es = [CloseFd (u_sockfd t1),
      LogInfo (''udp service '' @ cstr (u_host t1) @ '':'' @ show_int (u_port t1) @ '' is ok''),
      SendResult (j_write J (udp_metric 1 t1))]" by (simp add: UDP_finish_eq)
  have r: "sendresult (Some c) (w_freed w) s = Inr (lpush c s)" for s
    using assms(12) by (simp add: sendresult_def lpush_def)
  let ?t = "t1\<lparr>u_donetime := e_time e, u_status := TEST_STATUS_DONE\<rparr>"
  have cb: "event_callback J e f (ev_cb ev1) (UdpT t1) = Inr (UdpT ?t, Unregister k # es @ [FreeOwnEvent])"
    using assms(6,9) es by (simp add: udp_timeout_callback_fn_def)
  have h: "worker_handle J en (EventDue ea1 f e) w =
      do_calls (we_timebuf en) (Some ea1) ta (Unregister k # es @ [FreeOwnEvent]) (put_test ta (UdpT ?t) w)"
    using assms(4,7,8) by (simp add: fire_event_def cb)
  show ?thesis
    unfolding h es' using assms(3,5,11) r worker_invD(2) [OF assms(1)]
    by (simp add: do_calls_def put_test_def worker_info_def del_icmp_unreach_test_event_def
        get_icmp_unreach_test_event_def unreach_target_def)
qed

subsection \<open>The stream of messages\<close>

text \<open>C14. However the operating system cuts the master's bytes into reads, the worker ends in the
  state it reaches by handling the messages one by one, as long as the JSON texts parse.\<close>

theorem worker_stream_chunks:
  assumes "list_all cd_valid ms" "list_all (parses J) ms" "concat cs = concat (map cd_bytes ms)"
    and "w_inbuf w = []" "deliver J en ms w = Inr w'"
  shows "fold_res (worker_handle J en) (map ChannelIn cs) w = Inr w'"
proof -
  have df: "deframe channel_data_size cd_of_bytes (concat cs) = (ms, [])"
    using chan.deframe_encoded [OF assms(1), of "[]"] chan.size_pos by (simp add: assms(3))
  have "w_inbuf w' = []" using deliver_inbuf [OF assms(5)] assms(4) by simp
  then have "w'\<lparr>w_inbuf := []\<rparr> = w'" by (cases w') simp
  then show ?thesis
    using channel_chunks [OF assms(4), of J en cs w'] assms(2,5) by (simp add: df)
qed

text \<open>A message whose text does not parse makes the handler return: the complete messages
  behind it stay in the buffer, unhandled, until the next bytes arrive.\<close>

theorem worker_bad_json_delays:
  assumes "cd_valid d" "cd_type d = MASTER_MSG_TYPE_ADDCONF \<or> cd_type d = MASTER_MSG_TYPE_DELCONF"
    and "msg_text d = Inr s" "j_parse J s = None" "w_inbuf w = []" "list_all cd_valid ms"
  shows "\<exists>w'. worker_handle J en (ChannelIn (concat (map cd_bytes (d # ms)))) w = Inr w' \<and>
    w_inbuf w' = concat (map cd_bytes ms) \<and> w_tests w' = w_tests w \<and>
    w_test_map w' = w_test_map w \<and> w_out w' = w_out w"
proof -
  have l: "length (cd_bytes d) = channel_data_size" by (rule chan.length_enc [OF assms(1)])
  obtain w1 where h: "handle_msg J en d w = Inr (False, w1)"
    and w1: "w1 = w \<or> w1 = worker_info (we_timebuf en) ''add new conf'' w"
    using assms(2)
  proof
    assume "cd_type d = MASTER_MSG_TYPE_ADDCONF"
    with assms(3,4) show thesis
      by (intro that [of "worker_info (we_timebuf en) ''add new conf'' w"]) (simp_all add: handle_msg_def Let_def)
  next
    assume "cd_type d = MASTER_MSG_TYPE_DELCONF"
    with assms(3,4) show thesis by (intro that [of w]) (simp_all add: handle_msg_def msg_type_defs)
  qed
  have f: "w_tests w1 = w_tests w" "w_test_map w1 = w_test_map w" "w_out w1 = w_out w"
    using w1 by (auto simp: worker_info_def)
  have "w\<lparr>w_inbuf := []\<rparr> = w" using assms(5) by (cases w) simp
  then have "drain J en (cd_bytes d @ concat (map cd_bytes ms)) (w\<lparr>w_inbuf := []\<rparr>) =
      Inr (concat (map cd_bytes ms), w1)"
    using h l chan.dec_enc [OF assms(1)] by (simp add: drain.simps [of J en "cd_bytes d @ _"])
  then show ?thesis
    using f assms(5) by (simp add: deal_channel_data_def)
qed

text \<open>C9. Every state a worker reaches from its creation keeps the invariant: each id of the table
  leads to a live test with this id and an armed timer, and no callback ever casts its test to
  the wrong class.\<close>

theorem worker_reachable_inv:
  assumes "fold_res (\<lambda>(en, i). worker_handle J en i) is (Worker_new lg junk) = Inr w"
  shows "worker_inv w \<and>
    (\<forall>i a. smap_find (w_test_map w) i = Some a \<longrightarrow>
       (\<exists>t. w_tests w a = Some t \<and> obj_id t = i) \<and> w_timers w a \<noteq> None) \<and>
    (\<forall>ea ev a t. w_events w ea = Some (ev, a) \<longrightarrow> w_tests w a = Some t \<longrightarrow> cb_fits (ev_cb ev) t)"
proof -
  have "worker_inv w" using wm.run_inv [OF Worker_new_inv assms] .
  then show ?thesis using worker_invD(3,4,8) by blast
qed

subsection \<open>A concrete worker for the witnesses\<close>

definition demo_we :: "nat worker_env" where
  "demo_we = \<lparr>we_timebuf = ''t'', we_pid = 42,
     we_config = \<lparr>cf_id = 0, cf_host = [], cf_port = 0, cf_times = 0, cf_ttl = 0, cf_frenc = 0,
       cf_timeout = 0, cf_interval = 0, cf_type = []\<rparr>,
     we_ping = \<lparr>t_id = 999, t_frenc = 0, t_name = [], sockfd = 0, host = [], ping_times = 0,
       nowtimes = 0, nowrecvtimes = 0, ttl = 0, recvtime = \<lparr>tv_sec = 0, tv_usec = 0\<rparr>,
       servaddr = None, status = 0, recvbuf = [], nsent = 0, starttime = 0, donetime = 0,
       data_vec = [], pid = 42, recvlen = 0, timeout = 0, interval = 0\<rparr>,
     we_udp = demo_udp, we_redis = (\<lambda>k port. Some 1), we_redis_err = (\<lambda>c. False)\<rparr>"

definition demo_worker0 :: "nat worker" where
  "demo_worker0 = Worker_new \<lparr>lg_level = 2, logfilefd = 3, logfile = ''l''\<rparr>
     \<lparr>w_test_map = [], w_icmp_map = [], w_tests = Map.empty, w_events = Map.empty,
      w_timers = Map.empty, w_next = 0, w_logger = \<lparr>lg_level = 2, logfilefd = 3, logfile = ''l''\<rparr>,
      w_redisport = 0, w_redis = None, w_attached = [], w_freed = [], w_connects = 0, w_stdout = [], w_inbuf = [], w_out = [], w_cmds = [], w_log = [],
      w_calls = []\<rparr>"

text \<open>A UDP test under id 5 at address 0, its event at address 1 under the key of its target.\<close>

definition demo_target :: udp_test where
  "demo_target = demo_udp\<lparr>u_servaddr := \<lparr>sin_addr = (10, 0, 0, 1), sin_port = htons 9002\<rparr>,
     u_sockfd := 9\<rparr>"

definition demo_worker :: "nat worker" where
  "demo_worker = demo_worker0\<lparr>w_test_map := [(5, 0)], w_tests := [0 \<mapsto> UdpT demo_target],
     w_timers := [0 \<mapsto> 60], w_events := [1 \<mapsto> (udp_event demo_target, 0)],
     w_icmp_map := [(u_key demo_target, 1)], w_next := 2, w_redis := Some 1\<rparr>"

lemma demo_worker0_simps [simp]:
  "w_test_map demo_worker0 = []" "w_icmp_map demo_worker0 = []" "w_tests demo_worker0 = Map.empty"
  "w_events demo_worker0 = Map.empty" "w_timers demo_worker0 = Map.empty" "w_next demo_worker0 = 0"
  "w_redis demo_worker0 = None" "w_inbuf demo_worker0 = []" "w_out demo_worker0 = []"
  "w_cmds demo_worker0 = []" "w_freed demo_worker0 = []"
  by (simp_all add: demo_worker0_def Worker_new_def)

lemma demo_worker_inv: "worker_inv demo_worker"
  by (rule worker_invI)
    (auto simp: demo_worker_def demo_target_def demo_udp_def Test_get_id_def smap_ok_def udp_event_def
      split: if_splits)

lemma demo_obj:
  "ok_obj demo_J (demo_root ''u'') ''UDP'' 5" "ok_obj demo_J (demo_root ''p'') ''PING'' 3"
  "ok_obj demo_J (demo_root ''h'') ''HTTP'' 4"
  by (simp_all add: ok_obj_def demo_J_def table_json_def demo_root_def demo_texts_def)

lemmas demo_member_simps = demo_J_def table_json_def demo_root_def demo_texts_def cfg_int_def
  cfg_str_def isMember_def asInt_def asString_def

lemma demo_udp_conf: "\<exists>c. udp_conf demo_J junk (demo_root ''u'') = Inr c"
  by (simp add: udp_conf_def demo_member_simps)

lemma demo_ping_conf: "\<exists>c. ping_conf demo_J junk (demo_root ''p'') = Inr c"
  by (simp add: ping_conf_def demo_member_simps)

definition demo_add :: "string \<Rightarrow> channel_data" where
  "demo_add s = mk_channel_data MASTER_MSG_TYPE_ADDCONF s"

lemma demo_add_text: "length s < MAX_MSG_LEN \<Longrightarrow> NUL \<notin> set s \<Longrightarrow> msg_text (demo_add s) = Inr s"
  unfolding demo_add_def by (rule msg_text_short)

lemma demo_add_type [simp]: "cd_type (demo_add s) = MASTER_MSG_TYPE_ADDCONF"
  by (simp add: demo_add_def)

lemma demo_add_valid: "cd_valid (demo_add s)"
  by (simp add: demo_add_def cd_valid_mk msg_type_defs int_range_def)

theorem worker_add_udp_witness:
  "\<exists>w' a t. handle_msg demo_J demo_we (demo_add ''u'') demo_worker0 = Inr (True, w') \<and>
     smap_find (w_test_map w') 5 = Some a \<and> w_tests w' a = Some (UdpT t) \<and> t_id t = 5"
proof -
  obtain c where c: "udp_conf demo_J (we_config demo_we) (demo_root ''u'') = Inr c"
    using demo_udp_conf by blast
  have "msg_text (demo_add ''u'') = Inr ''u''" by (rule demo_add_text) (simp_all add: MAX_MSG_LEN_def)
  from worker_add_udp [OF demo_add_type this demo_parse(1) demo_obj(1) c, of demo_worker0]
  show ?thesis by (auto simp: int_range_def)
qed

theorem worker_add_ping_loses_id_witness:
  "\<exists>w'. handle_msg demo_J demo_we (demo_add ''p'') demo_worker = Inr (True, w') \<and>
     delete_test demo_J (demo_root ''p'') w' = Inr (-1, w')"
proof -
  obtain c where c: "ping_conf demo_J (we_config demo_we) (demo_root ''p'') = Inr c"
    using demo_ping_conf by blast
  have m: "msg_text (demo_add ''p'') = Inr ''p''" by (rule demo_add_text) (simp_all add: MAX_MSG_LEN_def)
  have "t_id (we_ping demo_we) \<noteq> 3" "smap_find (w_test_map demo_worker) 3 = None" "int_range 3"
    by (simp_all add: demo_we_def demo_worker_def int_range_def)
  from worker_add_ping_loses_id [OF demo_worker_inv demo_add_type m demo_parse(2) demo_obj(2) c this]
  show ?thesis by blast
qed

theorem worker_add_unknown_crashes_witness:
  "handle_msg demo_J demo_we (demo_add ''h'') demo_worker0 = Inl NullDeref"
proof -
  have m: "msg_text (demo_add ''h'') = Inr ''h''" by (rule demo_add_text) (simp_all add: MAX_MSG_LEN_def)
  have "\<exists>ty i. ok_obj demo_J (demo_root ''h'') ty i \<and> ty \<noteq> ''PING'' \<and> ty \<noteq> ''UDP''"
    using demo_obj(3) by (intro exI [of _ "''HTTP''"] exI [of _ 4]) simp
  with worker_add_unknown_crashes [OF demo_add_type m demo_parse(3)] show ?thesis by blast
qed

theorem worker_delete_pending_crashes_witness:
  "\<exists>w'. delete_test demo_J (demo_root ''u'') demo_worker = Inr (0, w') \<and>
     worker_handle demo_J demo_we (EventDue 1 EvTimeout demo_udp_env) w' = Inl UseAfterFree"
proof -
  have "smap_find (w_test_map demo_worker) 5 = Some 0"
    "w_events demo_worker 1 = Some (udp_event demo_target, 0)"
    "can_fire EvTimeout (udp_event demo_target)"
    by (simp_all add: demo_worker_def can_fire_def udp_event_def)
  from worker_delete_pending_crashes [OF demo_worker_inv demo_obj(1) this] show ?thesis by blast
qed

text \<open>The timeout of the demonstration's event, and the message about its target.\<close>

lemma demo_target_facts:
  "w_events demo_worker 1 = Some (udp_event demo_target, 0)"
  "w_tests demo_worker 0 = Some (UdpT demo_target)" "w_redis demo_worker = Some 1" "(1 :: nat) \<notin> set (w_freed demo_worker)"
  "can_fire EvTimeout (udp_event demo_target)" "ev_cb (udp_event demo_target) = UdpTimeoutCb"
  "get_icmp_unreach_test_event (u_key demo_target) demo_worker = Some 1"
  by (simp_all add: demo_worker_def can_fire_def udp_event_def get_icmp_unreach_test_event_def)

lemma demo_target_fits: "host_fits demo_target"
  using demo_udp_fits by (simp add: host_fits_def demo_target_def)

lemma demo_target_timeout:
  "\<exists>t' es. event_callback demo_J demo_udp_env EvTimeout (ev_cb (udp_event demo_target))
     (UdpT demo_target) = Inr (t', es) \<and> length (results_of es) = 1"
proof -
  obtain es where fin: "UDP_finish demo_J demo_udp_env demo_target = Inr (TEST_STATUS_DONE,
      demo_target\<lparr>u_donetime := e_time demo_udp_env, u_status := TEST_STATUS_DONE\<rparr>, es)"
    using UDP_finish_total [OF demo_target_fits] by blast
  then show ?thesis
    using udp.finish_reports [OF fin]
    by (simp add: demo_target_facts(6) udp_timeout_callback_fn_def)
qed

definition demo_unreach :: "8 word list" where
  "demo_unreach = unreach_packet 5 (replicate 19 0) (replicate 6 0) 5 (replicate 14 0)
     (10, 0, 0, 1) [] [0, 7] 9002"

lemma demo_unreach_shape:
  "unreach_shape 5 (replicate 19 0) (replicate 6 0) 5 (replicate 14 0) [] [0, 7]"
  by (simp add: unreach_shape_def)

lemma demo_target_key: "u_key demo_target = addr_key (10, 0, 0, 1) 9002"
proof -
  have "unat (9002 :: 16 word) = 9002" by simp
  then show ?thesis by (simp add: u_key_def demo_target_def ntohs_htons del: inet_ntop.simps)
qed

theorem worker_results_reach_redis_witness:
  "\<exists>w'. worker_handle demo_J demo_we (EventDue 1 EvTimeout demo_udp_env) demo_worker = Inr w' \<and>
     length (w_cmds w') = 1"
proof -
  obtain t' es where c: "event_callback demo_J demo_udp_env EvTimeout (ev_cb (udp_event demo_target))
     (UdpT demo_target) = Inr (t', es)" and l: "length (results_of es) = 1"
    using demo_target_timeout by blast
  have "w_cmds demo_worker = []" by (simp add: demo_worker_def)
  with worker_results_reach_redis [OF demo_target_facts(3,1,5,2) c demo_target_facts(4), of demo_we] l
  show ?thesis by auto
qed

theorem worker_result_without_redis_witness:
  "worker_handle demo_J demo_we (EventDue 1 EvTimeout demo_udp_env) (demo_worker\<lparr>w_redis := None\<rparr>) =
     Inl UninitRead"
proof -
  obtain t' es where c: "event_callback demo_J demo_udp_env EvTimeout (ev_cb (udp_event demo_target))
     (UdpT demo_target) = Inr (t', es)" and l: "length (results_of es) = 1"
    using demo_target_timeout by blast
  have ne: "results_of es \<noteq> []" using l by auto
  have f: "w_redis (demo_worker\<lparr>w_redis := None\<rparr>) = None"
    "w_events (demo_worker\<lparr>w_redis := None\<rparr>) 1 = Some (udp_event demo_target, 0)"
    "w_tests (demo_worker\<lparr>w_redis := None\<rparr>) 0 = Some (UdpT demo_target)"
    using demo_target_facts by simp_all
  show ?thesis
    by (rule worker_result_without_redis [OF f(1,2) demo_target_facts(5) f(3) c ne])
qed

lemma demo_unreach_handled:
  "\<exists>w'. worker_handle demo_J demo_we (IcmpIn (demo_udp_env\<lparr>e_recv := Some demo_unreach\<rparr>)) demo_worker = Inr w'"
proof -
  have "length (show_nat 9002) \<le> 5" by (intro length_show_nat) simp_all
  then have "length (u_key demo_target) \<le> 200"
    using length_inet_ntop [of "(10, 0, 0, 1)"]
    by (simp add: demo_target_key addr_key_def del: inet_ntop.simps)
  from unreach_found [OF demo_target_facts(7,1,2,3) this demo_target_facts(4), of demo_J "we_timebuf demo_we"]
  obtain w' where "unreach_target demo_J (we_timebuf demo_we) (demo_udp_env\<lparr>e_recv := Some demo_unreach\<rparr>)
      (addr_key (10, 0, 0, 1) 9002) demo_worker = Inr w'"
    unfolding demo_target_key by blast
  moreover have "worker_icmp_cb demo_J (we_timebuf demo_we) (demo_udp_env\<lparr>e_recv := Some demo_unreach\<rparr>)
      demo_worker = unreach_target demo_J (we_timebuf demo_we)
        (demo_udp_env\<lparr>e_recv := Some demo_unreach\<rparr>) (addr_key (10, 0, 0, 1) 9002) demo_worker"
    by (rule icmp_cb_target [OF demo_unreach_shape]) (simp_all add: demo_unreach_def)
  ultimately show ?thesis by (simp only: worker_handle.simps) blast
qed

theorem icmp_unreachable_reports_witness:
  "\<exists>w'. worker_handle demo_J demo_we (IcmpIn (demo_udp_env\<lparr>e_recv := Some demo_unreach\<rparr>)) demo_worker =
       Inr w' \<and> length (w_cmds w') = 1 \<and> w_events w' 1 = None"
proof -
  have f: "sin_addr (u_servaddr demo_target) = (10, 0, 0, 1)"
    "ntohs (sin_port (u_servaddr demo_target)) = of_nat 9002" "w_cmds demo_worker = []"
    by (simp_all add: demo_target_def ntohs_htons demo_worker_def)
  have r: "e_recv (demo_udp_env\<lparr>e_recv := Some demo_unreach\<rparr>) = Some (unreach_packet 5 (replicate 19 0)
      (replicate 6 0) 5 (replicate 14 0) (10, 0, 0, 1) [] [0, 7] 9002)"
    by (simp add: demo_unreach_def)
  show ?thesis
    using icmp_unreachable_reports [OF demo_unreach_shape _ r demo_target_facts(1,2,3) f(1,2)
        readable_u_key demo_target_facts(7,4), of demo_J demo_we] f(3) by auto
qed

theorem icmp_unreachable_twice_crashes_witness:
  "\<exists>w'. worker_handle demo_J demo_we (IcmpIn (demo_udp_env\<lparr>e_recv := Some demo_unreach\<rparr>)) demo_worker =
       Inr w' \<and>
     worker_handle demo_J demo_we (IcmpIn (demo_udp_env\<lparr>e_recv := Some demo_unreach\<rparr>)) w' =
       Inl UseAfterFree"
proof -
  let ?e = "demo_udp_env\<lparr>e_recv := Some demo_unreach\<rparr>"
  obtain w' where w': "worker_handle demo_J demo_we (IcmpIn ?e) demo_worker = Inr w'"
    using demo_unreach_handled by blast
  have r: "e_recv ?e = Some (unreach_packet 5 (replicate 19 0)
      (replicate 6 0) 5 (replicate 14 0) (10, 0, 0, 1) [] [0, 7] 9002)" "(9002 :: nat) < 65536"
    by (simp_all add: demo_unreach_def)
  from icmp_unreachable_twice_crashes [OF demo_unreach_shape r(2,1) refl
      demo_target_facts(7) [unfolded demo_target_key] w'] w' show ?thesis by blast
qed

text \<open>A second event of the same target, at address 3, pending behind the first.\<close>

theorem shared_target_forgotten_witness:
  "\<exists>w'. worker_handle demo_J demo_we (EventDue 1 EvTimeout demo_udp_env)
      (demo_worker\<lparr>w_events := [1 \<mapsto> (udp_event demo_target, 0), 3 \<mapsto> (udp_event demo_target, 0)],
         w_icmp_map := [(u_key demo_target, 3)], w_next := 4\<rparr>) = Inr w' \<and>
     w_events w' 3 \<noteq> None \<and> get_icmp_unreach_test_event (u_key demo_target) w' = None"
proof -
  define w where "w = demo_worker\<lparr>w_events := [1 \<mapsto> (udp_event demo_target, 0), 3 \<mapsto> (udp_event demo_target, 0)],
         w_icmp_map := [(u_key demo_target, 3)], w_next := 4\<rparr>"
  have inv: "worker_inv w"
    using worker_invD [OF demo_worker_inv]
    by (intro worker_invI) (auto simp: w_def demo_worker_def udp_event_def smap_ok_def split: if_splits)
  have f: "get_icmp_unreach_test_event (u_key demo_target) w = Some 3"
    "w_events w 3 = Some (udp_event demo_target, 0)" "w_events w 1 = Some (udp_event demo_target, 0)"
    "(1 :: nat) \<noteq> 3" "w_tests w 0 = Some (UdpT demo_target)" "w_redis w = Some 1" "1 \<notin> set (w_freed w)"
    using demo_target_facts by (simp_all add: w_def get_icmp_unreach_test_event_def)
  from shared_target_forgotten [OF inv f(1-4) demo_target_facts(6,5) f(5) refl demo_target_fits f(6,7)]
  show ?thesis unfolding w_def by fastforce
qed

theorem worker_stream_chunks_witness:
  "\<exists>w' a b. cd_bytes (demo_add ''u'') = a @ b \<and> length a = 500 \<and>
     fold_res (worker_handle demo_J demo_we) [ChannelIn a, ChannelIn b] demo_worker0 = Inr w'"
proof -
  have m: "msg_text (demo_add ''u'') = Inr ''u''" by (rule demo_add_text) (simp_all add: MAX_MSG_LEN_def)
  obtain c where c: "udp_conf demo_J (we_config demo_we) (demo_root ''u'') = Inr c"
    using demo_udp_conf by blast
  have i: "j_int demo_J (demo_root ''u'') ''id'' = Some 5" using demo_obj(1) by (simp add: ok_obj_def)
  obtain w' where w': "handle_msg demo_J demo_we (demo_add ''u'') demo_worker0 = Inr (True, w')"
    using handle_add [OF demo_add_type m demo_parse(1) generate_udp [OF demo_obj(1) c] i] by blast
  then have d: "deliver demo_J demo_we [demo_add ''u''] demo_worker0 = Inr w'"
    by (simp add: deliver_def deliver1_def)
  define a b where "a = take 500 (cd_bytes (demo_add ''u''))" and "b = drop 500 (cd_bytes (demo_add ''u''))"
  have "length (cd_bytes (demo_add ''u'')) = channel_data_size"
    by (rule chan.length_enc [OF demo_add_valid])
  then have ab: "cd_bytes (demo_add ''u'') = a @ b" "length a = 500"
    by (simp_all add: a_def b_def channel_data_size_def MAX_MSG_LEN_def)
  have p: "list_all (parses demo_J) [demo_add ''u'']"
    using m demo_parse(1) by (simp add: parses_def)
  from worker_stream_chunks [of "[demo_add ''u'']" demo_J "[a, b]" demo_worker0 demo_we w'] p d ab
    demo_add_valid [of "''u''"] show ?thesis by auto
qed

theorem worker_bad_json_delays_witness:
  "\<exists>w'. worker_handle demo_J demo_we (ChannelIn (cd_bytes (demo_add ''?'') @ cd_bytes (demo_add ''u'')))
       demo_worker0 = Inr w' \<and> w_inbuf w' = cd_bytes (demo_add ''u'') \<and> w_test_map w' = []"
proof -
  have "msg_text (demo_add ''?'') = Inr ''?''" by (rule demo_add_text) (simp_all add: MAX_MSG_LEN_def)
  from worker_bad_json_delays [OF demo_add_valid _ this demo_parse(4), of demo_worker0 "[demo_add ''u'']" demo_we]
  show ?thesis using demo_add_valid by auto
qed

theorem worker_reachable_inv_witness:
  "\<exists>w. fold_res (\<lambda>(en, i). worker_handle demo_J en i)
      [(demo_we, ChannelIn (cd_bytes (demo_add ''u''))), (demo_we, FdIn RecvErr RecvErr (1, 1, 8))]
      demo_worker0 = Inr w \<and> worker_inv w \<and> smap_find (w_test_map w) 5 = Some 0"
proof -
  have m: "msg_text (demo_add ''u'') = Inr ''u''" by (rule demo_add_text) (simp_all add: MAX_MSG_LEN_def)
  obtain c where c: "udp_conf demo_J (we_config demo_we) (demo_root ''u'') = Inr c"
    using demo_udp_conf by blast
  have i: "j_int demo_J (demo_root ''u'') ''id'' = Some 5" "udp_conf demo_J (we_config demo_we) (demo_root ''u'') = Inr c \<Longrightarrow> cf_id c = 5"
    using demo_obj(1) by (auto simp: ok_obj_def udp_conf_def demo_member_simps config_setters)
  obtain w1 where w1: "handle_msg demo_J demo_we (demo_add ''u'') demo_worker0 = Inr (True, w1)"
    "smap_find (w_test_map w1) 5 = Some 0"
    using handle_add [OF demo_add_type m demo_parse(1) generate_udp [OF demo_obj(1) c] i(1), of demo_worker0] i(2) [OF c]
    by (auto simp: worker_info_def UDP_config_def Test_get_id_def)
  have df: "deframe channel_data_size cd_of_bytes (cd_bytes (demo_add ''u'')) = ([demo_add ''u''], [])"
    using chan.deframe_encoded [of "[demo_add ''u'']" "[]"] chan.size_pos demo_add_valid by simp
  have p: "list_all (parses demo_J) [demo_add ''u'']"
    using m demo_parse(1) by (simp add: parses_def)
  have "fold_res (worker_handle demo_J demo_we) (map ChannelIn [cd_bytes (demo_add ''u'')]) demo_worker0 =
      Inr (w1\<lparr>w_inbuf := []\<rparr>)"
    using channel_chunks [of demo_worker0 demo_J demo_we "[cd_bytes (demo_add ''u'')]" w1] p w1(1)
    by (simp add: df deliver_def deliver1_def del: worker_handle.simps)
  then obtain w where w: "fold_res (\<lambda>(en, i). worker_handle demo_J en i)
      [(demo_we, ChannelIn (cd_bytes (demo_add ''u''))), (demo_we, FdIn RecvErr RecvErr (1, 1, 8))]
      demo_worker0 = Inr w" "w_test_map w = w_test_map w1"
    by (auto simp: worker_channel_1_cb_def split_log_fd_def)
  from worker_reachable_inv [OF w(1) [unfolded demo_worker0_def]] w w1(2) show ?thesis by auto
qed

end
