(* ===== verification/System.thy ===== *)
theory System
  imports Master_Store Worker_Props
begin

section \<open>Master and workers together\<close>

text \<open>
  A request travels from the HTTP handler of the master through the bytes of a channel to the
  tables of a worker, and its acknowledgement back. The properties here compose the handlers of
  both processes over the byte stream between them: what one writes is what the other reads,
  whatever the reads are.
\<close>

subsection \<open>One message over a channel\<close>

lemma message_arrives:
  assumes "int_range ty" "parses J (mk_channel_data ty s)" "w_inbuf w = []"
    and "handle_msg J en (mk_channel_data ty s) w = Inr (go, w')"
    and "concat cs = snd (send_msg fd ty s)"
  shows "fold_res (worker_handle J en) (map ChannelIn cs) w = Inr w'"
proof -
  have v: "cd_valid (mk_channel_data ty s)" by (rule cd_valid_mk [OF assms(1)])
  have df: "deframe channel_data_size cd_of_bytes (concat cs) = ([mk_channel_data ty s], [])"
    using chan.deframe_encoded [of "[mk_channel_data ty s]" "[]"] v chan.size_pos assms(5)
    by (simp add: send_msg_def)
  have d: "deliver J en [mk_channel_data ty s] w = Inr w'"
    using assms(4) by (simp add: deliver_def deliver1_def)
  have "w_inbuf w' = []" using handle_msg_inbuf [OF assms(4)] assms(3) by simp
  then have "w'\<lparr>w_inbuf := []\<rparr> = w'" by (cases w') simp
  then show ?thesis
    using channel_chunks [OF assms(3), of J en cs w'] assms(2) d by (simp add: df)
qed

lemma message_faults:
  assumes "int_range ty" "w_inbuf w = []" "handle_msg J en (mk_channel_data ty s) w = Inl f"
  shows "worker_handle J en (ChannelIn (snd (send_msg fd ty s))) w = Inl f"
proof -
  have v: "cd_valid (mk_channel_data ty s)" by (rule cd_valid_mk [OF assms(1)])
  have l: "length (cd_bytes (mk_channel_data ty s)) = channel_data_size"
    by (rule chan.length_enc [OF v])
  have e: "w\<lparr>w_inbuf := []\<rparr> = w" using assms(2) by (cases w) simp
  have "drain J en (cd_bytes (mk_channel_data ty s)) w = Inl f"
    using l chan.dec_enc [OF v] assms(3) by (simp add: drain.simps [of J en "cd_bytes _"])
  then have "drain J en (cd_bytes (mk_channel_data ty s)) (w\<lparr>w_inbuf := []\<rparr>) = Inl f"
    by (simp only: e)
  then show ?thesis
    using assms(2) by (simp add: deal_channel_data_def send_msg_def)
qed

lemma msg_ranges [simp]:
  "int_range MASTER_MSG_TYPE_ADDCONF" "int_range MASTER_MSG_TYPE_DELCONF"
  "int_range MASTER_MSG_TYPE_EDITCONF" "int_range MASTER_MSG_TYPE_REDISPORT"
  by (simp_all add: msg_type_defs int_range_def)

text \<open>What the front of the HTTP handlers guarantees about an accepted body.\<close>

lemma req_object_facts:
  assumes "req_object J cmd body = Inr (Some (i, js))"
  shows "\<exists>r. j_parse J js = Some r \<and> has_both J r ''id'' ''type'' = Inr True \<and>
    asInt J r ''id'' = Inr i \<and> js = cstr body \<and> NUL \<notin> set js"
  using assms cstr_no_NUL [of body]
  by (auto simp: req_object_def split: if_splits option.splits)

lemma ack_reaches_master:
  assumes "int_range i" "fd \<in> set (m_channels m)" "cd_valid d" "cd_type d = MASTER_MSG_TYPE_ADDCONF"
  shows "master_handle J (ChannelRead fd (cd_bytes (ack_msg i d))) m =
    Inr (m\<lparr>m_configid_channel := smap_put i fd (m_configid_channel m)\<rparr>)"
proof -
  have v: "cd_valid (ack_msg i d)" by (rule cd_valid_ack_msg [OF assms(3)])
  have "deframe channel_data_size cd_of_bytes (cd_bytes (ack_msg i d)) = ([ack_msg i d], [])"
    using chan.deframe_encoded [of "[ack_msg i d]" "[]"] v chan.size_pos by simp
  moreover have "cd_type (ack_msg i d) = MASTER_MSG_TYPE_ADDCONF" using assms(4) by (simp add: ack_msg_def)
  ultimately show ?thesis
    using assms(2) ack_id_msg [OF assms(1), of d] by (simp add: master_channel_data_def master_msg_def)
qed

subsection \<open>Adding a test\<close>

text \<open>C6. A UDP configuration POSTed to the master: one message goes to a worker; whatever reads
  deliver its bytes, that worker files a test under the posted id with the posted host and port
  and acknowledges; and the acknowledgement confirms the channel in the master's table.\<close>

theorem post_reaches_worker:
  assumes "master_inv m" "req_object J POST body = Inr (Some (i, js))"
    and "smap_find (m_configid_map m) i = None" "length js < MAX_MSG_LEN" "int_range i"
    and "j_parse J js = Some r" "ok_obj J r ''UDP'' i" "udp_conf J (we_config en) r = Inr c"
    and "w_inbuf w = []"
  shows "\<exists>m1 fd bytes w1 a t ack m2.
    master_handle J (Http ''/metric'' POST body) m = Inr m1 \<and> store_of m1 = (store_of m)(i \<mapsto> js) \<and>
    m_writes m1 = m_writes m @ [(fd, bytes)] \<and> fd \<in> set (m_channels m) \<and>
    (\<forall>cs. concat cs = bytes \<longrightarrow> fold_res (worker_handle J en) (map ChannelIn cs) w = Inr w1) \<and>
    smap_find (w_test_map w1) i = Some a \<and> w_tests w1 a = Some (UdpT t) \<and>
    u_host t = cf_host c \<and> u_port t = cf_port c \<and> w_timers w1 a \<noteq> None \<and>
    w_out w1 = w_out w @ [ack] \<and>
    master_handle J (ChannelRead fd (cd_bytes ack)) m1 = Inr m2 \<and>
    smap_find (m_configid_channel m2) i = Some fd"
proof -
  define d where "d = mk_channel_data MASTER_MSG_TYPE_ADDCONF js"
  obtain fd where fd: "least_loaded (m_config_map m) = Some fd" "fd \<in> set (m_channels m)"
    using least_loaded_channel [OF assms(1)] by blast
  define m0 where "m0 = emit fd MASTER_MSG_TYPE_ADDCONF js (assign_channel i fd (put_config i js m))"
  define m1 where "m1 = free_uri ''/metric'' m0"
  have add: "add_config i js m = Inr m0" using fd(1) by (simp add: add_config_def m0_def)
  then have h: "master_handle J (Http ''/metric'' POST body) m = Inr m1"
    using assms(2,3) by (simp add: metric_request_cb_def deal_metric_request_def m1_def)
  have ok: "smap_ok (m_config_map (put_config i js m))" using assms(1) by (simp add: master_inv_def)
  have w1s: "m_writes m1 = m_writes m @ [(fd, snd (send_msg fd MASTER_MSG_TYPE_ADDCONF js))]"
    by (simp add: m1_def m0_def assign_channel_fields(4) [OF ok]) (simp add: send_msg_def)
  have st: "store_of m1 = (store_of m)(i \<mapsto> js)"
    using add_config_inv [OF add assms(1)] by (auto simp: store_of_def fun_eq_iff m1_def)
  have ch: "m_channels m1 = m_channels m" using add_config_inv [OF add assms(1)] by (simp add: m1_def)
  have nul: "NUL \<notin> set js" using req_object_facts [OF assms(2)] by blast
  have mt: "msg_text d = Inr js" unfolding d_def by (rule msg_text_short [OF assms(4) nul])
  have ty: "cd_type d = MASTER_MSG_TYPE_ADDCONF" by (simp add: d_def)
  obtain w1 a t where w: "handle_msg J en d w = Inr (True, w1)"
    "smap_find (w_test_map w1) i = Some a" "w_tests w1 a = Some (UdpT t)" "u_host t = cf_host c"
    "u_port t = cf_port c" "w_timers w1 a \<noteq> None"
    and out: "w_out w1 = w_out w @ [ack_msg i d]"
  proof -
    define v where "v = worker_info (we_timebuf en) (''genreate type '' @ ''UDP'' @ '' test'')
      (worker_info (we_timebuf en) ''add new conf'' w)"
    define u where "u = UDP_config c (UDP_test_new (we_pid en) (we_udp en))"
    have i: "j_int J r ''id'' = Some i" "asInt J r ''id'' = Inr i"
      using assms(7) by (simp_all add: ok_obj_def asInt_def)
    have u: "t_id u = i" "u_host u = cf_host c" "u_port u = cf_port c"
      using udp_conf_id [OF assms(8) i(2)] by (simp_all add: u_def UDP_config_def)
    have "generate_test J en r (worker_info (we_timebuf en) ''add new conf'' w) = Inr (new_test (UdpT u) v)"
      using generate_udp [OF assms(7,8)] by (simp add: u_def v_def)
    from handle_add [OF ty mt assms(6) this i(1)] u show thesis
      by (auto simp: Test_get_id_def v_def worker_info_def intro!: that)
  qed
  have p: "parses J (mk_channel_data MASTER_MSG_TYPE_ADDCONF js)"
    using mt assms(6) by (simp add: parses_def d_def)
  have arrive: "\<forall>cs. concat cs = snd (send_msg fd MASTER_MSG_TYPE_ADDCONF js) \<longrightarrow>
      fold_res (worker_handle J en) (map ChannelIn cs) w = Inr w1"
    using message_arrives [OF msg_ranges(1) p assms(9) w(1) [unfolded d_def]] by blast
  have ack: "master_handle J (ChannelRead fd (cd_bytes (ack_msg i d))) m1 =
      Inr (m1\<lparr>m_configid_channel := smap_put i fd (m_configid_channel m1)\<rparr>)"
    using fd(2) by (intro ack_reaches_master [OF assms(5) _ _ ty]) (simp_all add: ch d_def cd_valid_mk)
  show ?thesis
    by (rule exI [of _ m1], rule exI [of _ fd],
        rule exI [of _ "snd (send_msg fd MASTER_MSG_TYPE_ADDCONF js)"], rule exI [of _ w1],
        rule exI [of _ a], rule exI [of _ t], rule exI [of _ "ack_msg i d"],
        rule exI [of _ "m1\<lparr>m_configid_channel := smap_put i fd (m_configid_channel m1)\<rparr>"])
      (intro conjI h st w1s fd(2) arrive w out ack, simp)
qed

subsection \<open>Deleting and editing\<close>

text \<open>C25. Deleting a configuration of a distributed master: its message goes to the channel the table
  names, and the worker at its other end frees the test and disarms its timer.\<close>

theorem delete_reaches_worker:
  assumes "master_inv m" "distributed m" "req_object J POST body = Inr (Some (i, js))"
    and "smap_find (m_configid_map m) i = Some s" "length js < MAX_MSG_LEN"
    and "worker_inv w" "w_inbuf w = []" "smap_find (w_test_map w) i = Some a"
  shows "\<exists>m1 fd bytes w1.
    master_handle J (Http ''/metric/delete'' POST body) m = Inr m1 \<and>
    store_of m1 = (store_of m)(i := None) \<and>
    smap_find (m_configid_channel m) i = Some fd \<and> m_writes m1 = m_writes m @ [(fd, bytes)] \<and>
    (\<forall>cs. concat cs = bytes \<longrightarrow> fold_res (worker_handle J en) (map ChannelIn cs) w = Inr w1) \<and>
    smap_find (w_test_map w1) i = None \<and> w_tests w1 a = None \<and> w_timers w1 a = None \<and>
    (\<forall>j. j \<noteq> i \<longrightarrow> smap_find (w_test_map w1) j = smap_find (w_test_map w) j)"
proof -
  obtain fd where fd: "smap_find (m_configid_channel m) i = Some fd"
    using assms(2,4) by (auto simp: distributed_def)
  have okm: "smap_ok (m_configid_map m)" using assms(1) by (simp add: master_inv_def)
  define m1 where "m1 = free_uri ''/metric/delete'' (emit fd MASTER_MSG_TYPE_DELCONF js
      (m\<lparr>m_configid_map := smap_erase i (m_configid_map m)\<rparr>))"
  have h: "master_handle J (Http ''/metric/delete'' POST body) m = Inr m1"
    using assms(3,4) fd
    by (simp add: metric_request_cb_def delete_metric_request_def channel_of_def m1_def)
  have w1s: "m_writes m1 = m_writes m @ [(fd, snd (send_msg fd MASTER_MSG_TYPE_DELCONF js))]"
    by (simp add: m1_def) (simp add: send_msg_def)
  have st: "store_of m1 = (store_of m)(i := None)"
    using okm by (auto simp: m1_def store_of_def fun_eq_iff)
  obtain r where r: "j_parse J js = Some r" "has_both J r ''id'' ''type'' = Inr True"
    "asInt J r ''id'' = Inr i" "NUL \<notin> set js"
    using req_object_facts [OF assms(3)] by blast
  have mem: "isMember J r ''id'' = Inr True" using r(2) by (auto simp: has_both_def split: if_splits)
  define d where "d = mk_channel_data MASTER_MSG_TYPE_DELCONF js"
  have mt: "msg_text d = Inr js" unfolding d_def by (rule msg_text_short [OF assms(5) r(4)])
  define v where "v = worker_info (we_timebuf en) ''delete conf'' w"
  have v: "w_test_map v = w_test_map w" "w_tests v = w_tests w" "w_timers v = w_timers w"
    by (simp_all add: v_def worker_info_def)
  obtain t where t: "w_tests w a = Some t" using worker_invD(4) [OF assms(6,8)] by blast
  define w1 where "w1 = v\<lparr>w_test_map := smap_erase i (w_test_map v),
      w_timers := (w_timers v)(a := None), w_tests := (w_tests v)(a := None)\<rparr>"
  have "delete_test J r v = Inr (0, w1)"
    using mem r(3) assms(8) t by (simp add: delete_test_def v w1_def)
  then have hm: "handle_msg J en d w = Inr (True, w1)"
    using mt r(1) by (simp add: handle_msg_def d_def msg_type_defs v_def)
  have p: "parses J (mk_channel_data MASTER_MSG_TYPE_DELCONF js)"
    using mt r(1) by (simp add: parses_def d_def)
  have arrive: "\<forall>cs. concat cs = snd (send_msg fd MASTER_MSG_TYPE_DELCONF js) \<longrightarrow>
      fold_res (worker_handle J en) (map ChannelIn cs) w = Inr w1"
    using message_arrives [OF msg_ranges(2) p assms(7) hm [unfolded d_def]] by blast
  show ?thesis
    using h st fd w1s arrive worker_invD(1) [OF assms(6)]
    by (intro exI [of _ m1] exI [of _ fd] exI [of _ "snd (send_msg fd MASTER_MSG_TYPE_DELCONF js)"]
        exI [of _ w1]) (simp add: w1_def v)
qed

text \<open>C38. Changing a configuration is stored and flushed by the master and sent as EDITCONF, but the
  worker's handler has no case for that type: the running test keeps its old host, port and
  period.\<close>

theorem edit_never_reaches_test:
  assumes "master_inv m" "distributed m" "req_object J POST body = Inr (Some (i, js))"
    and "smap_find (m_configid_map m) i = Some s" "w_inbuf w = []"
  shows "\<exists>m1 fd bytes. master_handle J (Http ''/metric'' POST body) m = Inr m1 \<and>
    store_of m1 = (store_of m)(i \<mapsto> js) \<and> m_writes m1 = m_writes m @ [(fd, bytes)] \<and>
    (\<forall>cs. concat cs = bytes \<longrightarrow> fold_res (worker_handle J en) (map ChannelIn cs) w = Inr w)"
proof -
  obtain fd where fd: "smap_find (m_configid_channel m) i = Some fd"
    using assms(2,4) by (auto simp: distributed_def)
  define m1 where "m1 = free_uri ''/metric'' (emit fd MASTER_MSG_TYPE_EDITCONF js (put_config i js m))"
  have h: "master_handle J (Http ''/metric'' POST body) m = Inr m1"
    using assms(3,4) fd
    by (simp add: metric_request_cb_def deal_metric_request_def edit_config_known m1_def)
  have w1s: "m_writes m1 = m_writes m @ [(fd, snd (send_msg fd MASTER_MSG_TYPE_EDITCONF js))]"
    by (simp add: m1_def) (simp add: send_msg_def)
  have st: "store_of m1 = (store_of m)(i \<mapsto> js)" by (auto simp: m1_def store_of_def fun_eq_iff)
  have hm: "handle_msg J en (mk_channel_data MASTER_MSG_TYPE_EDITCONF js) w = Inr (True, w)"
    by (simp add: handle_msg_def msg_type_defs)
  have p: "parses J (mk_channel_data MASTER_MSG_TYPE_EDITCONF js)"
    by (simp add: parses_def msg_type_defs)
  have "\<forall>cs. concat cs = snd (send_msg fd MASTER_MSG_TYPE_EDITCONF js) \<longrightarrow>
      fold_res (worker_handle J en) (map ChannelIn cs) w = Inr w"
    using message_arrives [OF msg_ranges(3) p assms(5) hm] by blast
  with h st w1s show ?thesis by blast
qed

text \<open>C39. A configuration of 1000 bytes or more is accepted and stored by the master and cut to the
  message's 1000 bytes without a terminating NUL: the worker that receives it reads past the end
  of the message.\<close>

theorem overlong_config_crashes_worker:
  assumes "master_inv m" "req_object J POST body = Inr (Some (i, js))"
    and "smap_find (m_configid_map m) i = None" "MAX_MSG_LEN \<le> length js" "w_inbuf w = []"
  shows "\<exists>m1 fd bytes. master_handle J (Http ''/metric'' POST body) m = Inr m1 \<and>
    m_writes m1 = m_writes m @ [(fd, bytes)] \<and>
    worker_handle J en (ChannelIn bytes) w = Inl OutOfBounds"
proof -
  obtain fd where fd: "least_loaded (m_config_map m) = Some fd"
    using least_loaded_channel [OF assms(1)] by blast
  define m1 where "m1 = free_uri ''/metric'' (emit fd MASTER_MSG_TYPE_ADDCONF js (assign_channel i fd (put_config i js m)))"
  have h: "master_handle J (Http ''/metric'' POST body) m = Inr m1"
    using assms(2,3) fd
    by (simp add: metric_request_cb_def deal_metric_request_def add_config_def m1_def)
  have ok: "smap_ok (m_config_map (put_config i js m))" using assms(1) by (simp add: master_inv_def)
  have w1s: "m_writes m1 = m_writes m @ [(fd, snd (send_msg fd MASTER_MSG_TYPE_ADDCONF js))]"
    by (simp add: m1_def assign_channel_fields(4) [OF ok]) (simp add: send_msg_def)
  have "NUL \<notin> set js" using req_object_facts [OF assms(2)] by blast
  from msg_text_long [OF assms(4) this, of MASTER_MSG_TYPE_ADDCONF]
  have "handle_msg J en (mk_channel_data MASTER_MSG_TYPE_ADDCONF js) w = Inl OutOfBounds"
    by (simp add: handle_msg_def)
  from message_faults [OF msg_ranges(1) assms(5) this, of fd] h w1s show ?thesis by blast
qed

subsection \<open>Rotating the log\<close>

text \<open>The open file a descriptor in a message stands for is the one it means in the sender's table when it
  is sent.\<close>

fun passed_file :: "files \<Rightarrow> control \<Rightarrow> nat option" where
  "passed_file g (level, typ, fd) = fdtab g fd"

lemma master_split_log_effects:
  "m_log (master_split_log tb ren newfd m) = m_log m @
     [LgClose (logfilefd (m_logger m)), LgRename (cstr (logfile (m_logger m))) (cstr (logfile (m_logger m)) @ ''-'' @ tb) ren,
      LgOpen (cstr (logfile (m_logger m))) newfd] \<and>
   m_fd_writes (master_split_log tb ren newfd m) = m_fd_writes m @
     (if newfd < 0 then [] else map (\<lambda>ch. (ch, (SOL_SOCKET, SCM_RIGHTS, newfd))) (m_channels_1 m)) \<and>
   logfilefd (m_logger (master_split_log tb ren newfd m)) = newfd"
  by (simp add: master_split_log_def split_log_def Let_def close_fd_def send_openfd_def)

lemma opened_log:
  "0 \<le> newfd \<Longrightarrow> \<exists>k. fdtab (do_effects (es @ [LgOpen p newfd]) f) newfd = Some k \<and>
     names (do_effects (es @ [LgOpen p newfd]) f) p = Some k"
  by (auto simp: do_effects_def split: option.splits)

text \<open>C22. A rotation and the workers. If the master cannot open the new log, it sends nothing: the workers go
  on with the old file, and the master holds -1. Otherwise every descriptor channel gets a
  message for the file that has the log's name now. A worker that reads it gets its own number \<open>n\<close>
  for that file, closes its old descriptor and changes nothing else; what it logs from then on is
  appended to the new file. Of two rotations read together the last counts, and the descriptor of the
  first stays open.\<close>

theorem rotation_reaches_workers:
  assumes "master_handle J (SplitLogDue tb ren newfd) m = Inr m'" "m_log m' = m_log m @ es" "g = do_effects es f"
    and "lg_level (w_logger w) = level_code INFO" "wt (logfilefd (w_logger w)) \<noteq> None" "wt n = None"
  shows "logfilefd (m_logger m') = newfd \<and> (newfd < 0 \<longrightarrow> m_fd_writes m' = m_fd_writes m) \<and>
    (0 \<le> newfd \<longrightarrow> (\<exists>c k v. m_fd_writes m' = m_fd_writes m @ map (\<lambda>ch. (ch, c)) (m_channels_1 m) \<and>
       passed_file g c = Some k \<and> names g (cstr (logfile (m_logger m))) = Some k \<and>
       (\<forall>junk. worker_handle J' en (FdIn (received_as n c) RecvErr junk) w = Inr v) \<and>
       (\<forall>junk k1 c1. worker_handle J' en (FdIn (received_as k1 c1) (received_as n c) junk) w = Inr v) \<and>
       v = w\<lparr>w_log := w_log w @ [LgClose (logfilefd (w_logger w))],
         w_logger := (w_logger w)\<lparr>logfilefd := n\<rparr>\<rparr> \<and>
       (\<exists>ws. w_log (worker_info tb' s v) = w_log w @ ws \<and>
         contents (do_effects ws (g\<lparr>fdtab := wt(n \<mapsto> k)\<rparr>)) k = contents g k @ log_line tb' INFO s)))"
proof -
  have m': "m' = master_split_log tb ren newfd m" using assms(1) by simp
  note eff = master_split_log_effects [of tb ren newfd m, folded m']
  let ?p = "cstr (logfile (m_logger m))"
  have es: "es = [LgClose (logfilefd (m_logger m)), LgRename ?p (?p @ ''-'' @ tb) ren] @ [LgOpen ?p newfd]"
    using eff assms(2) by simp
  show ?thesis
  proof (cases "newfd < 0")
    case True
    with eff show ?thesis by simp
  next
    case False
    then have pos: "0 \<le> newfd" by simp
    obtain k where k: "fdtab g newfd = Some k" "names g ?p = Some k"
      using opened_log [OF pos] unfolding assms(3) es by blast
    define c where "c = (SOL_SOCKET, SCM_RIGHTS, newfd)"
    have c: "recv_openfd junk (received_as n c) RecvErr = n"
      "recv_openfd junk (received_as k1 c1) (received_as n c) = n" for junk k1 c1
      by (cases c1; simp add: c_def recv_openfd_def)+
    define v where "v = w\<lparr>w_log := w_log w @ [LgClose (logfilefd (w_logger w))],
      w_logger := (w_logger w)\<lparr>logfilefd := n\<rparr>\<rparr>"
    have h: "worker_handle J' en (FdIn (received_as n c) RecvErr junk) w = Inr v"
      "worker_handle J' en (FdIn (received_as k1 c1) (received_as n c) junk) w = Inr v" for junk k1 c1
      by (simp_all add: worker_channel_1_cb_def split_log_fd_def close_fd_def set_fd_def c v_def)
    have log: "w_log (worker_info tb' s v) = w_log w @ [LgClose (logfilefd (w_logger w)), LgWrite n (log_line tb' INFO s)]"
      using assms(4) by (simp add: worker_info_def log_info_def log_output_def v_def)
    have "logfilefd (w_logger w) \<noteq> n" using assms(5,6) by auto
    then have "contents (do_effects [LgClose (logfilefd (w_logger w)), LgWrite n (log_line tb' INFO s)]
        (g\<lparr>fdtab := wt(n \<mapsto> k)\<rparr>)) k = contents g k @ log_line tb' INFO s"
      by (simp add: do_effects_def)
    with log have w: "\<exists>ws. w_log (worker_info tb' s v) = w_log w @ ws \<and>
        contents (do_effects ws (g\<lparr>fdtab := wt(n \<mapsto> k)\<rparr>)) k = contents g k @ log_line tb' INFO s" by blast
    have sent: "m_fd_writes m' = m_fd_writes m @ map (\<lambda>ch. (ch, c)) (m_channels_1 m)"
      using eff False by (simp add: c_def)
    have pf: "passed_file g c = Some k" using k(1) by (simp add: c_def)
    have "\<exists>c k v. m_fd_writes m' = m_fd_writes m @ map (\<lambda>ch. (ch, c)) (m_channels_1 m) \<and>
       passed_file g c = Some k \<and> names g ?p = Some k \<and>
       (\<forall>junk. worker_handle J' en (FdIn (received_as n c) RecvErr junk) w = Inr v) \<and>
       (\<forall>junk k1 c1. worker_handle J' en (FdIn (received_as k1 c1) (received_as n c) junk) w = Inr v) \<and>
       v = w\<lparr>w_log := w_log w @ [LgClose (logfilefd (w_logger w))],
         w_logger := (w_logger w)\<lparr>logfilefd := n\<rparr>\<rparr> \<and>
       (\<exists>ws. w_log (worker_info tb' s v) = w_log w @ ws \<and>
         contents (do_effects ws (g\<lparr>fdtab := wt(n \<mapsto> k)\<rparr>)) k = contents g k @ log_line tb' INFO s)"
      by (rule exI [of _ c], rule exI [of _ k], rule exI [of _ v])
        (intro conjI allI sent pf k(2) h w, rule v_def)
    with eff pos show ?thesis by simp
  qed
qed

subsection \<open>Witnesses\<close>

lemma demo_u_short: "length ''u'' < MAX_MSG_LEN"
  by (simp add: MAX_MSG_LEN_def)

theorem post_reaches_worker_witness:
  "\<exists>m1 w1 a t. master_handle demo_J (Http ''/metric'' POST ''u'') demo_master = Inr m1 \<and>
     fold_res (worker_handle demo_J demo_we) [ChannelIn (snd (hd (m_writes m1)))] demo_worker0 = Inr w1 \<and>
     smap_find (w_test_map w1) 5 = Some a \<and> w_tests w1 a = Some (UdpT t)"
proof -
  obtain c where c: "udp_conf demo_J (we_config demo_we) (demo_root ''u'') = Inr c"
    using demo_udp_conf by blast
  have n: "smap_find (m_configid_map demo_master) 5 = None" "int_range 5" "w_inbuf demo_worker0 = []"
    by (simp_all add: int_range_def)
  from post_reaches_worker [OF demo_master_inv demo_req(1) n(1) demo_u_short n(2) demo_parse(1)
      demo_obj(1) c n(3)]
  obtain m1 fd bytes w1 a t where h: "master_handle demo_J (Http ''/metric'' POST ''u'') demo_master = Inr m1"
    "m_writes m1 = m_writes demo_master @ [(fd, bytes)]"
    "\<forall>cs. concat cs = bytes \<longrightarrow> fold_res (worker_handle demo_J demo_we) (map ChannelIn cs) demo_worker0 = Inr w1"
    "smap_find (w_test_map w1) 5 = Some a" "w_tests w1 a = Some (UdpT t)"
    by (elim exE conjE) (rule that)
  have "fold_res (worker_handle demo_J demo_we) [ChannelIn bytes] demo_worker0 = Inr w1"
    using h(3) [rule_format, of "[bytes]"] by simp
  with h show ?thesis by (intro exI [of _ m1] exI [of _ w1] exI [of _ a] exI [of _ t]) simp
qed

lemma demo_distributed:
  "\<exists>m. distribute_conf demo_loaded = Inr m \<and> master_inv m \<and> distributed m \<and>
     m_configid_map m = [(5, ''u'')]"
proof -
  obtain m where m: "distribute_conf demo_loaded = Inr m" using demo_loaded_distributes by blast
  with distribute_conf_inv [OF m demo_loaded_inv] show ?thesis by simp
qed

theorem delete_reaches_worker_witness:
  "\<exists>m m1 w1. distribute_conf demo_loaded = Inr m \<and>
     master_handle demo_J (Http ''/metric/delete'' POST ''u'') m = Inr m1 \<and>
     fold_res (worker_handle demo_J demo_we) [ChannelIn (snd (last (m_writes m1)))] demo_worker = Inr w1 \<and>
     w_tests w1 0 = None"
proof -
  obtain m where m: "distribute_conf demo_loaded = Inr m" "master_inv m" "distributed m"
    "m_configid_map m = [(5, ''u'')]" using demo_distributed by blast
  have f: "smap_find (m_configid_map m) 5 = Some ''u''" "w_inbuf demo_worker = []"
    "smap_find (w_test_map demo_worker) 5 = Some 0"
    using m(4) by (simp_all add: demo_worker_def)
  from delete_reaches_worker [OF m(2,3) demo_req(1) f(1) demo_u_short demo_worker_inv f(2,3), of demo_we]
  obtain m1 fd bytes w1 where h: "master_handle demo_J (Http ''/metric/delete'' POST ''u'') m = Inr m1"
    "m_writes m1 = m_writes m @ [(fd, bytes)]"
    "\<forall>cs. concat cs = bytes \<longrightarrow> fold_res (worker_handle demo_J demo_we) (map ChannelIn cs) demo_worker = Inr w1"
    "w_tests w1 0 = None"
    by (elim exE conjE) (rule that)
  have "fold_res (worker_handle demo_J demo_we) [ChannelIn bytes] demo_worker = Inr w1"
    using h(3) [rule_format, of "[bytes]"] by simp
  with h m(1) show ?thesis by (intro exI [of _ m] exI [of _ m1] exI [of _ w1]) simp
qed

theorem edit_never_reaches_test_witness:
  "\<exists>m m1. distribute_conf demo_loaded = Inr m \<and>
     master_handle demo_J (Http ''/metric'' POST ''u'') m = Inr m1 \<and>
     fold_res (worker_handle demo_J demo_we) [ChannelIn (snd (last (m_writes m1)))] demo_worker =
       Inr demo_worker"
proof -
  obtain m where m: "distribute_conf demo_loaded = Inr m" "master_inv m" "distributed m"
    "m_configid_map m = [(5, ''u'')]" using demo_distributed by blast
  have f: "smap_find (m_configid_map m) 5 = Some ''u''" "w_inbuf demo_worker = []"
    using m(4) by (simp_all add: demo_worker_def)
  from edit_never_reaches_test [OF m(2,3) demo_req(1) f, of demo_we]
  obtain m1 fd bytes where h: "master_handle demo_J (Http ''/metric'' POST ''u'') m = Inr m1"
    "m_writes m1 = m_writes m @ [(fd, bytes)]"
    "\<forall>cs. concat cs = bytes \<longrightarrow> fold_res (worker_handle demo_J demo_we) (map ChannelIn cs) demo_worker = Inr demo_worker"
    by (elim exE conjE) (rule that)
  have "fold_res (worker_handle demo_J demo_we) [ChannelIn bytes] demo_worker = Inr demo_worker"
    using h(3) [rule_format, of "[bytes]"] by simp
  with h m(1) show ?thesis by (intro exI [of _ m] exI [of _ m1]) simp
qed

text \<open>The master's new log is its 13; a worker with its log open as 3 gets it as 9.\<close>

theorem rotation_reaches_workers_witness:
  "\<exists>m' v k g. master_handle demo_J (SplitLogDue ''t'' True 13) demo_master = Inr m' \<and>
     worker_handle demo_J demo_we (FdIn (received_as 9 (SOL_SOCKET, SCM_RIGHTS, 13)) RecvErr (0, 0, 0)) demo_worker0 = Inr v \<and>
     logfilefd (w_logger v) = 9 \<and> passed_file g (SOL_SOCKET, SCM_RIGHTS, 13) = Some k \<and>
     contents (do_effects (w_log (worker_info ''t'' ''x'' v)) (g\<lparr>fdtab := [3 \<mapsto> 0, 9 \<mapsto> k]\<rparr>)) k =
       contents g k @ log_line ''t'' INFO ''x''"
proof -
  have l: "lg_level (w_logger demo_worker0) = level_code INFO" "w_log demo_worker0 = []"
    "logfilefd (w_logger demo_worker0) = 3" by (simp_all add: demo_worker0_def Worker_new_def)
  define m' where "m' = master_split_log ''t'' True 13 demo_master"
  have m: "master_handle demo_J (SplitLogDue ''t'' True 13) demo_master = Inr m'" by (simp add: m'_def)
  obtain es where es: "m_log m' = m_log demo_master @ es"
    using master_split_log_effects [of "''t''" True 13 demo_master] unfolding m'_def by blast
  have wt: "[3 \<mapsto> 0] (logfilefd (w_logger demo_worker0)) \<noteq> None" "[3 \<mapsto> 0] (9 :: int) = None"
    by (simp_all add: l)
  have pos: "(0 :: int) \<le> 13" by simp
  from mp [OF conjunct2 [OF conjunct2 [OF rotation_reaches_workers [OF m es refl l(1) wt]]] pos, of demo_files demo_J demo_we "''t''" "''x''"]
  obtain c k v ws where r: "m_fd_writes m' = m_fd_writes demo_master @ map (\<lambda>ch. (ch, c)) (m_channels_1 demo_master)"
    "passed_file (do_effects es demo_files) c = Some k"
    "\<forall>junk. worker_handle demo_J demo_we (FdIn (received_as 9 c) RecvErr junk) demo_worker0 = Inr v"
    "v = demo_worker0\<lparr>w_log := w_log demo_worker0 @ [LgClose (logfilefd (w_logger demo_worker0))],
       w_logger := (w_logger demo_worker0)\<lparr>logfilefd := 9\<rparr>\<rparr>"
    "w_log (worker_info ''t'' ''x'' v) = w_log demo_worker0 @ ws"
    "contents (do_effects ws ((do_effects es demo_files)\<lparr>fdtab := [3 \<mapsto> 0, 9 \<mapsto> k]\<rparr>)) k =
       contents (do_effects es demo_files) k @ log_line ''t'' INFO ''x''"
    by (elim exE conjE) (rule that; assumption)
  have "m_fd_writes m' = m_fd_writes demo_master @ map (\<lambda>ch. (ch, (SOL_SOCKET, SCM_RIGHTS, 13))) (m_channels_1 demo_master)"
    using master_split_log_effects [of "''t''" True 13 demo_master] by (simp add: m'_def)
  with r(1) have c: "c = (SOL_SOCKET, SCM_RIGHTS, 13)" by simp
  have "logfilefd (w_logger v) = 9" by (simp add: r(4))
  with m r(2,3,5,6) l(2) show ?thesis
    unfolding c by (intro exI [of _ m'] exI [of _ v] exI [of _ k] exI [of _ "do_effects es demo_files"]) simp
qed

text \<open>A body of 1000 bytes, for a JSON library that reads every text as the UDP configuration.\<close>

definition long_J :: "metric jsonlib" where
  "long_J = demo_J\<lparr>j_parse := (\<lambda>s. Some (demo_root ''u''))\<rparr>"

theorem overlong_config_crashes_worker_witness:
  "\<exists>m1 bytes. master_handle long_J (Http ''/metric'' POST (replicate 1000 CHR ''x'')) demo_master = Inr m1 \<and>
     worker_handle long_J demo_we (ChannelIn bytes) demo_worker0 = Inl OutOfBounds"
proof -
  have "cstr (replicate 1000 CHR ''x'') = replicate 1000 CHR ''x''"
    by (rule cstr_id) simp
  then have r: "req_object long_J POST (replicate 1000 CHR ''x'') = Inr (Some (5, replicate 1000 CHR ''x''))"
    by (simp add: req_object_def long_J_def demo_J_def table_json_def demo_root_def demo_texts_def
        has_both_def isMember_def asInt_def)
  have n: "smap_find (m_configid_map demo_master) 5 = None" "w_inbuf demo_worker0 = []"
    "MAX_MSG_LEN \<le> length (replicate 1000 CHR ''x'')"
    by (simp_all add: MAX_MSG_LEN_def)
  from overlong_config_crashes_worker [OF demo_master_inv r n(1,3,2), of demo_we] show ?thesis by blast
qed

end
