(* ===== verification/Worker_Table.thy ===== *)
theory Worker_Table
  imports Worker_Props
begin

section \<open>The table of a worker's tests, as seen by its master\<close>

text \<open>
  What the master relies on: the set of ids a worker runs tests for changes only by the messages
  on its channel, ADDCONF inserting an id and DELCONF removing it, and every ADDCONF is answered
  with its id. \<open>table_effect\<close> says what a message does to that set; the interpretation \<open>wt\<close> of
  the locale \<open>refines_machine\<close> makes the messages refine it. All other inputs (timers, events,
  ICMP packets, log descriptors) leave the set, the channel's buffer and the answers alone.
\<close>

subsection \<open>Inputs that are not messages\<close>

definition channel_view :: "'c worker \<Rightarrow> (int, nat) smap \<times> string \<times> channel_data list" where
  "channel_view w = (w_test_map w, w_inbuf w, w_out w)"

lemma do_call_view [frame_simps]: "do_call tb own ta c w = Inr w' \<Longrightarrow> channel_view w' = channel_view w"
  by (cases c) (auto simp: channel_view_def Let_def worker_info_def set_icmp_unreach_test_event_def
      del_icmp_unreach_test_event_def split: option.splits)

lemma do_calls_view: "do_calls tb own ta cs w = Inr w' \<Longrightarrow> channel_view w' = channel_view w"
proof (induction cs arbitrary: w)
  case (Cons c cs)
  then obtain w1 where "do_call tb own ta c w = Inr w1" "do_calls tb own ta cs w1 = Inr w'"
    by (auto simp: do_calls_def)
  with Cons.IH do_call_view show ?case by metis
qed (simp add: do_calls_def)

lemma put_test_view [simp]: "channel_view (put_test ta t w) = channel_view w"
  by (simp add: channel_view_def put_test_def)

lemma callback_view:
  "do_calls tb own ta cs (put_test ta t w) = Inr w' \<Longrightarrow> channel_view w' = channel_view w"
  using do_calls_view [of tb own ta cs "put_test ta t w" w'] by simp

lemma unreach_target_view:
  assumes "unreach_target J tb e a w = Inr w'" shows "channel_view w' = channel_view w"
  using assms by (auto simp: unreach_target_def split: option.splits dest: callback_view)

lemma icmp_cb_view:
  assumes "worker_icmp_cb J tb e w = Inr w'" shows "channel_view w' = channel_view w"
  using assms unfolding worker_icmp_cb_def Let_def case_prod_beta
  by (elim res_elims; (use unreach_target_view in \<open>blast | simp\<close>)?)

fun is_channel_in :: "'c worker_input \<Rightarrow> bool" where
  "is_channel_in (ChannelIn bs) = True"
| "is_channel_in _ = False"

lemma other_input_view:
  assumes "worker_handle J en i w = Inr w'" "\<not> is_channel_in i"
  shows "channel_view w' = channel_view w"
proof (cases i)
  case (TestDue ta e)
  with assms(1) show ?thesis
    by (auto simp: worker_timeout_callback_fn_def split: if_splits dest: callback_view)
next
  case (EventDue ea f e)
  with assms(1) show ?thesis
    by (auto simp: fire_event_def split: if_splits option.splits dest: callback_view)
next
  case (IcmpIn e)
  with assms(1) icmp_cb_view show ?thesis by auto
next
  case (FdIn r1 r2 junk)
  with assms(1) show ?thesis
    by (auto simp: worker_channel_1_cb_def split_log_fd_def channel_view_def)
next
  case (RedisConnected c st x)
  with assms(1) show ?thesis by (auto simp: channel_view_def)
next
  case (RedisDisconnected c st x)
  with assms(1) show ?thesis by (auto simp: channel_view_def)
qed (use assms(2) in simp)

subsection \<open>Messages\<close>

definition ids :: "'c worker \<Rightarrow> int set" where
  "ids w = {i. smap_find (w_test_map w) i \<noteq> None}"

text \<open>The id a message's text carries.\<close>

definition msg_id :: "'j jsonlib \<Rightarrow> channel_data \<Rightarrow> int option" where
  "msg_id J d = (case msg_text d of Inl f \<Rightarrow> None
     | Inr s \<Rightarrow> (case j_parse J s of None \<Rightarrow> None | Some r \<Rightarrow> j_int J r ''id''))"

definition table_effect :: "'j jsonlib \<Rightarrow> channel_data \<Rightarrow> int set \<Rightarrow> int set" where
  "table_effect J d S =
     (case msg_id J d of None \<Rightarrow> S
      | Some i \<Rightarrow> if cd_type d = MASTER_MSG_TYPE_ADDCONF then insert i S
          else if cd_type d = MASTER_MSG_TYPE_DELCONF then S - {i} else S)"

text \<open>
  A message with a text of this kind is one the worker can act on: the configuration of a UDP
  test, or an object with an id to delete.
\<close>

definition udp_object :: "'j jsonlib \<Rightarrow> config \<Rightarrow> string \<Rightarrow> int \<Rightarrow> bool" where
  "udp_object J junk s i \<longleftrightarrow> int_range i \<and> (\<exists>r c. j_parse J s = Some r \<and> ok_obj J r ''UDP'' i \<and>
     udp_conf J junk r = Inr c)"

definition add_fits :: "'j jsonlib \<Rightarrow> config \<Rightarrow> channel_data \<Rightarrow> bool" where
  "add_fits J junk d \<longleftrightarrow> (\<exists>s i. msg_text d = Inr s \<and> udp_object J junk s i)"

definition good_msg :: "'j jsonlib \<Rightarrow> config \<Rightarrow> channel_data \<Rightarrow> bool" where
  "good_msg J junk d \<longleftrightarrow> cd_valid d \<and>
     (cd_type d = MASTER_MSG_TYPE_ADDCONF \<or> cd_type d = MASTER_MSG_TYPE_DELCONF \<longrightarrow> add_fits J junk d) \<and>
     (cd_type d = MASTER_MSG_TYPE_REDISPORT \<longrightarrow> (\<exists>s n. msg_text d = Inr s \<and> atoi s = Inr n))"

lemma add_fits_id: "add_fits J junk d \<Longrightarrow> \<exists>i. msg_id J d = Some i \<and> int_range i"
  by (auto simp: add_fits_def udp_object_def ok_obj_def msg_id_def)

lemma good_msg_parses: "good_msg J junk d \<Longrightarrow> parses J d"
  by (auto simp: good_msg_def parses_def add_fits_def udp_object_def)

text \<open>One message: its effect on the set, and the answer.\<close>

definition acks_of :: "'j jsonlib \<Rightarrow> channel_data \<Rightarrow> channel_data list" where
  "acks_of J d = (if cd_type d = MASTER_MSG_TYPE_ADDCONF
     then (case msg_id J d of None \<Rightarrow> [] | Some i \<Rightarrow> [ack_msg i d]) else [])"

lemma in_acks_of:
  "a \<in> set (acks_of J d) \<longleftrightarrow>
     cd_type d = MASTER_MSG_TYPE_ADDCONF \<and> (\<exists>i. msg_id J d = Some i \<and> a = ack_msg i d)"
proof (cases "msg_id J d")
  case None
  then have "acks_of J d = []" by (simp add: acks_of_def)
  with None show ?thesis by simp
next
  case (Some i)
  then have "acks_of J d = (if cd_type d = MASTER_MSG_TYPE_ADDCONF then [ack_msg i d] else [])"
    by (simp add: acks_of_def)
  with Some show ?thesis by (cases "cd_type d = MASTER_MSG_TYPE_ADDCONF") simp_all
qed

lemma handle_msg_add:
  assumes "cd_type d = MASTER_MSG_TYPE_ADDCONF" "add_fits J (we_config en) d"
    and "handle_msg J en d w = Inr (go, w')"
  shows "ids w' = table_effect J d (ids w) \<and> w_out w' = w_out w @ acks_of J d"
proof -
  obtain s i r c where f: "msg_text d = Inr s" "j_parse J s = Some r" "ok_obj J r ''UDP'' i"
    "udp_conf J (we_config en) r = Inr c"
    using assms(2) by (auto simp: add_fits_def udp_object_def)
  have i: "j_int J r ''id'' = Some i" "asInt J r ''id'' = Inr i"
    using f(3) by (simp_all add: ok_obj_def asInt_def)
  define w1 where "w1 = worker_info (we_timebuf en) (''genreate type '' @ ''UDP'' @ '' test'')
      (worker_info (we_timebuf en) ''add new conf'' w)"
  define t where "t = UDP_config c (UDP_test_new (we_pid en) (we_udp en))"
  have t: "Test_get_id t = i"
    using udp_conf_id [OF f(4) i(2)] by (simp add: t_def UDP_config_def Test_get_id_def)
  have w1: "w_out w1 = w_out w" "w_test_map w1 = w_test_map w"
    by (simp_all add: w1_def worker_info_def)
  have "generate_test J en r (worker_info (we_timebuf en) ''add new conf'' w) = Inr (new_test (UdpT t) w1)"
    using generate_udp [OF f(3,4)] by (simp add: t_def w1_def)
  from handle_add [OF assms(1) f(1,2) this i(1)] assms(3)
  have "w_test_map w' = smap_put i (w_next w1) (w_test_map w)" "w_out w' = w_out w @ [ack_msg i d]"
    by (auto simp: t w1)
  moreover have "msg_id J d = Some i" using f(1,2) i(1) by (simp add: msg_id_def)
  ultimately show ?thesis
    using assms(1) by (auto simp: ids_def table_effect_def acks_of_def smap_find_put)
qed

lemma handle_msg_del:
  assumes "cd_type d = MASTER_MSG_TYPE_DELCONF" "add_fits J (we_config en) d"
    and "handle_msg J en d w = Inr (go, w')" "smap_ok (w_test_map w)"
  shows "ids w' = table_effect J d (ids w) \<and> w_out w' = w_out w @ acks_of J d"
proof -
  obtain s i r where f: "msg_text d = Inr s" "j_parse J s = Some r" "ok_obj J r ''UDP'' i"
    using assms(2) by (auto simp: add_fits_def udp_object_def)
  have i: "j_int J r ''id'' = Some i" "asInt J r ''id'' = Inr i" "isMember J r ''id'' = Inr True"
    using f(3) by (simp_all add: ok_obj_def asInt_def isMember_def)
  define v where "v = worker_info (we_timebuf en) ''delete conf'' w"
  have v: "w_test_map v = w_test_map w" "w_out v = w_out w" by (simp_all add: v_def worker_info_def)
  obtain x where "delete_test J r v = Inr (x, w')"
    using assms(1,3) f(1,2) by (auto simp: handle_msg_def v_def msg_type_defs)
  then have "w_out w' = w_out w \<and> (w_test_map w' = smap_erase i (w_test_map w) \<or>
      smap_find (w_test_map w) i = None \<and> w_test_map w' = w_test_map w)"
    using i v by (auto simp: delete_test_def split: option.splits)
  moreover have "msg_id J d = Some i" using f(1,2) i(1) by (simp add: msg_id_def)
  ultimately show ?thesis
    using assms(1,4) by (auto simp: ids_def table_effect_def acks_of_def msg_type_defs split: if_splits)
qed

lemma handle_msg_other:
  assumes "cd_type d \<noteq> MASTER_MSG_TYPE_ADDCONF" "cd_type d \<noteq> MASTER_MSG_TYPE_DELCONF"
    and "handle_msg J en d w = Inr (go, w')"
  shows "ids w' = table_effect J d (ids w) \<and> w_out w' = w_out w @ acks_of J d"
proof -
  have "w_test_map w' = w_test_map w \<and> w_out w' = w_out w"
    using assms by (auto simp: handle_msg_def Let_def worker_info_def split: if_splits elim!: openredis_sets)
  then show ?thesis
    using assms(1,2) by (simp add: ids_def table_effect_def acks_of_def split: option.split)
qed

lemma handle_msg_table:
  assumes "worker_inv w" "good_msg J (we_config en) d" "handle_msg J en d w = Inr (go, w')"
  shows "ids w' = table_effect J d (ids w) \<and> w_out w' = w_out w @ acks_of J d"
  using assms handle_msg_add [OF _ _ assms(3)] handle_msg_del [OF _ _ assms(3) worker_invD(1) [OF assms(1)]]
    handle_msg_other [OF _ _ assms(3)] by (auto simp: good_msg_def)


text \<open>A run of messages.\<close>

fun table_step :: "'j jsonlib \<Rightarrow> channel_data \<Rightarrow> int set \<times> channel_data list \<Rightarrow>
    int set \<times> channel_data list" where
  "table_step J d (S, out) = (table_effect J d S, out @ acks_of J d)"

lemma fold_table_step:
  "fold (table_step J) ds (S, out) = (fold (table_effect J) ds S, out @ concat (map (acks_of J) ds))"
  by (induction ds arbitrary: S out) auto

definition deliver_good ::
  "'j jsonlib \<Rightarrow> 'c worker_env \<Rightarrow> channel_data \<Rightarrow> 'c worker \<Rightarrow> 'c worker res" where
  "deliver_good J en d w = (if good_msg J (we_config en) d then deliver1 J en d w else Inl UncaughtException)"

interpretation wt: refines_machine "deliver_good J en" worker_inv "\<lambda>w. (ids w, w_out w)" "table_step J"
  for J en
proof
  fix w d w' assume w: "worker_inv w" "deliver_good J en d w = Inr w'"
  then obtain go where h: "good_msg J (we_config en) d" "handle_msg J en d w = Inr (go, w')"
    by (auto simp: deliver_good_def deliver1_def split: if_splits)
  show "worker_inv w'" by (rule handle_msg_inv [OF w(1) h(2)])
  show "(ids w', w_out w') = table_step J d (ids w, w_out w)"
    using handle_msg_table [OF w(1) h] by simp
qed

lemma deliver_good:
  "list_all (good_msg J (we_config en)) ds \<Longrightarrow> fold_res (deliver_good J en) ds w = deliver J en ds w"
proof (induction ds arbitrary: w)
  case (Cons d ds)
  then show ?case
    by (cases "deliver1 J en d w") (simp_all add: deliver_good_def deliver_def)
qed (simp add: deliver_def)

lemma deliver_table:
  assumes "worker_inv w" "list_all (good_msg J (we_config en)) ds" "deliver J en ds w = Inr w'"
  shows "worker_inv w' \<and> ids w' = fold (table_effect J) ds (ids w) \<and>
    w_out w' = w_out w @ concat (map (acks_of J) ds)"
  using wt.run_refines [OF assms(1), of J en ds w'] assms(3)
  by (simp add: deliver_good [OF assms(2)] fold_table_step)

text \<open>One read of the channel: what was left over and the new bytes, as far as they make messages.\<close>

lemma channel_in_table:
  assumes "worker_inv w" "worker_handle J en (ChannelIn c) w = Inr w'"
    and "deframe channel_data_size cd_of_bytes (w_inbuf w @ c) = (ds, rest)"
    and "list_all (good_msg J (we_config en)) ds"
  shows "worker_inv w' \<and> w_inbuf w' = rest \<and> ids w' = fold (table_effect J) ds (ids w) \<and>
    w_out w' = w_out w @ concat (map (acks_of J) ds)"
proof -
  define v where "v = w\<lparr>w_inbuf := []\<rparr>"
  have v: "worker_inv v" unfolding v_def by (rule worker_inv_frame [OF assms(1)]) simp_all
  have f: "ids v = ids w" "w_out v = w_out w" by (simp_all add: v_def ids_def)
  have p: "list_all (parses J) (fst (deframe channel_data_size cd_of_bytes (w_inbuf w @ c)))"
    using assms(3,4) good_msg_parses by (auto simp: list_all_iff)
  obtain w1 where w1: "deliver J en ds v = Inr w1" "w' = w1\<lparr>w_inbuf := rest\<rparr>"
    using assms(2) drain_deframe [OF p, of en v] assms(3)
    by (auto simp: deal_channel_data_def v_def)
  from deliver_table [OF v assms(4) w1(1)]
  have t: "worker_inv w1" "ids w1 = fold (table_effect J) ds (ids w)"
    "w_out w1 = w_out w @ concat (map (acks_of J) ds)" by (simp_all add: f)
  have "worker_inv w'" unfolding w1(2) by (rule worker_inv_frame [OF t(1)]) simp_all
  then show ?thesis using t by (simp add: w1(2) ids_def)
qed

subsection \<open>Messages a worker can act on do not fault\<close>

text \<open>\<open>redisAsyncConnect\<close> returns a connection, for every port.\<close>

definition connects :: "'c worker_env \<Rightarrow> bool" where
  "connects en \<longleftrightarrow> (\<forall>k p. we_redis en k p \<noteq> None)"

lemma good_msg_handled:
  assumes "worker_inv w" "good_msg J (we_config en) d" "connects en"
  shows "\<exists>w'. handle_msg J en d w = Inr (True, w')"
proof -
  consider (add) "cd_type d = MASTER_MSG_TYPE_ADDCONF" | (del) "cd_type d = MASTER_MSG_TYPE_DELCONF"
    | (port) "cd_type d = MASTER_MSG_TYPE_REDISPORT"
    | (other) "cd_type d \<noteq> MASTER_MSG_TYPE_ADDCONF" "cd_type d \<noteq> MASTER_MSG_TYPE_DELCONF"
      "cd_type d \<noteq> MASTER_MSG_TYPE_REDISPORT" by blast
  then show ?thesis
  proof cases
    case add
    then obtain s i r c where f: "msg_text d = Inr s" "j_parse J s = Some r" "ok_obj J r ''UDP'' i"
      "udp_conf J (we_config en) r = Inr c"
      using assms(2) by (auto simp: good_msg_def add_fits_def udp_object_def)
    then have "j_int J r ''id'' = Some i" by (simp add: ok_obj_def)
    from handle_add [OF add f(1,2) generate_udp [OF f(3,4)] this] show ?thesis by blast
  next
    case del
    then obtain s i r where f: "msg_text d = Inr s" "j_parse J s = Some r" "ok_obj J r ''UDP'' i"
      using assms(2) by (auto simp: good_msg_def add_fits_def udp_object_def)
    then have i: "asInt J r ''id'' = Inr i" "isMember J r ''id'' = Inr True"
      by (simp_all add: ok_obj_def asInt_def isMember_def)
    define v where "v = worker_info (we_timebuf en) ''delete conf'' w"
    have v: "worker_inv v" unfolding v_def by (rule worker_info_inv [OF assms(1)])
    have "\<exists>x. delete_test J r v = Inr x"
    proof (cases "smap_find (w_test_map v) i")
      case (Some a)
      with worker_invD(4) [OF v Some] show ?thesis by (auto simp: delete_test_def i)
    qed (simp add: delete_test_def i)
    with f del show ?thesis by (auto simp: handle_msg_def v_def msg_type_defs)
  next
    case port
    then obtain s n where "msg_text d = Inr s" "atoi s = Inr n"
      using assms(2) by (auto simp: good_msg_def)
    moreover have "\<exists>v'. openredis en v = Inr v'" for v
    proof -
      obtain c where "we_redis en (w_connects v) (w_redisport v) = Some c"
        using assms(3) by (auto simp: connects_def)
      then show ?thesis by (cases "we_redis_err en c") (simp_all add: openredis_def Let_def)
    qed
    then obtain w2 where
      "openredis en ((worker_info (we_timebuf en) ''FIFO path'' w)\<lparr>w_redisport := n\<rparr>) = Inr w2" by blast
    ultimately show ?thesis using port by (simp add: handle_msg_def msg_type_defs)
  next
    case other
    then show ?thesis by (simp add: handle_msg_def)
  qed
qed

lemma deliver_total:
  assumes "worker_inv w" "list_all (good_msg J (we_config en)) ds" "connects en"
  shows "\<exists>w'. deliver J en ds w = Inr w'"
  using assms
proof (induction ds arbitrary: w)
  case (Cons d ds)
  obtain w1 where w1: "handle_msg J en d w = Inr (True, w1)"
    using good_msg_handled [OF Cons.prems(1) _ assms(3)] Cons.prems(2) by auto
  have "\<exists>w'. deliver J en ds w1 = Inr w'"
    using handle_msg_inv [OF Cons.prems(1) w1] Cons.prems(2,3) by (intro Cons.IH) simp_all
  with w1 show ?case by (simp add: deliver_def deliver1_def)
qed (simp add: deliver_def)

lemma channel_in_total:
  assumes "worker_inv w" "list_all (good_msg J (we_config en)) (fst (deframe channel_data_size cd_of_bytes (w_inbuf w @ c)))"
    and "connects en"
  shows "\<exists>w'. worker_handle J en (ChannelIn c) w = Inr w'"
proof -
  define v where "v = w\<lparr>w_inbuf := []\<rparr>"
  have v: "worker_inv v" unfolding v_def by (rule worker_inv_frame [OF assms(1)]) simp_all
  have p: "list_all (parses J) (fst (deframe channel_data_size cd_of_bytes (w_inbuf w @ c)))"
    using assms(2) good_msg_parses by (auto simp: list_all_iff)
  obtain w1 where "deliver J en (fst (deframe channel_data_size cd_of_bytes (w_inbuf w @ c))) v = Inr w1"
    using deliver_total [OF v assms(2,3)] by blast
  then show ?thesis using drain_deframe [OF p, of en v] by (simp add: deal_channel_data_def v_def)
qed

end
