(* ===== verification/Network.thy ===== *)
theory Network
  imports System Worker_Table
begin

section \<open>A master and its workers, with bytes in flight\<close>

text \<open>
  The whole running system as a step relation: the master, one worker at the far end of each
  channel, and the bytes on their way in both directions. A step is a request, a timer, a read
  of any size at either end, or an event inside a worker; the order is free. The invariant says
  that the tests a worker runs, after the messages still on their way to it, are exactly the
  configurations the master has assigned to it. It needs a discipline that the code does not
  enforce (\<open>request_ok\<close>): the configurations are UDP tests that fit a message, and an id is not
  posted again while an earlier message or answer about it is still on its way. The last section
  shows what happens without the latter.
\<close>

subsection \<open>States and steps\<close>

record 'c net =
  n_master :: master
  n_workers :: "int \<Rightarrow> 'c worker"       \<comment> \<open>by the master's end of the channel\<close>
  n_down :: "int \<Rightarrow> string"             \<comment> \<open>written by the master, not yet read\<close>
  n_up :: "int \<Rightarrow> string"               \<comment> \<open>written by the worker, not yet read\<close>
  n_rest :: "int \<Rightarrow> string"             \<comment> \<open>the master's input buffer\<close>

abbreviation chan_of :: "master \<Rightarrow> int \<Rightarrow> int option" where
  "chan_of m \<equiv> smap_find (m_configid_channel m)"

abbreviation frames :: "string \<Rightarrow> channel_data list \<times> string" where
  "frames \<equiv> deframe channel_data_size cd_of_bytes"

definition writes_to :: "int \<Rightarrow> fd_write list \<Rightarrow> string" where
  "writes_to fd ws = concat (map snd (filter (\<lambda>(f, bs). f = fd) ws))"

text \<open>The master went on to \<open>m'\<close>, a worker to \<open>w'\<close>: what they wrote is on its way.\<close>

definition master_did :: "master \<Rightarrow> 'c net \<Rightarrow> 'c net" where
  "master_did m' n = n\<lparr>n_master := m', n_down := (\<lambda>fd. n_down n fd @
     writes_to fd (drop (length (m_writes (n_master n))) (m_writes m')))\<rparr>"

definition worker_did :: "int \<Rightarrow> 'c worker \<Rightarrow> 'c net \<Rightarrow> 'c net" where
  "worker_did fd w' n = n\<lparr>n_workers := (n_workers n)(fd := w'), n_up := (n_up n)(fd := n_up n fd @
     concat (map cd_bytes (drop (length (w_out (n_workers n fd))) (w_out w'))))\<rparr>"

definition down_msgs :: "'c net \<Rightarrow> int \<Rightarrow> channel_data list" where
  "down_msgs n fd = fst (frames (w_inbuf (n_workers n fd) @ n_down n fd))"

definition up_msgs :: "'c net \<Rightarrow> int \<Rightarrow> channel_data list" where
  "up_msgs n fd = fst (frames (n_rest n fd @ n_up n fd))"

text \<open>No ADDCONF with this id and no answer to one is on its way.\<close>

definition settled :: "'j jsonlib \<Rightarrow> 'c net \<Rightarrow> int \<Rightarrow> bool" where
  "settled J n i \<longleftrightarrow> (\<forall>fd \<in> set (m_channels (n_master n)).
     (\<forall>d \<in> set (down_msgs n fd). cd_type d = MASTER_MSG_TYPE_ADDCONF \<longrightarrow> msg_id J d \<noteq> Some i) \<and>
     (\<forall>a \<in> set (up_msgs n fd). cd_type a = MASTER_MSG_TYPE_ADDCONF \<longrightarrow> ack_id a \<noteq> i))"

definition request_ok ::
  "'j jsonlib \<Rightarrow> (int \<Rightarrow> 'c worker_env) \<Rightarrow> 'c net \<Rightarrow> http_cmd \<Rightarrow> string \<Rightarrow> bool" where
  "request_ok J en n cmd body \<longleftrightarrow>
     (case req_object J cmd body of
        Inr (Some (i, js)) \<Rightarrow> length js < MAX_MSG_LEN \<and>
          (\<forall>fd \<in> set (m_channels (n_master n)). udp_object J (we_config (en fd)) js i) \<and>
          (store_of (n_master n) i = None \<longrightarrow> settled J n i)
      | _ \<Rightarrow> True)"

fun is_timer :: "master_input \<Rightarrow> bool" where
  "is_timer FlushDue = True"
| "is_timer (SplitLogDue tb ren newfd) = True"
| "is_timer _ = False"

text \<open>A step is labelled with the inputs of the master it consists of: one, or none.\<close>

inductive net_step ::
  "'j jsonlib \<Rightarrow> (int \<Rightarrow> 'c worker_env) \<Rightarrow> 'c net \<Rightarrow> master_input list \<Rightarrow> 'c net \<Rightarrow> bool"
  for J en where
  request: "request_ok J en n cmd body \<Longrightarrow> master_handle J (Http uri cmd body) (n_master n) = Inr m' \<Longrightarrow>
    net_step J en n [Http uri cmd body] (master_did m' n)"
| timer: "is_timer e \<Longrightarrow> master_handle J e (n_master n) = Inr m' \<Longrightarrow>
    net_step J en n [e] (master_did m' n)"
| master_read: "fd \<in> set (m_channels (n_master n)) \<Longrightarrow> n_up n fd = c @ r \<Longrightarrow>
    master_channel_data fd (n_rest n fd @ c) (n_master n) = (rest, m') \<Longrightarrow>
    net_step J en n [ChannelRead fd (n_rest n fd @ c)] (n\<lparr>n_master := m', n_up := (n_up n)(fd := r), n_rest := (n_rest n)(fd := rest)\<rparr>)"
| worker_read: "fd \<in> set (m_channels (n_master n)) \<Longrightarrow> n_down n fd = c @ r \<Longrightarrow>
    worker_handle J (en fd) (ChannelIn c) (n_workers n fd) = Inr w' \<Longrightarrow>
    net_step J en n [] (worker_did fd w' (n\<lparr>n_down := (n_down n)(fd := r)\<rparr>))"
| worker_event: "fd \<in> set (m_channels (n_master n)) \<Longrightarrow> \<not> is_channel_in i \<Longrightarrow>
    worker_handle J (en fd) i (n_workers n fd) = Inr w' \<Longrightarrow>
    net_step J en n [] (worker_did fd w' n)"

inductive net_reach ::
  "'j jsonlib \<Rightarrow> (int \<Rightarrow> 'c worker_env) \<Rightarrow> 'c net \<Rightarrow> master_input list \<Rightarrow> 'c net \<Rightarrow> bool"
  for J en n0 where
  start: "net_reach J en n0 [] n0"
| more: "net_reach J en n0 es n \<Longrightarrow> net_step J en n fs n' \<Longrightarrow> net_reach J en n0 (es @ fs) n'"

fun is_channel_read :: "master_input \<Rightarrow> bool" where
  "is_channel_read (ChannelRead fd buf) = True"
| "is_channel_read _ = False"

subsection \<open>One channel\<close>

text \<open>The ids the master has assigned to a channel.\<close>

definition assigned :: "master \<Rightarrow> int \<Rightarrow> int set" where
  "assigned m fd = {i. store_of m i \<noteq> None \<and> chan_of m i = Some fd}"

text \<open>
  A channel in order: the bytes on their way are whole messages, every configuration among them
  and every answer is about an id assigned to this channel, and after the messages the worker
  runs what the master has assigned.
\<close>

definition down_ok :: "'j jsonlib \<Rightarrow> config \<Rightarrow> master \<Rightarrow> int \<Rightarrow> 'c worker \<Rightarrow> channel_data list \<Rightarrow> bool" where
  "down_ok J junk m fd w ds \<longleftrightarrow> list_all (good_msg J junk) ds \<and>
     (\<forall>d \<in> set ds. cd_type d = MASTER_MSG_TYPE_ADDCONF \<longrightarrow> chan_of m (the (msg_id J d)) = Some fd) \<and>
     fold (table_effect J) ds (ids w) = assigned m fd"

definition up_ok :: "master \<Rightarrow> int \<Rightarrow> channel_data list \<Rightarrow> bool" where
  "up_ok m fd as \<longleftrightarrow>
     (\<forall>a \<in> set as. cd_type a = MASTER_MSG_TYPE_ADDCONF \<longrightarrow> chan_of m (ack_id a) = Some fd)"

definition link_ok ::
  "'j jsonlib \<Rightarrow> config \<Rightarrow> master \<Rightarrow> int \<Rightarrow> 'c worker \<Rightarrow> string \<Rightarrow> string \<Rightarrow> bool" where
  "link_ok J junk m fd w down up \<longleftrightarrow> worker_inv w \<and> length (w_inbuf w) < channel_data_size \<and>
     (\<exists>ds as. frames (w_inbuf w @ down) = (ds, []) \<and> frames up = (as, []) \<and>
       down_ok J junk m fd w ds \<and> up_ok m fd as)"

lemma frames_snoc:
  assumes "frames b = (ds, [])" "list_all cd_valid es"
  shows "frames (b @ concat (map cd_bytes es)) = (ds @ es, [])"
  using chan.deframe_append [of b "concat (map cd_bytes es)"] assms
    chan.deframe_encoded [OF assms(2), of "[]"] chan.size_pos by simp

lemma frames_cut:
  assumes "frames (b @ c) = (ds, [])" "frames b = (ds1, rest)"
  shows "frames (rest @ c) = (drop (length ds1) ds, [])" "ds = ds1 @ drop (length ds1) ds"
  using chan.deframe_append [of b c] assms by (auto intro: prod_eqI)

text \<open>The channel is not concerned: the master changed, but nothing this channel speaks of.\<close>

lemma link_ok_same:
  assumes "link_ok J junk m fd w down up" "assigned m' fd = assigned m fd"
    and "\<And>d. d \<in> set (fst (frames (w_inbuf w @ down))) \<Longrightarrow> cd_type d = MASTER_MSG_TYPE_ADDCONF \<Longrightarrow>
        chan_of m' (the (msg_id J d)) = chan_of m (the (msg_id J d))"
    and "\<And>a. a \<in> set (fst (frames up)) \<Longrightarrow> cd_type a = MASTER_MSG_TYPE_ADDCONF \<Longrightarrow>
        chan_of m' (ack_id a) = chan_of m (ack_id a)"
  shows "link_ok J junk m' fd w down up"
proof -
  obtain ds as where l: "frames (w_inbuf w @ down) = (ds, [])" "frames up = (as, [])"
    "down_ok J junk m fd w ds" "up_ok m fd as" "worker_inv w" "length (w_inbuf w) < channel_data_size"
    using assms(1) by (auto simp: link_ok_def)
  have "down_ok J junk m' fd w ds" "up_ok m' fd as"
    using l assms(2-4) by (simp_all add: down_ok_def up_ok_def)
  with l show ?thesis by (simp add: link_ok_def)
qed

text \<open>The master sends a message on the channel.\<close>

lemma link_ok_send:
  assumes "link_ok J junk m fd w down up" "good_msg J junk d"
    and "cd_type d = MASTER_MSG_TYPE_ADDCONF \<Longrightarrow> chan_of m' (the (msg_id J d)) = Some fd"
    and "assigned m' fd = table_effect J d (assigned m fd)"
    and "\<And>d. d \<in> set (fst (frames (w_inbuf w @ down))) \<Longrightarrow> cd_type d = MASTER_MSG_TYPE_ADDCONF \<Longrightarrow>
        chan_of m' (the (msg_id J d)) = chan_of m (the (msg_id J d))"
    and "\<And>a. a \<in> set (fst (frames up)) \<Longrightarrow> cd_type a = MASTER_MSG_TYPE_ADDCONF \<Longrightarrow>
        chan_of m' (ack_id a) = chan_of m (ack_id a)"
  shows "link_ok J junk m' fd w (down @ cd_bytes d) up"
proof -
  obtain ds as where l: "frames (w_inbuf w @ down) = (ds, [])" "frames up = (as, [])"
    "down_ok J junk m fd w ds" "up_ok m fd as" "worker_inv w" "length (w_inbuf w) < channel_data_size"
    using assms(1) by (auto simp: link_ok_def)
  have "cd_valid d" using assms(2) by (simp add: good_msg_def)
  then have f: "frames (w_inbuf w @ down @ cd_bytes d) = (ds @ [d], [])"
    using frames_snoc [OF l(1), of "[d]"] by simp
  have "down_ok J junk m' fd w (ds @ [d])" "up_ok m' fd as"
    using l assms(2-6) by (auto simp: down_ok_def up_ok_def)
  with l f show ?thesis by (simp add: link_ok_def)
qed

text \<open>The worker reads a piece of any size.\<close>

lemma link_ok_worker_read:
  assumes "link_ok J (we_config en) m fd w (c @ r) up" "worker_handle J en (ChannelIn c) w = Inr w'"
  shows "link_ok J (we_config en) m fd w' r
    (up @ concat (map cd_bytes (drop (length (w_out w)) (w_out w'))))"
proof -
  obtain ds as where l: "frames ((w_inbuf w @ c) @ r) = (ds, [])" "frames up = (as, [])"
    "down_ok J (we_config en) m fd w ds" "up_ok m fd as" "worker_inv w" "length (w_inbuf w) < channel_data_size"
    using assms(1) by (auto simp: link_ok_def)
  obtain ds1 rest where f: "frames (w_inbuf w @ c) = (ds1, rest)" by fastforce
  define ds2 where "ds2 = drop (length ds1) ds"
  note cut = frames_cut [OF l(1) f, folded ds2_def]
  have g: "list_all (good_msg J (we_config en)) ds1" "list_all (good_msg J (we_config en)) ds2"
    using l(3) cut(2) by (simp_all add: down_ok_def)
  note t = channel_in_table [OF l(5) assms(2) f g(1)]
  have d2: "down_ok J (we_config en) m fd w' ds2"
    using l(3) cut(2) t g by (auto simp: down_ok_def)
  define es where "es = concat (map (acks_of J) ds1)"
  have es: "cd_valid a \<and> (cd_type a = MASTER_MSG_TYPE_ADDCONF \<longrightarrow> chan_of m (ack_id a) = Some fd)"
    if a: "a \<in> set es" for a
  proof -
    obtain d where d0: "d \<in> set ds1" "a \<in> set (acks_of J d)" using a by (auto simp: es_def)
    then have "cd_type d = MASTER_MSG_TYPE_ADDCONF \<and> (\<exists>i. msg_id J d = Some i \<and> a = ack_msg i d)"
      by (simp add: in_acks_of)
    then obtain i where d: "d \<in> set ds1" "cd_type d = MASTER_MSG_TYPE_ADDCONF" "msg_id J d = Some i"
      "a = ack_msg i d" using d0(1) by blast
    have "good_msg J (we_config en) d" using g(1) d(1) by (simp add: list_all_iff)
    then have "cd_valid d" "int_range i"
      using d(2,3) by (auto simp: good_msg_def dest: add_fits_id)
    moreover have "chan_of m i = Some fd"
      using l(3) cut(2) d(1-3) by (auto simp: down_ok_def)
    ultimately show ?thesis by (simp add: d(4) cd_valid_ack_msg ack_id_msg)
  qed
  have u: "up_ok m fd (as @ es)" using l(4) es by (auto simp: up_ok_def)
  have "list_all cd_valid es" using es by (auto simp: list_all_iff)
  then have "frames (up @ concat (map cd_bytes es)) = (as @ es, [])" by (rule frames_snoc [OF l(2)])
  moreover have "length rest < channel_data_size"
    using chan.deframe_rest [of "w_inbuf w @ c"] by (simp add: f)
  ultimately show ?thesis using d2 u t cut(1) by (simp add: link_ok_def es_def)
qed

text \<open>Something else happens in the worker.\<close>

lemma link_ok_worker_event:
  assumes "link_ok J junk m fd w down up" "worker_handle J en i w = Inr w'" "\<not> is_channel_in i"
  shows "link_ok J junk m fd w' down
    (up @ concat (map cd_bytes (drop (length (w_out w)) (w_out w'))))"
proof -
  have v: "w_test_map w' = w_test_map w" "w_inbuf w' = w_inbuf w" "w_out w' = w_out w"
    using other_input_view [OF assms(2,3)] by (simp_all add: channel_view_def)
  have "worker_inv w'" using assms(1) by (intro worker_handle_inv [OF _ assms(2)]) (simp add: link_ok_def)
  with assms(1) show ?thesis by (simp add: link_ok_def v down_ok_def ids_def)
qed

text \<open>The master reads answers: they confirm what its table says.\<close>

lemma up_ok_confirms:
  "up_ok m fd as \<Longrightarrow> chan_of (fold (master_msg fd) as m) = chan_of m \<and>
     m_configid_map (fold (master_msg fd) as m) = m_configid_map m \<and>
     m_writes (fold (master_msg fd) as m) = m_writes m"
proof (induction as arbitrary: m)
  case (Cons a as)
  have c: "chan_of (master_msg fd a m) = chan_of m"
    using Cons.prems by (auto simp: up_ok_def master_msg_def fun_eq_iff smap_find_put)
  have f: "m_configid_map (master_msg fd a m) = m_configid_map m" "m_writes (master_msg fd a m) = m_writes m"
    by (simp_all add: master_msg_def)
  have "up_ok (master_msg fd a m) fd as" using Cons.prems by (simp add: up_ok_def c)
  from Cons.IH [OF this] show ?case by (simp add: c f)
qed simp

lemma link_ok_cong:
  assumes "chan_of m' = chan_of m" "m_configid_map m' = m_configid_map m"
  shows "link_ok J junk m' fd w down up = link_ok J junk m fd w down up"
  by (simp add: link_ok_def down_ok_def up_ok_def assigned_def store_of_def assms)

lemma link_ok_master_read:
  assumes "link_ok J junk m fd w down (b @ r)" "master_channel_data fd b m = (rest, m')"
  shows "link_ok J junk m' fd w down (rest @ r)" "chan_of m' = chan_of m"
    "m_configid_map m' = m_configid_map m" "m_writes m' = m_writes m"
proof -
  obtain ds as where l: "frames (w_inbuf w @ down) = (ds, [])" "frames (b @ r) = (as, [])"
    "down_ok J junk m fd w ds" "up_ok m fd as" "worker_inv w" "length (w_inbuf w) < channel_data_size"
    using assms(1) by (auto simp: link_ok_def)
  obtain as1 x where f: "frames b = (as1, x)" by fastforce
  then have m': "m' = fold (master_msg fd) as1 m" "x = rest"
    using assms(2) by (simp_all add: master_channel_data_def)
  note cut = frames_cut [OF l(2) f [unfolded m'(2)]]
  have u: "up_ok m fd as1" "up_ok m fd (drop (length as1) as)"
    using l(4) cut(2) by (auto simp: up_ok_def dest: in_set_dropD) (metis UnI1 set_append)
  show c: "chan_of m' = chan_of m" "m_configid_map m' = m_configid_map m" "m_writes m' = m_writes m"
    using up_ok_confirms [OF u(1)] by (simp_all add: m'(1))
  have "link_ok J junk m fd w down (rest @ r)" using l u(2) cut(1) by (simp add: link_ok_def)
  then show "link_ok J junk m' fd w down (rest @ r)" by (simp add: link_ok_cong [OF c(1,2)])
qed


subsection \<open>All channels\<close>

definition links_ok :: "'j jsonlib \<Rightarrow> (int \<Rightarrow> 'c worker_env) \<Rightarrow> 'c net \<Rightarrow> bool" where
  "links_ok J en n \<longleftrightarrow> (\<forall>fd \<in> set (m_channels (n_master n)).
     link_ok J (we_config (en fd)) (n_master n) fd (n_workers n fd) (n_down n fd) (n_rest n fd @ n_up n fd))"

definition net_inv :: "'j jsonlib \<Rightarrow> (int \<Rightarrow> 'c worker_env) \<Rightarrow> 'c net \<Rightarrow> bool" where
  "net_inv J en n \<longleftrightarrow> master_inv (n_master n) \<and> distributed (n_master n) \<and> links_ok J en n"

lemma settledD:
  assumes "settled J n i" "fd \<in> set (m_channels (n_master n))"
  shows "d \<in> set (fst (frames (w_inbuf (n_workers n fd) @ n_down n fd))) \<Longrightarrow>
      cd_type d = MASTER_MSG_TYPE_ADDCONF \<Longrightarrow> msg_id J d \<noteq> Some i"
    and "a \<in> set (fst (frames (n_rest n fd @ n_up n fd))) \<Longrightarrow>
      cd_type a = MASTER_MSG_TYPE_ADDCONF \<Longrightarrow> ack_id a \<noteq> i"
  using assms by (simp_all add: settled_def down_msgs_def up_msgs_def)

text \<open>Every configuration on its way has an id.\<close>

lemma links_ok_ids:
  assumes "links_ok J en n" "fd \<in> set (m_channels (n_master n))"
    and "d \<in> set (fst (frames (w_inbuf (n_workers n fd) @ n_down n fd)))"
    and "cd_type d = MASTER_MSG_TYPE_ADDCONF"
  shows "\<exists>i. msg_id J d = Some i"
proof -
  have "good_msg J (we_config (en fd)) d"
    using assms(1-3) by (auto simp: links_ok_def link_ok_def down_ok_def list_all_iff)
  with assms(4) show ?thesis by (auto simp: good_msg_def dest: add_fits_id)
qed

text \<open>
  The master writes one message to \<open>f\<close> and goes on to \<open>m'\<close>; where its table of channels changed,
  nothing about that id is on its way.
\<close>

lemma links_ok_send:
  assumes "links_ok J en n" "m_channels m' = m_channels (n_master n)"
    and "m_writes m' = m_writes (n_master n) @ [send_msg f t js]" "f \<in> set (m_channels (n_master n))"
    and "\<forall>fd \<in> set (m_channels (n_master n)). good_msg J (we_config (en fd)) (mk_channel_data t js)"
    and "t = MASTER_MSG_TYPE_ADDCONF \<Longrightarrow> chan_of m' (the (msg_id J (mk_channel_data t js))) = Some f"
    and "\<And>i. chan_of m' i = chan_of (n_master n) i \<or> settled J n i"
    and "\<And>fd. assigned m' fd = (if fd = f then table_effect J (mk_channel_data t js) (assigned (n_master n) fd)
      else assigned (n_master n) fd)"
  shows "links_ok J en (master_did m' n)"
  unfolding links_ok_def
proof
  fix fd assume "fd \<in> set (m_channels (n_master (master_did m' n)))"
  then have fd: "fd \<in> set (m_channels (n_master n))" by (simp add: master_did_def assms(2))
  define w down up where "w = n_workers n fd" and "down = n_down n fd" and "up = n_rest n fd @ n_up n fd"
  have l: "link_ok J (we_config (en fd)) (n_master n) fd w down up"
    using assms(1) fd by (simp add: links_ok_def w_def down_def up_def)
  have i1: "chan_of m' (the (msg_id J d)) = chan_of (n_master n) (the (msg_id J d))"
    if d: "d \<in> set (fst (frames (w_inbuf w @ down)))" "cd_type d = MASTER_MSG_TYPE_ADDCONF" for d
  proof -
    obtain i where "msg_id J d = Some i"
      using links_ok_ids [OF assms(1) fd] d by (auto simp: w_def down_def)
    then show ?thesis using assms(7) [of i] settledD(1) [OF _ fd, of J i d] d by (auto simp: w_def down_def)
  qed
  have i2: "chan_of m' (ack_id a) = chan_of (n_master n) (ack_id a)"
    if a: "a \<in> set (fst (frames up))" "cd_type a = MASTER_MSG_TYPE_ADDCONF" for a
    using assms(7) [of "ack_id a"] settledD(2) [OF _ fd, of J "ack_id a" a] a by (auto simp: up_def)
  have "link_ok J (we_config (en fd)) m' fd w (down @ writes_to fd [send_msg f t js]) up"
  proof (cases "fd = f")
    case True
    have "link_ok J (we_config (en fd)) m' fd w (down @ cd_bytes (mk_channel_data t js)) up"
      using assms(5,6,8) fd True by (intro link_ok_send [OF l]) (simp_all add: i1 i2)
    then show ?thesis using True by (simp add: writes_to_def send_msg_def)
  next
    case False
    have "link_ok J (we_config (en fd)) m' fd w down up"
      using False assms(8) by (intro link_ok_same [OF l]) (simp_all add: i1 i2)
    then show ?thesis using False by (simp add: writes_to_def send_msg_def)
  qed
  then show "link_ok J (we_config (en fd)) (n_master (master_did m' n)) fd (n_workers (master_did m' n) fd)
      (n_down (master_did m' n) fd) (n_rest (master_did m' n) fd @ n_up (master_did m' n) fd)"
    by (simp add: master_did_def assms(3) w_def down_def up_def)
qed

lemma links_ok_quiet:
  assumes "links_ok J en n" "m_channels m' = m_channels (n_master n)" "m_writes m' = m_writes (n_master n)"
    and "chan_of m' = chan_of (n_master n)" "m_configid_map m' = m_configid_map (n_master n)"
  shows "links_ok J en (master_did m' n)"
  using assms(1)
  by (simp add: links_ok_def master_did_def assms(2,3) writes_to_def link_ok_cong [OF assms(4,5)])

lemma links_ok_free_uri: "links_ok J en (master_did (free_uri u m') n) = links_ok J en (master_did m' n)"
proof -
  have "chan_of (free_uri u m') = chan_of m'" by (simp add: fun_eq_iff)
  then show ?thesis by (simp add: links_ok_def master_did_def link_ok_cong [of "free_uri u m'" m'])
qed

subsection \<open>Every step keeps the channels in order\<close>

text \<open>A configuration the discipline admits makes a message its worker can act on.\<close>

lemma request_message:
  assumes "req_object J cmd body = Inr (Some (i, js))" "udp_object J junk js i" "length js < MAX_MSG_LEN"
  shows "int_range t \<Longrightarrow> t \<noteq> MASTER_MSG_TYPE_REDISPORT \<Longrightarrow> good_msg J junk (mk_channel_data t js)"
    "msg_id J (mk_channel_data t js) = Some i"
proof -
  have "NUL \<notin> set js" using req_object_facts [OF assms(1)] by blast
  from msg_text_short [OF assms(3) this] have mt: "msg_text (mk_channel_data t js) = Inr js" .
  show "int_range t \<Longrightarrow> t \<noteq> MASTER_MSG_TYPE_REDISPORT \<Longrightarrow> good_msg J junk (mk_channel_data t js)"
    using assms(2) mt by (auto simp: good_msg_def cd_valid_mk add_fits_def)
  show "msg_id J (mk_channel_data t js) = Some i"
    using assms(2) mt by (auto simp: msg_id_def udp_object_def ok_obj_def)
qed

lemma other_effect:
  "t \<noteq> MASTER_MSG_TYPE_ADDCONF \<Longrightarrow> t \<noteq> MASTER_MSG_TYPE_DELCONF \<Longrightarrow>
   table_effect J (mk_channel_data t js) S = S"
  by (simp add: table_effect_def split: option.split)

lemma config_effect:
  assumes "msg_id J (mk_channel_data t js) = Some i"
  shows "t = MASTER_MSG_TYPE_ADDCONF \<Longrightarrow> table_effect J (mk_channel_data t js) S = insert i S"
    "t = MASTER_MSG_TYPE_DELCONF \<Longrightarrow> table_effect J (mk_channel_data t js) S = S - {i}"
  using assms by (simp_all add: table_effect_def, simp add: msg_type_defs)

lemma links_ok_deal:
  assumes "links_ok J en n" "master_inv (n_master n)" "distributed (n_master n)"
    and "request_ok J en n cmd body" "deal_metric_request J cmd body (n_master n) = Inr m'"
  shows "links_ok J en (master_did m' n)"
proof -
  define m where "m = n_master n"
  have inv: "master_inv m" and dist: "distributed m" using assms(2,3) by (simp_all add: m_def)
  have ok: "smap_ok (m_configid_map m)" "smap_ok (m_configid_channel m)" "smap_ok (m_config_map m)"
    using inv by (simp_all add: master_inv_def)
  show ?thesis using assms(5) [folded m_def]
  proof (cases rule: deal_metric_cases)
    case ignored
    then show ?thesis by (intro links_ok_quiet [OF assms(1)]) (simp_all add: m_def)
  next
    case (added i js)
    have r: "length js < MAX_MSG_LEN" "settled J n i"
      "\<And>fd. fd \<in> set (m_channels m) \<Longrightarrow> udp_object J (we_config (en fd)) js i"
      using assms(4) added(1,2) by (simp_all add: request_ok_def store_of_def m_def)
    obtain f where f: "least_loaded (m_config_map m) = Some f" "f \<in> set (m_channels m)"
      using least_loaded_channel [OF inv] by blast
    have m': "m' = emit f MASTER_MSG_TYPE_ADDCONF js (assign_channel i f (put_config i js m))"
      using added(3) f by (simp add: add_config_def)
    note a = assign_channel_fields [of "put_config i js m" i f]
    have c: "chan_of m' x = (if x = i then Some f else chan_of m x)" for x
      using a(7) ok by (simp add: m' smap_find_put)
    have st: "store_of m' x = (if x = i then Some js else store_of m x)" for x
      using a(3) ok by (simp add: m' store_of_def smap_find_put)
    have s0: "store_of (n_master n) i = None" using added(2) by (simp add: store_of_def m_def)
    have id: "msg_id J (mk_channel_data MASTER_MSG_TYPE_ADDCONF js) = Some i"
      using request_message(2) [OF added(1) r(3) [OF f(2)] r(1)] .
    show ?thesis
    proof (rule links_ok_send [OF assms(1)])
      show "m_channels m' = m_channels (n_master n)" using a(2) ok by (simp add: m' m_def)
      show "m_writes m' = m_writes (n_master n) @ [send_msg f MASTER_MSG_TYPE_ADDCONF js]"
        using a(4) ok by (simp add: m' m_def)
      show "f \<in> set (m_channels (n_master n))" using f(2) by (simp add: m_def)
      show "\<forall>fd \<in> set (m_channels (n_master n)).
          good_msg J (we_config (en fd)) (mk_channel_data MASTER_MSG_TYPE_ADDCONF js)"
        using request_message(1) [OF added(1) r(3) r(1)] by (simp add: m_def msg_type_defs int_range_def)
      show "chan_of m' x = chan_of (n_master n) x \<or> settled J n x" for x
        using c r(2) by (simp add: m_def)
      show "assigned m' fd = (if fd = f
          then table_effect J (mk_channel_data MASTER_MSG_TYPE_ADDCONF js) (assigned (n_master n) fd)
          else assigned (n_master n) fd)" for fd
        using s0 by (auto simp: assigned_def c st config_effect(1) [OF id refl] m_def)
    qed (simp add: c id)
  next
    case (edited i js s)
    have r: "length js < MAX_MSG_LEN" "\<And>fd. fd \<in> set (m_channels m) \<Longrightarrow> udp_object J (we_config (en fd)) js i"
      using assms(4) edited(1) by (simp_all add: request_ok_def m_def)
    obtain f where f: "chan_of m i = Some f" "f \<in> set (m_channels m)"
      using dist edited(2) by (auto simp: distributed_def)
    have m': "m' = emit f MASTER_MSG_TYPE_EDITCONF js (put_config i js m)"
      using edited(3) edit_config_known [OF f(1)] by simp
    have st: "store_of m' x = (if x = i then Some js else store_of m x)" for x
      using ok by (simp add: m' store_of_def smap_find_put)
    have e: "table_effect J (mk_channel_data MASTER_MSG_TYPE_EDITCONF js) S = S" for S
      by (rule other_effect) (simp_all add: msg_type_defs)
    show ?thesis
      using f request_message(1) [OF edited(1) r(2) r(1)] edited(2)
      by (intro links_ok_send [OF assms(1), of m' f MASTER_MSG_TYPE_EDITCONF js])
        (auto simp: m_def [symmetric] e assigned_def st store_of_def [of m], simp_all add: m' msg_type_defs int_range_def)
  qed
qed

lemma links_ok_delete:
  assumes "links_ok J en n" "master_inv (n_master n)" "distributed (n_master n)"
    and "request_ok J en n cmd body" "delete_metric_request J cmd body (n_master n) = Inr m'"
  shows "links_ok J en (master_did m' n)"
proof -
  define m where "m = n_master n"
  have inv: "master_inv m" and dist: "distributed m" using assms(2,3) by (simp_all add: m_def)
  have ok: "smap_ok (m_configid_map m)" using inv by (simp add: master_inv_def)
  show ?thesis using assms(5) [folded m_def]
  proof (cases rule: delete_metric_cases)
    case (deleted i js s f m1)
    have r: "length js < MAX_MSG_LEN" "\<And>fd. fd \<in> set (m_channels m) \<Longrightarrow> udp_object J (we_config (en fd)) js i"
      using assms(4) deleted(1) by (simp_all add: request_ok_def m_def)
    obtain g where g: "chan_of m i = Some g" "g \<in> set (m_channels m)"
      using dist deleted(2) by (auto simp: distributed_def)
    have m1: "f = g" "m1 = m\<lparr>m_configid_map := smap_erase i (m_configid_map m)\<rparr>"
      using deleted(3) g(1) by (auto simp: channel_of_def)
    have c: "chan_of m' = chan_of m" by (simp add: deleted(4) m1)
    have st: "store_of m' x = (if x = i then None else store_of m x)" for x
      using ok by (simp add: deleted(4) m1 store_of_def)
    have id: "msg_id J (mk_channel_data MASTER_MSG_TYPE_DELCONF js) = Some i"
      using request_message(2) [OF deleted(1) r(2) [OF g(2)] r(1)] .
    show ?thesis
    proof (rule links_ok_send [OF assms(1)])
      show "m_channels m' = m_channels (n_master n)" by (simp add: deleted(4) m1 m_def)
      show "m_writes m' = m_writes (n_master n) @ [send_msg f MASTER_MSG_TYPE_DELCONF js]"
        by (simp add: deleted(4) m1 m_def)
      show "f \<in> set (m_channels (n_master n))" using g(2) by (simp add: m1 m_def)
      show "\<forall>fd \<in> set (m_channels (n_master n)).
          good_msg J (we_config (en fd)) (mk_channel_data MASTER_MSG_TYPE_DELCONF js)"
        using request_message(1) [OF deleted(1) r(2) r(1)] by (simp add: m_def msg_type_defs int_range_def)
      show "chan_of m' x = chan_of (n_master n) x \<or> settled J n x" for x
        by (simp add: c m_def)
      show "assigned m' fd = (if fd = f
          then table_effect J (mk_channel_data MASTER_MSG_TYPE_DELCONF js) (assigned (n_master n) fd)
          else assigned (n_master n) fd)" for fd
        using g(1) by (auto simp: assigned_def c st config_effect(2) [OF id refl] m_def m1)
    qed (simp add: msg_type_defs)
  qed (use links_ok_quiet [OF assms(1)] in \<open>simp_all add: m_def\<close>)
qed


lemma links_ok_timer:
  assumes "links_ok J en n" "is_timer e" "master_handle J e (n_master n) = Inr m'"
  shows "links_ok J en (master_did m' n)"
  using assms(2)
proof (cases e rule: is_timer.cases)
  case 1
  with assms(3) show ?thesis by (intro links_ok_quiet [OF assms(1)]) (auto simp: flush_test_conf_def)
next
  case (2 tb newfd)
  with assms(3) show ?thesis
    by (intro links_ok_quiet [OF assms(1)]) (auto simp: master_split_log_def Let_def split: prod.splits)
qed simp_all

lemma net_step_inv:
  assumes "net_step J en n fs n'" "net_inv J en n"
  shows "net_inv J en n' \<and> m_channels (n_master n') = m_channels (n_master n)"
  using assms(1)
proof cases
  case (request cmd body uri m')
  have i: "master_inv (n_master n)" "distributed (n_master n)" "links_ok J en n"
    using assms(2) by (simp_all add: net_inv_def)
  have "metric_request_cb J uri cmd body (n_master n) = Inr m'" using request(4) by simp
  then have "links_ok J en (master_did m' n)"
    using links_ok_deal [OF i(3,1,2) request(3)] links_ok_delete [OF i(3,1,2) request(3)]
      links_ok_quiet [OF i(3) refl refl refl refl]
    by (cases rule: metric_request_cbE) (simp_all add: links_ok_free_uri)
  then have "links_ok J en n'" by (simp add: request(2))
  then show ?thesis
    using master_handle_inv [OF request(4) i(1)] i(2) handle_consts [OF request(4) i(1)]
    by (simp add: net_inv_def request(2) master_did_def)
next
  case (timer e m')
  have i: "master_inv (n_master n)" "distributed (n_master n)" "links_ok J en n"
    using assms(2) by (simp_all add: net_inv_def)
  have "links_ok J en n'" unfolding timer(2) by (rule links_ok_timer [OF i(3) timer(3,4)])
  then show ?thesis
    using master_handle_inv [OF timer(4) i(1)] i(2) handle_consts [OF timer(4) i(1)]
    by (simp add: net_inv_def timer(2) master_did_def)
next
  case (master_read fd c r rest m')
  have i: "master_inv (n_master n)" "distributed (n_master n)" "links_ok J en n"
    using assms(2) by (simp_all add: net_inv_def)
  have l: "link_ok J (we_config (en fd)) (n_master n) fd (n_workers n fd) (n_down n fd)
      ((n_rest n fd @ c) @ r)"
    using bspec [OF i(3) [unfolded links_ok_def] master_read(3)] by (simp add: master_read(4))
  note c = link_ok_master_read [OF l master_read(5)]
  have m': "m' = snd (master_channel_data fd (n_rest n fd @ c) (n_master n))" using master_read(5) by simp
  have h: "master_handle J (ChannelRead fd (n_rest n fd @ c)) (n_master n) = Inr m'"
    using master_read(3) m' by simp
  have ch: "m_channels m' = m_channels (n_master n)" using handle_consts [OF h i(1)] by simp
  have "links_ok J en n'"
    using i(3) c(1) by (simp add: links_ok_def master_read(2) ch link_ok_cong [OF c(2,3)])
  then show ?thesis
    using master_handle_inv [OF h i(1)] i(2) ch by (simp add: net_inv_def master_read(2))
next
  case (worker_read fd c r w')
  have i: "master_inv (n_master n)" "distributed (n_master n)" "links_ok J en n"
    using assms(2) by (simp_all add: net_inv_def)
  have "link_ok J (we_config (en fd)) (n_master n) fd (n_workers n fd) (c @ r) (n_rest n fd @ n_up n fd)"
    using bspec [OF i(3) [unfolded links_ok_def] worker_read(3)] by (simp add: worker_read(4))
  from link_ok_worker_read [OF this worker_read(5)] show ?thesis
    using i by (simp add: net_inv_def links_ok_def worker_read(2) worker_did_def)
next
  case (worker_event fd i w')
  have i: "master_inv (n_master n)" "distributed (n_master n)" "links_ok J en n"
    using assms(2) by (simp_all add: net_inv_def)
  have "link_ok J (we_config (en fd)) (n_master n) fd (n_workers n fd) (n_down n fd) (n_rest n fd @ n_up n fd)"
    using i(3) worker_event(3) by (simp add: links_ok_def)
  from link_ok_worker_event [OF this worker_event(5,4)] show ?thesis
    using i by (simp add: net_inv_def links_ok_def worker_event(2) worker_did_def)
qed

lemma net_reach_inv:
  "net_reach J en n0 es n \<Longrightarrow> net_inv J en n0 \<Longrightarrow>
   net_inv J en n \<and> m_channels (n_master n) = m_channels (n_master n0)"
  by (induction rule: net_reach.induct) (use net_step_inv in fastforce)+

subsection \<open>The start\<close>

text \<open>What the first distribution wrote is on its way to workers that have just been created.\<close>

definition net_start :: "(int \<Rightarrow> 'c worker) \<Rightarrow> master \<Rightarrow> 'c net" where
  "net_start ws m = \<lparr>n_master = m, n_workers = ws, n_down = (\<lambda>fd. writes_to fd (m_writes m)),
     n_up = (\<lambda>fd. []), n_rest = (\<lambda>fd. [])\<rparr>"

lemma master_did_start:
  "m_writes m' = m_writes m @ ws' \<Longrightarrow> master_did m' (net_start ws m) = net_start ws m'"
  by (simp add: master_did_def net_start_def writes_to_def fun_eq_iff)

lemma distribute_one_links:
  assumes "links_ok J en (net_start ws m)" "master_inv m" "distribute_one (key, js) (i, m) = Inr (i', m')"
    and "store_of m key = Some js" "chan_of m key = None" "length js < MAX_MSG_LEN" "NUL \<notin> set js"
    and "\<And>fd. fd \<in> set (m_channels m) \<Longrightarrow> udp_object J (we_config (en fd)) js key"
  shows "links_ok J en (net_start ws m')"
proof -
  obtain f port where p: "pick_channel i m = Inr f"
    and m': "m' = emit f MASTER_MSG_TYPE_REDISPORT port (emit f MASTER_MSG_TYPE_ADDCONF js (assign_channel key f m))"
    and port: "port = show_int (m_redisport m)" "length port < 6"
    using distribute_one_eq [OF assms(3)] by blast
  have f: "f \<in> set (m_channels m)" by (rule pick_channel_in [OF p])
  define m1 where "m1 = emit f MASTER_MSG_TYPE_ADDCONF js (assign_channel key f m)"
  have ok: "smap_ok (m_config_map m)" "smap_ok (m_configid_channel m)"
    using assms(2) by (simp_all add: master_inv_def)
  note a = assign_channel_fields [OF ok(1), of key f]
  have w1: "m_writes m1 = m_writes m @ [send_msg f MASTER_MSG_TYPE_ADDCONF js]"
    "m_channels m1 = m_channels m" by (simp_all add: m1_def a)
  have w2: "m_writes m' = m_writes m1 @ [send_msg f MASTER_MSG_TYPE_REDISPORT port]"
    "m_channels m' = m_channels m1" by (simp_all add: m' m1_def)
  have mt: "msg_text (mk_channel_data MASTER_MSG_TYPE_ADDCONF js) = Inr js"
    by (rule msg_text_short [OF assms(6,7)])
  have id: "msg_id J (mk_channel_data MASTER_MSG_TYPE_ADDCONF js) = Some key"
    using assms(8) [OF f] mt by (auto simp: msg_id_def udp_object_def ok_obj_def)
  have g: "good_msg J (we_config (en fd)) (mk_channel_data MASTER_MSG_TYPE_ADDCONF js)"
    if "fd \<in> set (m_channels m)" for fd
    using assms(8) [OF that] mt by (auto simp: good_msg_def cd_valid_mk add_fits_def) (simp add: msg_type_defs)
  have c1: "chan_of m1 x = (if x = key then Some f else chan_of m x)" for x
    using ok by (simp add: m1_def a smap_find_put)
  have s1: "store_of m1 = store_of m" by (simp add: m1_def store_of_def a)
  have quiet: "settled J (net_start ws m) key"
    unfolding settled_def
  proof (intro ballI conjI impI)
    fix fd d assume d: "fd \<in> set (m_channels (n_master (net_start ws m)))" "d \<in> set (down_msgs (net_start ws m) fd)"
      "cd_type d = MASTER_MSG_TYPE_ADDCONF"
    then have "chan_of m (the (msg_id J d)) = Some fd"
      using assms(1) by (auto simp: links_ok_def link_ok_def down_ok_def down_msgs_def net_start_def)
    with assms(5) show "msg_id J d \<noteq> Some key" by auto
  next
    fix fd a assume "a \<in> set (up_msgs (net_start ws m) fd)"
    then show "ack_id a \<noteq> key" using chan.size_pos by (simp add: up_msgs_def net_start_def chan.deframe_short)
  qed
  have "links_ok J en (master_did m1 (net_start ws m))"
  proof (rule links_ok_send [OF assms(1)])
    show "assigned m1 fd = (if fd = f
        then table_effect J (mk_channel_data MASTER_MSG_TYPE_ADDCONF js) (assigned (n_master (net_start ws m)) fd)
        else assigned (n_master (net_start ws m)) fd)" for fd
      using assms(4,5) by (auto simp: assigned_def c1 s1 config_effect(1) [OF id refl] net_start_def)
  qed (use w1 f g c1 quiet id in \<open>auto simp: net_start_def\<close>)
  then have l1: "links_ok J en (net_start ws m1)" by (simp add: master_did_start [OF w1(1)])
  have t: "MASTER_MSG_TYPE_REDISPORT \<noteq> MASTER_MSG_TYPE_ADDCONF"
    "MASTER_MSG_TYPE_REDISPORT \<noteq> MASTER_MSG_TYPE_DELCONF" by (simp_all add: msg_type_defs)
  have gp: "good_msg J junk (mk_channel_data MASTER_MSG_TYPE_REDISPORT port)" for junk
    using msg_text_short [of port MASTER_MSG_TYPE_REDISPORT] port atoi_show_int [OF short_int_range, of "m_redisport m"]
    by (simp add: good_msg_def cd_valid_mk t MAX_MSG_LEN_def show_int_no_NUL)
  have c2: "chan_of m' = chan_of m1" "assigned m' = assigned m1"
    by (simp_all add: m' m1_def assigned_def store_of_def fun_eq_iff)
  have "links_ok J en (master_did m' (net_start ws m1))"
    by (rule links_ok_send [OF l1, of m' f MASTER_MSG_TYPE_REDISPORT port])
      (use w1 w2 f in \<open>simp_all add: net_start_def other_effect [OF t] gp c2 t\<close>)
  then show ?thesis by (simp add: master_did_start [OF w2(1)])
qed


lemma distribute_fold_links:
  assumes "fold_res distribute_one es (i, m) = Inr (i', m')" "master_inv m"
    and "links_ok J en (net_start ws m)" "distinct (map fst es)"
    and "\<And>key js. (key, js) \<in> set es \<Longrightarrow> store_of m key = Some js \<and> chan_of m key = None \<and>
      length js < MAX_MSG_LEN \<and> NUL \<notin> set js \<and>
      (\<forall>fd \<in> set (m_channels m). udp_object J (we_config (en fd)) js key)"
  shows "links_ok J en (net_start ws m')"
  using assms
proof (induction es arbitrary: i m)
  case (Cons e es)
  obtain key js where e: "e = (key, js)" by (cases e)
  from Cons.prems(1) obtain i1 m1 where s: "distribute_one (key, js) (i, m) = Inr (i1, m1)"
    "fold_res distribute_one es (i1, m1) = Inr (i', m')" by (auto simp: e)
  have k: "store_of m key = Some js" "chan_of m key = None" "length js < MAX_MSG_LEN" "NUL \<notin> set js"
    "\<And>fd. fd \<in> set (m_channels m) \<Longrightarrow> udp_object J (we_config (en fd)) js key"
    using Cons.prems(5) [of key js] by (simp_all add: e)
  note one = distribute_one_inv [OF s(1) Cons.prems(2)]
  have l1: "links_ok J en (net_start ws m1)"
    by (rule distribute_one_links [OF Cons.prems(3,2) s(1) k])
  obtain f port where m1: "m1 = emit f MASTER_MSG_TYPE_REDISPORT port
      (emit f MASTER_MSG_TYPE_ADDCONF js (assign_channel key f m))"
    using distribute_one_eq [OF s(1)] by blast
  have ok: "smap_ok (m_config_map m)" using Cons.prems(2) by (simp add: master_inv_def)
  have c: "chan_of m1 x = (if x = key then Some f else chan_of m x)" for x
    using Cons.prems(2) assign_channel_fields(7) [OF ok, of key f]
    by (simp add: m1 smap_find_put master_inv_def)
  have st: "store_of m1 = store_of m" using one by (simp add: store_of_def)
  show ?case
  proof (rule Cons.IH [OF s(2) _ l1])
    fix key' js' assume i: "(key', js') \<in> set es"
    then have "key' \<noteq> key" using Cons.prems(4) by (force simp: e)
    with Cons.prems(5) [of key' js'] i one show "store_of m1 key' = Some js' \<and> chan_of m1 key' = None \<and>
      length js' < MAX_MSG_LEN \<and> NUL \<notin> set js' \<and>
      (\<forall>fd \<in> set (m_channels m1). udp_object J (we_config (en fd)) js' key')"
      by (simp add: c st)
  qed (use one Cons.prems(4) in simp_all)
qed simp

text \<open>
  The configurations the master starts with: single lines for UDP tests that fit a message.
\<close>

definition confs_ok :: "'j jsonlib \<Rightarrow> (int \<Rightarrow> 'c worker_env) \<Rightarrow> master \<Rightarrow> bool" where
  "confs_ok J en m \<longleftrightarrow> list_all (\<lambda>(i, js). length js < MAX_MSG_LEN \<and> NUL \<notin> set js \<and>
     list_all (\<lambda>fd. udp_object J (we_config (en fd)) js i) (m_channels m)) (m_configid_map m)"

lemma net_start_inv:
  assumes "master_inv m0" "m_writes m0 = []" "m_configid_channel m0 = []" "confs_ok J en m0"
    and "distribute_conf m0 = Inr m"
  shows "net_inv J en (net_start (\<lambda>fd. Worker_new lg (junk fd)) m)"
proof -
  define ws where "ws = (\<lambda>fd. Worker_new lg (junk fd))"
  have ok: "smap_ok (m_configid_map m0)" using assms(1) by (simp add: master_inv_def)
  obtain i' where d: "fold_res distribute_one (m_configid_map m0) (0, m0) = Inr (i', m)"
    using assms(5) by (auto simp: distribute_conf_def)
  have f: "frames [] = ([], [])" using chan.size_pos by (simp add: chan.deframe_short)
  have "links_ok J en (net_start ws m0)"
    by (simp add: links_ok_def link_ok_def net_start_def assms(2,3) writes_to_def ws_def Worker_new_inv f
        down_ok_def up_ok_def assigned_def ids_def) (simp add: Worker_new_def f chan.size_pos)
  moreover have "distinct (map fst (m_configid_map m0))"
    using smap.distinct_keys [OF ok] by (simp add: smap_keys_def)
  moreover have "store_of m0 key = Some js \<and> chan_of m0 key = None \<and> length js < MAX_MSG_LEN \<and>
      NUL \<notin> set js \<and> (\<forall>fd \<in> set (m_channels m0). udp_object J (we_config (en fd)) js key)"
    if "(key, js) \<in> set (m_configid_map m0)" for key js
    using that assms(4) smap_in_set [OF ok, of key js]
    by (auto simp: confs_ok_def list_all_iff store_of_def assms(3))
  ultimately have "links_ok J en (net_start ws m)" by (intro distribute_fold_links [OF d assms(1)])
  with distribute_conf_inv [OF assms(5,1)] show ?thesis by (simp add: net_inv_def net_start_def ws_def)
qed

subsection \<open>Properties\<close>

text \<open>When everything the master wrote has been read, the tables agree.\<close>

lemma agreement:
  assumes inv: "net_inv J en n" and quiet: "\<forall>fd \<in> set (m_channels (n_master n)). n_down n fd = []"
  shows "(store_of (n_master n) i \<noteq> None \<longleftrightarrow>
      (\<exists>!fd. fd \<in> set (m_channels (n_master n)) \<and> smap_find (w_test_map (n_workers n fd)) i \<noteq> None)) \<and>
    (store_of (n_master n) i = None \<longrightarrow>
      (\<forall>fd \<in> set (m_channels (n_master n)). smap_find (w_test_map (n_workers n fd)) i = None))"
proof -
  have ids: "ids (n_workers n fd) = assigned (n_master n) fd" if fd: "fd \<in> set (m_channels (n_master n))" for fd
  proof -
    have "link_ok J (we_config (en fd)) (n_master n) fd (n_workers n fd) [] (n_rest n fd @ n_up n fd)"
      using inv fd quiet by (simp add: net_inv_def links_ok_def)
    then obtain ds where ds: "frames (w_inbuf (n_workers n fd)) = (ds, [])"
      "fold (table_effect J) ds (ids (n_workers n fd)) = assigned (n_master n) fd"
      and "length (w_inbuf (n_workers n fd)) < channel_data_size"
      by (auto simp: link_ok_def down_ok_def)
    then have "ds = []" by (simp add: chan.deframe_short)
    with ds(2) show ?thesis by simp
  qed
  have runs: "smap_find (w_test_map (n_workers n fd)) i \<noteq> None \<longleftrightarrow>
      store_of (n_master n) i \<noteq> None \<and> chan_of (n_master n) i = Some fd"
    if "fd \<in> set (m_channels (n_master n))" for fd
    using ids [OF that] by (simp add: ids_def assigned_def set_eq_iff)
  show ?thesis
  proof (cases "store_of (n_master n) i")
    case None
    then have "\<forall>fd \<in> set (m_channels (n_master n)). smap_find (w_test_map (n_workers n fd)) i = None"
      using runs by blast
    with None show ?thesis by auto
  next
    case (Some s)
    then obtain f where f: "f \<in> set (m_channels (n_master n))" "chan_of (n_master n) i = Some f"
      using inv by (auto simp: net_inv_def distributed_def store_of_def)
    have "\<exists>!fd. fd \<in> set (m_channels (n_master n)) \<and> smap_find (w_test_map (n_workers n fd)) i \<noteq> None"
      using f Some runs by (intro ex1I [of _ f]) auto
    with Some show ?thesis by simp
  qed
qed


text \<open>Everything on its way can be read, channel by channel.\<close>

lemma net_reach_trans:
  "net_reach J en n1 fs n2 \<Longrightarrow> net_reach J en n0 es n1 \<Longrightarrow> net_reach J en n0 (es @ fs) n2"
proof (induction rule: net_reach.induct)
  case (more fs n gs n')
  then have "net_reach J en n0 (es @ fs) n" by simp
  from net_reach.more [OF this more(2)] show ?case by simp
qed simp

lemma net_reach_two:
  "net_step J en n es n1 \<Longrightarrow> net_step J en n1 fs n2 \<Longrightarrow> net_reach J en n (es @ fs) n2"
  using net_reach.more [OF net_reach.more [OF net_reach.start]] by fastforce

lemma worker_read_total:
  assumes "net_inv J en n" "fd \<in> set (m_channels (n_master n))" "connects (en fd)" "n_down n fd = c @ r"
  shows "\<exists>w'. worker_handle J (en fd) (ChannelIn c) (n_workers n fd) = Inr w'"
proof -
  have "link_ok J (we_config (en fd)) (n_master n) fd (n_workers n fd) (n_down n fd) (n_rest n fd @ n_up n fd)"
    using assms(1,2) by (simp add: net_inv_def links_ok_def)
  then obtain ds where l: "worker_inv (n_workers n fd)" "frames ((w_inbuf (n_workers n fd) @ c) @ r) = (ds, [])"
    "list_all (good_msg J (we_config (en fd))) ds"
    by (auto simp: link_ok_def down_ok_def assms(4))
  obtain ds1 rest where f: "frames (w_inbuf (n_workers n fd) @ c) = (ds1, rest)" by fastforce
  have "list_all (good_msg J (we_config (en fd))) ds1"
    using l(3) frames_cut(2) [OF l(2) f] by (metis list_all_append)
  then show ?thesis using f by (intro channel_in_total [OF l(1) _ assms(3)]) simp
qed

lemma settle_channel:
  assumes "net_inv J en n" "fd \<in> set (m_channels (n_master n))" "connects (en fd)"
  shows "\<exists>fs n'. net_reach J en n fs n' \<and> list_all is_channel_read fs \<and> n_down n' = (n_down n)(fd := []) \<and> n_up n' = (n_up n)(fd := []) \<and>
    store_of (n_master n') = store_of (n_master n)"
proof -
  obtain w' where w': "worker_handle J (en fd) (ChannelIn (n_down n fd)) (n_workers n fd) = Inr w'"
    using worker_read_total [OF assms, of "n_down n fd" "[]"] by auto
  define n1 where "n1 = worker_did fd w' (n\<lparr>n_down := (n_down n)(fd := [])\<rparr>)"
  have s1: "net_step J en n [] n1"
    unfolding n1_def using w' by (intro net_step.worker_read [OF assms(2)]) simp_all
  have f1: "n_master n1 = n_master n" "n_down n1 = (n_down n)(fd := [])"
    "\<And>x. x \<noteq> fd \<Longrightarrow> n_up n1 x = n_up n x"
    by (simp_all add: n1_def worker_did_def)
  have i1: "net_inv J en n1" using net_step_inv [OF s1 assms(1)] by simp
  obtain rest m' where m': "master_channel_data fd (n_rest n1 fd @ n_up n1 fd) (n_master n1) = (rest, m')"
    by fastforce
  define n2 where "n2 = n1\<lparr>n_master := m', n_up := (n_up n1)(fd := []), n_rest := (n_rest n1)(fd := rest)\<rparr>"
  have s2: "net_step J en n1 [ChannelRead fd (n_rest n1 fd @ n_up n1 fd)] n2"
    unfolding n2_def using assms(2) f1(1) m' by (intro net_step.master_read) simp_all
  have "link_ok J (we_config (en fd)) (n_master n1) fd (n_workers n1 fd) (n_down n1 fd)
      ((n_rest n1 fd @ n_up n1 fd) @ [])"
    using i1 assms(2) f1(1) by (simp add: net_inv_def links_ok_def)
  from link_ok_master_read(3) [OF this m'] have "m_configid_map m' = m_configid_map (n_master n)"
    by (simp add: f1(1))
  moreover have "n_up n2 = (n_up n)(fd := [])" using f1(3) by (auto simp: n2_def)
  moreover have "net_reach J en n ([] @ [ChannelRead fd (n_rest n1 fd @ n_up n1 fd)]) n2"
    by (rule net_reach_two [OF s1 s2])
  ultimately show ?thesis
    using f1(2) by (intro exI [of _ "[] @ [ChannelRead fd (n_rest n1 fd @ n_up n1 fd)]"] exI [of _ n2])
      (simp add: n2_def store_of_def)
qed

lemma settle_channels:
  assumes "net_inv J en n" "\<forall>fd \<in> set (m_channels (n_master n)). connects (en fd)"
    and "set fds \<subseteq> set (m_channels (n_master n))"
  shows "\<exists>fs n'. net_reach J en n fs n' \<and> list_all is_channel_read fs \<and> (\<forall>fd \<in> set fds. n_down n' fd = [] \<and> n_up n' fd = []) \<and>
    store_of (n_master n') = store_of (n_master n)"
  using assms(3)
proof (induction fds)
  case Nil
  show ?case using net_reach.start [of J en n] by (intro exI [of _ "[]"] exI [of _ n]) simp
next
  case (Cons fd fds)
  then obtain es n1 where n1: "net_reach J en n es n1" "\<forall>x \<in> set fds. n_down n1 x = [] \<and> n_up n1 x = []"
    "store_of (n_master n1) = store_of (n_master n)" "list_all is_channel_read es" by auto
  have i: "net_inv J en n1" "m_channels (n_master n1) = m_channels (n_master n)"
    using net_reach_inv [OF n1(1) assms(1)] by simp_all
  have fd: "fd \<in> set (m_channels (n_master n1))" "connects (en fd)"
    using Cons.prems assms(2) i(2) by auto
  obtain fs n2 where n2: "net_reach J en n1 fs n2" "n_down n2 = (n_down n1)(fd := [])"
    "n_up n2 = (n_up n1)(fd := [])" "store_of (n_master n2) = store_of (n_master n1)"
    "list_all is_channel_read fs" using settle_channel [OF i(1) fd] by blast
  show ?case
    using net_reach_trans [OF n2(1) n1(1)] n1(2-4) n2(2-5)
    by (intro exI [of _ "es @ fs"] exI [of _ n2]) simp
qed


text \<open>C37. Why an id must not be posted again too early: the answer to its first ADDCONF, arriving after
  the id was deleted and given to another worker, moves it back in the master's table. The next
  DELCONF goes to the worker that no longer has the test; the one that runs it hears nothing.\<close>

theorem late_answer_misroutes:
  assumes "smap_find (m_configid_map m) i = Some s" "chan_of m i = Some new"
    and "old \<in> set (m_channels m)" "old \<noteq> new" "int_range i" "cd_valid d"
    and "cd_type d = MASTER_MSG_TYPE_ADDCONF" "req_object J POST body = Inr (Some (i, js))"
  shows "\<exists>m1 m2. master_handle J (ChannelRead old (cd_bytes (ack_msg i d))) m = Inr m1 \<and>
    master_handle J (Http ''/metric/delete'' POST body) m1 = Inr m2 \<and>
    m_writes m2 = m_writes m @ [send_msg old MASTER_MSG_TYPE_DELCONF js] \<and>
    writes_to new (drop (length (m_writes m)) (m_writes m2)) = []"
proof -
  define m1 where "m1 = m\<lparr>m_configid_channel := smap_put i old (m_configid_channel m)\<rparr>"
  have h: "master_handle J (ChannelRead old (cd_bytes (ack_msg i d))) m = Inr m1"
    using ack_reaches_master [OF assms(5,3,6,7)] by (simp add: m1_def)
  have c: "channel_of i (m1\<lparr>m_configid_map := smap_erase i (m_configid_map m1)\<rparr>) =
      (old, m1\<lparr>m_configid_map := smap_erase i (m_configid_map m1)\<rparr>)"
    by (rule channel_of_known) (simp add: m1_def smap_find_put)
  have "smap_find (m_configid_map m1) i = Some s" using assms(1) by (simp add: m1_def)
  with c assms(8) have "master_handle J (Http ''/metric/delete'' POST body) m1 =
      Inr (free_uri ''/metric/delete'' (emit old MASTER_MSG_TYPE_DELCONF js (m1\<lparr>m_configid_map := smap_erase i (m_configid_map m1)\<rparr>)))"
    by (simp add: metric_request_cb_def delete_metric_request_def)
  with h assms(4) show ?thesis
    by (auto simp: m1_def writes_to_def send_msg_def)
qed


subsection \<open>Witnesses\<close>

lemma demo_udp_object: "udp_object demo_J junk ''u'' 5"
  using demo_parse(1) demo_obj(1) demo_udp_conf by (auto simp: udp_object_def int_range_def)

lemma demo_first_writes:
  assumes "distribute_conf demo_loaded = Inr m"
  shows "m_writes m = [send_msg 4 MASTER_MSG_TYPE_ADDCONF ''u'', send_msg 4 MASTER_MSG_TYPE_REDISPORT (show_int 6379)]"
proof -
  obtain i where d: "distribute_one (5, ''u'') (0, demo_loaded) = Inr (i, m)"
    using assms by (auto simp: distribute_conf_def)
  obtain f where p: "pick_channel 0 demo_loaded = Inr f"
    and m: "m = emit f MASTER_MSG_TYPE_REDISPORT (show_int 6379)
      (emit f MASTER_MSG_TYPE_ADDCONF ''u'' (assign_channel 5 f demo_loaded))"
    using distribute_one_eq [OF d] by auto
  have "f = 4" using p pick_channel_total [OF demo_loaded_inv, of 0] by simp
  moreover have "smap_ok (m_config_map demo_loaded)" by (simp add: smap_ok_def)
  ultimately show ?thesis by (simp add: m assign_channel_fields(4))
qed

lemma demo_first_read:
  "\<exists>w'. worker_handle demo_J demo_we (ChannelIn (snd (send_msg 4 MASTER_MSG_TYPE_ADDCONF ''u'') @
     snd (send_msg 4 MASTER_MSG_TYPE_REDISPORT (show_int 6379)))) demo_worker0 = Inr w'"
proof -
  define d1 d2 where "d1 = mk_channel_data MASTER_MSG_TYPE_ADDCONF ''u''"
    and "d2 = mk_channel_data MASTER_MSG_TYPE_REDISPORT (show_int 6379)"
  have mt: "msg_text d1 = Inr ''u''" "msg_text d2 = Inr (show_int 6379)"
    using demo_u_short demo_port show_int_no_NUL
    by (auto simp: d1_def d2_def MAX_MSG_LEN_def intro!: msg_text_short)
  obtain c where c: "udp_conf demo_J (we_config demo_we) (demo_root ''u'') = Inr c"
    using demo_udp_conf by blast
  have w1: "cd_type d1 = MASTER_MSG_TYPE_ADDCONF" "int_range 5" by (simp_all add: d1_def int_range_def)
  have "\<exists>w. handle_msg demo_J demo_we d1 demo_worker0 = Inr (True, w)"
    using handle_add [OF w1(1) mt(1) demo_parse(1) generate_udp [OF demo_obj(1) c], of 5] demo_obj(1)
    by (auto simp: ok_obj_def)
  then obtain w where w: "handle_msg demo_J demo_we d1 demo_worker0 = Inr (True, w)" by blast
  have "\<exists>w'. handle_msg demo_J demo_we d2 w = Inr (True, w')"
    using mt(2) atoi_show_int [of 6379]
    by (simp add: handle_msg_def d2_def msg_type_defs openredis_def demo_we_def int_range_def Let_def)
  then obtain w' where w': "handle_msg demo_J demo_we d2 w = Inr (True, w')" by blast
  have f: "frames (cd_bytes d1 @ cd_bytes d2) = ([d1, d2], [])"
    using chan.deframe_encoded [of "[d1, d2]" "[]"] chan.size_pos
    by (simp add: d1_def d2_def cd_valid_mk)
  have p: "list_all (parses demo_J) (fst (frames (cd_bytes d1 @ cd_bytes d2)))"
    using mt(1) demo_parse(1) by (simp add: f parses_def) (simp add: d2_def msg_type_defs)
  have e: "demo_worker0\<lparr>w_inbuf := []\<rparr> = demo_worker0"
    by (simp add: demo_worker0_def Worker_new_def)
  have "deliver demo_J demo_we [d1, d2] demo_worker0 = Inr w'"
    using w w' by (simp add: deliver_def deliver1_def)
  then show ?thesis
    using drain_deframe [OF p, of demo_we demo_worker0]
    by (simp add: deal_channel_data_def e f send_msg_def flip: d1_def d2_def)
qed

lemma demo_confs_ok: "confs_ok demo_J (\<lambda>fd. demo_we) demo_loaded"
  using demo_u_short demo_udp_object by (simp add: confs_ok_def)




text \<open>Test 5 was given to the worker on channel 4, deleted, and given to the one on channel 8.\<close>

theorem late_answer_misroutes_witness:
  "\<exists>m1 m2. master_handle demo_J (ChannelRead 4 (cd_bytes (ack_msg 5
        (mk_channel_data MASTER_MSG_TYPE_ADDCONF ''u'')))) (demo_loaded\<lparr>m_configid_channel := [(5, 8)]\<rparr>) = Inr m1 \<and>
     master_handle demo_J (Http ''/metric/delete'' POST ''u'') m1 = Inr m2 \<and>
     m_writes m2 = [send_msg 4 MASTER_MSG_TYPE_DELCONF ''u'']"
proof -
  define m where "m = demo_loaded\<lparr>m_configid_channel := [(5, 8)]\<rparr>"
  have f: "smap_find (m_configid_map m) 5 = Some ''u''" "chan_of m 5 = Some 8"
    "4 \<in> set (m_channels m)" "m_writes m = []" by (simp_all add: m_def)
  have "\<exists>m1 m2. master_handle demo_J (ChannelRead 4 (cd_bytes (ack_msg 5
        (mk_channel_data MASTER_MSG_TYPE_ADDCONF ''u'')))) m = Inr m1 \<and>
      master_handle demo_J (Http ''/metric/delete'' POST ''u'') m1 = Inr m2 \<and>
      m_writes m2 = m_writes m @ [send_msg 4 MASTER_MSG_TYPE_DELCONF ''u''] \<and>
      writes_to 8 (drop (length (m_writes m)) (m_writes m2)) = []"
    by (rule late_answer_misroutes [OF f(1-3) _ _ _ _ demo_req(1)]) (simp_all add: cd_valid_mk msg_type_defs int_range_def)
  then show ?thesis unfolding m_def [symmetric] f(4) by (elim exE conjE) (intro exI conjI, assumption+, simp)
qed

end
