(* ===== verification/Event_Loop.thy ===== *)
theory Event_Loop
  imports Master Worker
begin

section \<open>What the two processes ask of libevent\<close>

text \<open>
  Before their event loops run, the processes tell libevent what to watch: the master an HTTP
  server, one channel per worker and three timers, a worker its two channels and a raw socket.
  An event base is the list of what it watches; a pointer member is indeterminate, null, or
  points to something. libevent itself is not modelled: the callbacks it runs are the inputs of
  \<open>master_handle\<close> and \<open>worker_handle\<close>.
\<close>

subsection \<open>Bases\<close>

datatype loop_cb =
    MasterChannelRead | SplitLogTimeout | DistributeConfTimeout | FlushConfTimeout
  | WorkerChannelRead | WorkerChannel1 | WorkerIcmp

record watch =
  wa_fd :: int                   \<comment> \<open>-1 for a timer\<close>
  wa_persist :: bool
  wa_low :: nat                  \<comment> \<open>low watermark: bytes before the callback runs\<close>
  wa_secs :: "int option"
  wa_cb :: loop_cb

datatype 'a pointer = Junk | Null | Ptr 'a

fun deref :: "'a pointer \<Rightarrow> 'a res" where
  "deref Junk = Inl UninitRead"
| "deref Null = Inl NullDeref"
| "deref (Ptr x) = Inr x"

text \<open>\<open>bufferevent_socket_new\<close>, \<open>_setwatermark\<close>, \<open>_setcb\<close>, \<open>_enable\<close>; a persistent read event.\<close>

definition watch_messages :: "int \<Rightarrow> loop_cb \<Rightarrow> watch" where
  "watch_messages fd cb =
     \<lparr>wa_fd = fd, wa_persist = True, wa_low = channel_data_size, wa_secs = None, wa_cb = cb\<rparr>"

definition watch_fd :: "int \<Rightarrow> loop_cb \<Rightarrow> watch" where
  "watch_fd fd cb = \<lparr>wa_fd = fd, wa_persist = True, wa_low = 0, wa_secs = None, wa_cb = cb\<rparr>"

definition watch_timer :: "int \<Rightarrow> bool \<Rightarrow> loop_cb \<Rightarrow> watch" where
  "watch_timer secs persist cb =
     \<lparr>wa_fd = -1, wa_persist = persist, wa_low = 0, wa_secs = Some secs, wa_cb = cb\<rparr>"

subsection \<open>The HTTP server\<close>

datatype http_cb = MetricRequest | SendDocument

record http_server =
  hs_set :: "(string \<times> http_cb) list"
  hs_gen :: http_cb
  hs_port :: int

text \<open>
  The server runs the callback set for the path of a request, or the general one. Both callbacks
  answer 200, whatever happened; \<open>metric_request_cb\<close> looks at the whole URI again.
\<close>

definition http_route :: "http_server \<Rightarrow> string \<Rightarrow> http_cb" where
  "http_route hs path = (case map_of (hs_set hs) path of None \<Rightarrow> hs_gen hs | Some cb \<Rightarrow> cb)"

definition send_document_cb :: "int \<times> string" where
  "send_document_cb = (200, ''OK'')"

definition http_serve ::
  "'j jsonlib \<Rightarrow> http_server \<Rightarrow> string \<Rightarrow> string \<Rightarrow> http_cmd \<Rightarrow> string \<Rightarrow> master \<Rightarrow>
   ((int \<times> string) \<times> master) res" where
  "http_serve J hs path uri cmd body m =
     (case http_route hs path of
        MetricRequest \<Rightarrow> rbind (metric_request_cb J uri cmd body m) (\<lambda>m'. Inr ((200, ''OK''), m'))
      | SendDocument \<Rightarrow> Inr (send_document_cb, m))"

subsection \<open>The resources of the master\<close>

datatype freed = FreeHttp | FreeEvent loop_cb | FreeBase

record master_res =
  r_base :: "watch list pointer"
  r_http :: "http_server pointer"
  r_distribute_conf_ev :: "loop_cb pointer"
  r_split_log_ev :: "loop_cb pointer"
  r_flush_conf_ev :: "loop_cb pointer"
  r_frees :: "freed list"

text \<open>The constructor sets two of the pointers; the others keep what the memory holds.\<close>

definition Master_res_new :: "master_res \<Rightarrow> master_res" where
  "Master_res_new junk = junk\<lparr>r_base := Null, r_http := Null, r_frees := []\<rparr>"

definition add_watch :: "watch \<Rightarrow> master_res \<Rightarrow> master_res res" where
  "add_watch w r = rbind (deref (r_base r)) (\<lambda>ws. Inr (r\<lparr>r_base := Ptr (ws @ [w])\<rparr>))"

text \<open>
  What binding the server's port gives: no handle when the port is taken, a descriptor whose
  name \<open>getsockname\<close> reports, and the text \<open>inet_ntop\<close> makes of the address.
\<close>

datatype sockname = SockFail | Inet "16 word" | Inet6 "16 word" | OtherFamily

record bind_env =
  be_handle :: "int option"
  be_sockname :: sockname
  be_ntop :: "string option"

definition listening :: "16 word \<Rightarrow> string option \<Rightarrow> (int option \<times> string list)" where
  "listening port addr =
     (case addr of None \<Rightarrow> (Some 1, [])
      | Some a \<Rightarrow> (None, [''Listening on '' @ a @ '':'' @ show_nat (unat (ntohs port))]))"

text \<open>
  \<open>Master::init\<close>: its result (\<open>None\<close> where it ends without one) and what it prints. The handle is
  not tested before its descriptor is asked for.
\<close>

definition Master_init ::
  "bind_env \<Rightarrow> master \<Rightarrow> master_res \<Rightarrow> (int option \<times> string list \<times> master_res) res" where
  "Master_init be m r =
     (let r1 = r\<lparr>r_base := Ptr [],
                r_http := Ptr \<lparr>hs_set = [(''/metric'', MetricRequest), (''/metric/delete'', MetricRequest)],
                               hs_gen = SendDocument, hs_port = m_port m\<rparr>\<rparr> in
      rbind (need NullDeref (be_handle be)) (\<lambda>fd.
      let (res, out) = (case be_sockname be of
          SockFail \<Rightarrow> (Some 1, [])
        | Inet port \<Rightarrow> listening port (be_ntop be)
        | Inet6 port \<Rightarrow> listening port (be_ntop be)
        | OtherFamily \<Rightarrow> (Some 1, [])) in
      Inr (res, out, r1)))"

text \<open>The end of \<open>generate_worker\<close> in the parent: \<open>init\<close> if there is no base, and the channels.\<close>

definition watch_channels :: "bind_env \<Rightarrow> master \<Rightarrow> master_res \<Rightarrow> master_res res" where
  "watch_channels be m r =
     rbind (if r_base r = Null then rbind (Master_init be m r) (\<lambda>(_, _, r1). Inr r1) else Inr r) (\<lambda>r1.
     fold_res add_watch (map (\<lambda>fd. watch_messages fd MasterChannelRead) (m_channels m)) r1)"

text \<open>\<open>Master::run\<close> up to \<open>event_base_dispatch\<close>, which follows the base as well.\<close>

definition Master_run :: "master \<Rightarrow> master_res \<Rightarrow> master_res res" where
  "Master_run m r =
     rbind (add_watch (watch_timer (m_splitlog m) True SplitLogTimeout) r) (\<lambda>r1.
     rbind (add_watch (watch_timer 1 False DistributeConfTimeout) r1) (\<lambda>r2.
     rbind (add_watch (watch_timer (m_flushconf m) True FlushConfTimeout) r2) (\<lambda>r3.
     Inr (r3\<lparr>r_split_log_ev := Ptr SplitLogTimeout, r_distribute_conf_ev := Ptr DistributeConfTimeout,
            r_flush_conf_ev := Ptr FlushConfTimeout\<rparr>))))"

text \<open>\<open>recover_resource\<close>, which the destructor calls: what is not null is freed and cleared.\<close>

definition free_http :: "master_res \<Rightarrow> master_res res" where
  "free_http r =
     (if r_http r = Null then Inr r
      else rbind (deref (r_http r)) (\<lambda>_. Inr (r\<lparr>r_http := Null, r_frees := r_frees r @ [FreeHttp]\<rparr>)))"

definition free_event ::
  "(master_res \<Rightarrow> loop_cb pointer) \<Rightarrow> (master_res \<Rightarrow> master_res) \<Rightarrow> master_res \<Rightarrow> master_res res" where
  "free_event get clear r =
     (if get r = Null then Inr r
      else rbind (deref (get r)) (\<lambda>cb. Inr ((clear r)\<lparr>r_frees := r_frees r @ [FreeEvent cb]\<rparr>)))"

definition free_base :: "master_res \<Rightarrow> master_res res" where
  "free_base r =
     (if r_base r = Null then Inr r
      else rbind (deref (r_base r)) (\<lambda>_. Inr (r\<lparr>r_base := Null, r_frees := r_frees r @ [FreeBase]\<rparr>)))"

definition recover_resource :: "master_res \<Rightarrow> master_res res" where
  "recover_resource r =
     rbind (free_http r) (\<lambda>r1.
     rbind (free_event r_distribute_conf_ev (\<lambda>x. x\<lparr>r_distribute_conf_ev := Null\<rparr>) r1) (\<lambda>r2.
     rbind (free_event r_split_log_ev (\<lambda>x. x\<lparr>r_split_log_ev := Null\<rparr>) r2) free_base))"

subsection \<open>The watches of a worker\<close>

text \<open>\<open>set_channel\<close>, \<open>set_channel_1\<close> and \<open>listen_icmp\<close>, on the base its constructor made.\<close>

definition Worker_set_channel :: "int \<Rightarrow> watch list \<Rightarrow> watch list" where
  "Worker_set_channel fd ws = ws @ [watch_messages fd WorkerChannelRead]"

definition Worker_set_channel_1 :: "int \<Rightarrow> watch list \<Rightarrow> watch list" where
  "Worker_set_channel_1 fd ws = ws @ [watch_fd fd WorkerChannel1]"

definition Worker_listen_icmp :: "int \<Rightarrow> watch list \<Rightarrow> watch list" where
  "Worker_listen_icmp sock ws = ws @ [watch_fd sock WorkerIcmp]"

text \<open>
  What one iteration of \<open>generate_worker\<close> gets: the two socket pairs, the process id, and the raw
  socket of the child.
\<close>

record fork_env =
  fe_c0 :: int
  fe_c1 :: int
  fe_c10 :: int
  fe_c11 :: int
  fe_pid :: int
  fe_icmp :: int

definition parent_ends :: "fork_env \<Rightarrow> int \<times> int \<times> int" where
  "parent_ends k = (fe_c0 k, fe_c10 k, fe_pid k)"

text \<open>
  The child of a fork, up to \<open>pw->run()\<close>: the worker, what it watches, what it closes before and after
  it opens its raw socket, and its copy of the master.
\<close>

definition child_start ::
  "string \<Rightarrow> 'c worker \<Rightarrow> fork_env \<Rightarrow> master \<Rightarrow> 'c worker \<times> watch list \<times> int list \<times> int list \<times> master" where
  "child_start tb junk k m =
     (let ws = Worker_listen_icmp (fe_icmp k) (Worker_set_channel_1 (fe_c11 k) (Worker_set_channel (fe_c1 k) []));
          (before, after, m') = spawn_child (fe_c0 k) (fe_c10 k) m in
      (Worker_new (m_logger m) junk, ws, before, after,
       m'\<lparr>m_log := m_log m' @ log_info tb ''worker run'' (m_logger m')\<rparr>))"

subsection \<open>Descriptor tables\<close>

text \<open>
  Which file a number means depends on the process and the moment: the parent closes the workers'
  ends of each pair, so the next pair gets their numbers again, and the child's raw socket may get
  the number of an end the child has just closed. The table of a process maps its open numbers to the
  kernel's files: the four ends of the pairs of the \<open>i\<close>th worker, its raw socket, and whatever else
  the process had open. \<open>fork\<close> copies the table.
\<close>

datatype kfile =
    MasterEnd nat | WorkerEnd nat | MasterFdEnd nat | WorkerFdEnd nat | RawIcmp nat | OtherFile

type_synonym fdtable = "int \<Rightarrow> kfile option"

definition close_fds :: "int list \<Rightarrow> fdtable \<Rightarrow> fdtable" where
  "close_fds fds t = (\<lambda>fd. if fd \<in> set fds then None else t fd)"

definition socketpairs :: "nat \<Rightarrow> fork_env \<Rightarrow> fdtable \<Rightarrow> fdtable" where
  "socketpairs i k t = t(fe_c0 k \<mapsto> MasterEnd i, fe_c1 k \<mapsto> WorkerEnd i,
     fe_c10 k \<mapsto> MasterFdEnd i, fe_c11 k \<mapsto> WorkerFdEnd i)"

definition parent_fds :: "nat \<Rightarrow> fork_env \<Rightarrow> fdtable \<Rightarrow> fdtable" where
  "parent_fds i k t = close_fds [fe_c1 k, fe_c11 k] (socketpairs i k t)"

definition child_fds :: "int list \<Rightarrow> int list \<Rightarrow> nat \<Rightarrow> fork_env \<Rightarrow> fdtable \<Rightarrow> fdtable" where
  "child_fds before after i k t =
     close_fds after ((close_fds before (socketpairs i k t))(fe_icmp k \<mapsto> RawIcmp i))"

text \<open>The parent's table after iterations from the \<open>i\<close>th on.\<close>

fun open_workers :: "nat \<Rightarrow> fork_env list \<Rightarrow> fdtable \<Rightarrow> fdtable" where
  "open_workers i [] t = t"
| "open_workers i (k # ks) t = open_workers (Suc i) ks (parent_fds i k t)"

text \<open>The rule of the kernel: a new descriptor has a number that is not open in the process.\<close>

definition fork_ok :: "nat \<Rightarrow> fork_env \<Rightarrow> fdtable \<Rightarrow> bool" where
  "fork_ok i k t \<longleftrightarrow> distinct [fe_c0 k, fe_c1 k, fe_c10 k, fe_c11 k] \<and>
     list_all (\<lambda>fd. t fd = None) [fe_c0 k, fe_c1 k, fe_c10 k, fe_c11 k] \<and>
     close_fds [fe_c0 k, fe_c10 k] (socketpairs i k t) (fe_icmp k) = None"

fun forks_ok :: "nat \<Rightarrow> fork_env list \<Rightarrow> fdtable \<Rightarrow> bool" where
  "forks_ok i [] t = True"
| "forks_ok i (k # ks) t = (fork_ok i k t \<and> forks_ok (Suc i) ks (parent_fds i k t))"

lemma forks_ok_append:
  "forks_ok i (ks @ ls) t = (forks_ok i ks t \<and> forks_ok (i + length ks) ls (open_workers i ks t))"
  by (induction ks arbitrary: i t) simp_all

text \<open>The parent holds the master's ends of the pairs made so far, and nothing of the others.\<close>

definition parent_table_ok :: "int list \<Rightarrow> int list \<Rightarrow> fdtable \<Rightarrow> bool" where
  "parent_table_ok cs ds t \<longleftrightarrow> length ds = length cs \<and>
     (\<forall>j < length cs. t (cs ! j) = Some (MasterEnd j) \<and> t (ds ! j) = Some (MasterFdEnd j)) \<and>
     (\<forall>fd f. t fd = Some f \<longrightarrow> f = OtherFile \<or> (\<exists>j < length cs. f = MasterEnd j \<and> fd = cs ! j \<or>
        f = MasterFdEnd j \<and> fd = ds ! j))"

lemma parent_fds_ok:
  assumes "parent_table_ok cs ds t" "fork_ok (length cs) k t"
  shows "parent_table_ok (cs @ [fe_c0 k]) (ds @ [fe_c10 k]) (parent_fds (length cs) k t)"
proof -
  let ?t = "parent_fds (length cs) k t"
  have l: "length ds = length cs"
    and own: "\<And>j. j < length cs \<Longrightarrow> t (cs ! j) = Some (MasterEnd j) \<and> t (ds ! j) = Some (MasterFdEnd j)"
    and all: "\<And>fd f. t fd = Some f \<Longrightarrow> f = OtherFile \<or> (\<exists>j < length cs. f = MasterEnd j \<and> fd = cs ! j \<or>
        f = MasterFdEnd j \<and> fd = ds ! j)"
    using assms(1) by (simp_all add: parent_table_ok_def)
  have n: "t (fe_c0 k) = None" "t (fe_c1 k) = None" "t (fe_c10 k) = None" "t (fe_c11 k) = None"
    and d: "distinct [fe_c0 k, fe_c1 k, fe_c10 k, fe_c11 k]" using assms(2) by (simp_all add: fork_ok_def)
  have old: "?t fd = t fd" if "t fd \<noteq> None" for fd
    using that n by (auto simp: parent_fds_def close_fds_def socketpairs_def)
  have new: "?t (fe_c0 k) = Some (MasterEnd (length cs))" "?t (fe_c10 k) = Some (MasterFdEnd (length cs))"
    using d by (auto simp: parent_fds_def close_fds_def socketpairs_def)
  have other: "?t fd = t fd \<or> ?t fd = None" if "fd \<noteq> fe_c0 k" "fd \<noteq> fe_c10 k" for fd
    using that by (auto simp: parent_fds_def close_fds_def socketpairs_def)
  show ?thesis
    unfolding parent_table_ok_def
  proof (intro conjI allI impI)
    show "length (ds @ [fe_c10 k]) = length (cs @ [fe_c0 k])" using l by simp
  next
    fix j assume j: "j < length (cs @ [fe_c0 k])"
    show "?t ((cs @ [fe_c0 k]) ! j) = Some (MasterEnd j)"
      using j own [of j] old [of "cs ! j"] new l by (cases "j = length cs") (simp_all add: nth_append)
    show "?t ((ds @ [fe_c10 k]) ! j) = Some (MasterFdEnd j)"
      using j own [of j] old [of "ds ! j"] new l by (cases "j = length cs") (simp_all add: nth_append)
  next
    fix fd f assume f: "?t fd = Some f"
    show "f = OtherFile \<or> (\<exists>j < length (cs @ [fe_c0 k]). f = MasterEnd j \<and> fd = (cs @ [fe_c0 k]) ! j \<or>
        f = MasterFdEnd j \<and> fd = (ds @ [fe_c10 k]) ! j)"
    proof (cases "fd = fe_c0 k \<or> fd = fe_c10 k")
      case True
      then show ?thesis using f new l by (intro disjI2 exI [of _ "length cs"]) (auto simp: nth_append)
    next
      case False
      with f other [of fd] have "t fd = Some f" by auto
      from all [OF this] l show ?thesis by (fastforce simp: nth_append)
    qed
  qed
qed

lemma open_workers_ok:
  "parent_table_ok cs ds t \<Longrightarrow> forks_ok (length cs) ks t \<Longrightarrow>
   parent_table_ok (cs @ map fe_c0 ks) (ds @ map fe_c10 ks) (open_workers (length cs) ks t)"
proof (induction ks arbitrary: cs ds t)
  case (Cons k ks)
  then have "parent_table_ok (cs @ [fe_c0 k]) (ds @ [fe_c10 k]) (parent_fds (length cs) k t)"
    by (intro parent_fds_ok) simp_all
  from Cons.IH [OF this] Cons.prems(2) show ?case by simp
qed simp

text \<open>A child that closes what it should holds its own ends, its raw socket and nothing of the other pairs.\<close>

lemma child_fds_ok:
  assumes "parent_table_ok cs ds t" "fork_ok (length cs) k t"
    and "t' = child_fds [fe_c0 k, fe_c10 k] (cs @ ds) (length cs) k t"
  shows "t' (fe_c1 k) = Some (WorkerEnd (length cs))" "t' (fe_c11 k) = Some (WorkerFdEnd (length cs))"
    and "t' (fe_icmp k) = Some (RawIcmp (length cs))"
    and "t' fd = Some f \<Longrightarrow> f \<in> {WorkerEnd (length cs), WorkerFdEnd (length cs), RawIcmp (length cs), OtherFile}"
proof -
  have l: "length ds = length cs"
    and own: "\<And>j. j < length cs \<Longrightarrow> t (cs ! j) = Some (MasterEnd j) \<and> t (ds ! j) = Some (MasterFdEnd j)"
    and all: "\<And>fd f. t fd = Some f \<Longrightarrow> f = OtherFile \<or> (\<exists>j < length cs. f = MasterEnd j \<and> fd = cs ! j \<or>
        f = MasterFdEnd j \<and> fd = ds ! j)"
    using assms(1) by (simp_all add: parent_table_ok_def)
  have n: "t (fe_c0 k) = None" "t (fe_c1 k) = None" "t (fe_c10 k) = None" "t (fe_c11 k) = None"
    and d: "distinct [fe_c0 k, fe_c1 k, fe_c10 k, fe_c11 k]"
    and i: "close_fds [fe_c0 k, fe_c10 k] (socketpairs (length cs) k t) (fe_icmp k) = None"
    using assms(2) by (simp_all add: fork_ok_def)
  have kept: "t fd \<noteq> None" if fd: "fd \<in> set (cs @ ds)" for fd
  proof -
    obtain j where "j < length cs" "fd = cs ! j \<or> fd = ds ! j"
      using fd l by (auto simp: in_set_conv_nth)
    with own [of j] show ?thesis by auto
  qed
  have c1: "fe_c1 k \<notin> set (cs @ ds)" "fe_c11 k \<notin> set (cs @ ds)" using kept n by blast+
  have ic: "fe_icmp k \<noteq> fe_c1 k" "fe_icmp k \<noteq> fe_c11 k"
    using i d by (auto simp: close_fds_def socketpairs_def split: if_splits)
  have icn: "fe_icmp k \<notin> set (cs @ ds)"
  proof
    assume "fe_icmp k \<in> set (cs @ ds)"
    with kept have "t (fe_icmp k) \<noteq> None" by blast
    with i n ic show False by (auto simp: close_fds_def socketpairs_def split: if_splits)
  qed
  show "t' (fe_c1 k) = Some (WorkerEnd (length cs))" "t' (fe_c11 k) = Some (WorkerFdEnd (length cs))"
    "t' (fe_icmp k) = Some (RawIcmp (length cs))"
    using c1 ic icn d unfolding assms(3) by (auto simp: child_fds_def close_fds_def socketpairs_def)
  show "f \<in> {WorkerEnd (length cs), WorkerFdEnd (length cs), RawIcmp (length cs), OtherFile}" if f: "t' fd = Some f"
  proof (cases "fd = fe_c1 k \<or> fd = fe_c11 k \<or> fd = fe_icmp k")
    case True
    with f c1 ic icn d show ?thesis unfolding assms(3) by (auto simp: child_fds_def close_fds_def socketpairs_def)
  next
    case False
    then have tf: "t fd = Some f" "fd \<notin> set (cs @ ds)"
      using f unfolding assms(3) by (auto simp: child_fds_def close_fds_def socketpairs_def split: if_splits)
    with all [OF tf(1)] l show ?thesis by (auto simp: in_set_conv_nth)
  qed
qed

subsection \<open>Facts\<close>

lemma add_watches:
  "r_base r = Ptr ws \<Longrightarrow> fold_res add_watch vs r = Inr (r\<lparr>r_base := Ptr (ws @ vs)\<rparr>)"
  by (induction vs arbitrary: r ws) (simp_all add: add_watch_def)

lemma watch_channels_new:
  assumes "r_base r = Null" "watch_channels be m r = Inr r'"
  shows "be_handle be \<noteq> None \<and> r_base r' = Ptr (map (\<lambda>fd. watch_messages fd MasterChannelRead) (m_channels m)) \<and>
    (\<exists>hs. r_http r' = Ptr hs \<and> hs_port hs = m_port m \<and> hs_gen hs = SendDocument \<and>
      hs_set hs = [(''/metric'', MetricRequest), (''/metric/delete'', MetricRequest)]) \<and>
    r_frees r' = r_frees r"
proof -
  obtain r1 where r1: "be_handle be \<noteq> None" "r1 = r\<lparr>r_base := Ptr [],
      r_http := Ptr \<lparr>hs_set = [(''/metric'', MetricRequest), (''/metric/delete'', MetricRequest)],
                     hs_gen = SendDocument, hs_port = m_port m\<rparr>\<rparr>"
    "fold_res add_watch (map (\<lambda>fd. watch_messages fd MasterChannelRead) (m_channels m)) r1 = Inr r'"
    using assms by (auto simp: watch_channels_def Master_init_def Let_def split: prod.splits)
  have "r_base r1 = Ptr []" by (simp add: r1(2))
  from add_watches [OF this] r1 show ?thesis by auto
qed

lemma Master_run_eq:
  "r_base r = Ptr ws \<Longrightarrow> Master_run m r = Inr (r\<lparr>r_base := Ptr (ws @ [watch_timer (m_splitlog m) True SplitLogTimeout,
      watch_timer 1 False DistributeConfTimeout, watch_timer (m_flushconf m) True FlushConfTimeout]),
    r_split_log_ev := Ptr SplitLogTimeout, r_distribute_conf_ev := Ptr DistributeConfTimeout,
    r_flush_conf_ev := Ptr FlushConfTimeout\<rparr>)"
  by (simp add: Master_run_def add_watch_def)

end
