(* ===== verification/Main_Prog.thy ===== *)
theory Main_Prog
  imports Master_Store Worker_Props Event_Loop Tool
begin

section \<open>\<open>main.cpp\<close>: the start of the master process\<close>

text \<open>
  \<open>main\<close> opens the log, reads both configuration files, starts the workers, renames the process
  and enters the event loop. The definition below is its path in the parent process up to the
  loop; what the operating system answers (descriptors, the contents of the files, the process
  ids, the bytes of memory behind the lines) is a record. \<open>None\<close> is a start that never gets there.
  The lemmas show that a start that does get there ends in a state with the invariant that the
  theories about the master begin from.
\<close>

subsection \<open>The definition\<close>

record boot =
  bt_logfd :: int                          \<comment> \<open>\<open>open\<close> of the log\<close>
  bt_server :: "string option"             \<comment> \<open>contents of \<open>server.conf\<close>\<close>
  bt_test :: "string option"               \<comment> \<open>contents of \<open>test.conf\<close>\<close>
  bt_over :: string                        \<comment> \<open>memory behind a line\<close>
  bt_forks :: "fork_env list"              \<comment> \<open>per worker\<close>
  bt_bind :: bind_env                      \<comment> \<open>binding of the HTTP port\<close>
  bt_argv :: "string list"
  bt_envp :: "string list"
  bt_timebuf :: string

definition log_path :: string where "log_path = ''/root/newprober/access.log''"
definition server_path :: string where "server_path = ''/root/newprober/server.conf''"
definition test_path :: string where "test_path = ''/root/newprober/test.conf''"

text \<open>\<open>strcat\<close> of each argument and a space into \<open>argv_buf[MAXLINE]\<close>, unchecked.\<close>

definition add_arg :: "string \<Rightarrow> string \<Rightarrow> string res" where
  "add_arg arg buf = sprintf_buf MAXLINE (buf @ cstr arg @ '' '')"

definition argv_text :: "string list \<Rightarrow> string res" where
  "argv_text argv = fold_res add_arg (tl argv) []"

text \<open>\<open>setproctitle_init\<close> and \<open>setproctitle("%s %s %s", "newprober", "master", argv_buf)\<close>.\<close>

definition master_title :: "string list \<Rightarrow> string list \<Rightarrow> (string \<times> string) res" where
  "master_title argv envp =
     rbind (argv_text argv) (\<lambda>t.
     setproctitle (''newprober master '' @ t) (snd (setproctitle_init argv envp)))"

definition set_logger :: "logger \<Rightarrow> master \<Rightarrow> master" where
  "set_logger l m = m\<lparr>m_logger := l\<rparr>"

text \<open>
  From \<open>set_logger\<close> to \<open>run\<close>. \<open>init\<close> is called by \<open>generate_worker\<close> alone: when that returns early
  there is no event base, and \<open>run\<close> hands the null pointer to the event library.
\<close>

definition start_master ::
  "boot \<Rightarrow> logger \<Rightarrow> master \<Rightarrow> master_res \<Rightarrow> (master \<times> master_res) res" where
  "start_master bt l m r =
     (let (res, m1) = generate_worker (map parent_ends (bt_forks bt)) (set_logger l m) in
      rbind (if res = 0 then watch_channels (bt_bind bt) m1 r else Inr r) (\<lambda>r1.
      rbind (master_title (bt_argv bt) (bt_envp bt)) (\<lambda>_.
      let m2 = m1\<lparr>m_log := m_log m1 @ log_info (bt_timebuf bt) ''master run'' (m_logger m1)\<rparr> in
      rbind (Master_run m2 r1) (\<lambda>r2. Inr (m2, r2)))))"

definition main_master ::
  "'j jsonlib \<Rightarrow> boot \<Rightarrow> logger \<Rightarrow> master \<Rightarrow> master_res \<Rightarrow> (master \<times> master_res) res option" where
  "main_master J bt lg_junk m_junk r_junk =
     (case set_logfile log_path (bt_logfd bt) (snd (set_level (level_code INFO) (Logger_new lg_junk))) of
        Inl f \<Rightarrow> Some (Inl f)
      | Inr (l, _) \<Rightarrow>
          (case get_server_conf (bt_over bt) (bt_server bt) server_path (Master_new m_junk) of
             None \<Rightarrow> None
           | Some (Inl f) \<Rightarrow> Some (Inl f)
           | Some (Inr (_, m1)) \<Rightarrow>
               (case get_test_conf J (bt_over bt) (bt_test bt) test_path m1 of
                  None \<Rightarrow> None
                | Some (Inl f) \<Rightarrow> Some (Inl f)
                | Some (Inr (_, m2)) \<Rightarrow> Some (start_master bt l m2 (Master_res_new r_junk)))))"

text \<open>
  The child of the \<open>i\<close>th iteration of \<open>generate_worker\<close>, forked when the parent has the ends of
  \<open>i\<close> workers.
\<close>

definition generate_worker_child ::
  "string \<Rightarrow> fork_env list \<Rightarrow> nat \<Rightarrow> 'c worker \<Rightarrow> master \<Rightarrow>
   'c worker \<times> watch list \<times> int list \<times> int list \<times> master" where
  "generate_worker_child tb ks i junk m =
     child_start tb junk (ks ! i) (fold spawn_parent (map parent_ends (take i ks)) m)"

text \<open>
  \<open>termhandler\<close> uses the \<open>master\<close> of the file, which is zeroed and constructed but never started:
  \<open>main\<close> has a variable of the same name. \<open>event_base_loopbreak\<close> fails on a null base; \<open>exit\<close>
  then destroys the object. The result tells whether a loop was told to stop.
\<close>

definition static_master :: master_res where
  "static_master = Master_res_new \<lparr>r_base = Null, r_http = Null, r_distribute_conf_ev = Null,
     r_split_log_ev = Null, r_flush_conf_ev = Null, r_frees = []\<rparr>"

definition termhandler :: "master_res \<Rightarrow> (bool \<times> master_res) res" where
  "termhandler r = rbind (recover_resource r) (\<lambda>r'. Inr (r_base r \<noteq> Null, r'))"

subsection \<open>What the start establishes\<close>

text \<open>Nothing about the workers is set while the files are read.\<close>

definition pristine :: "master \<Rightarrow> bool" where
  "pristine m \<longleftrightarrow> m_channels m = [] \<and> m_config_map m = [] \<and> m_configid_channel m = [] \<and>
     m_writes m = [] \<and> smap_ok (m_configid_map m)"

lemma set_server_pristine:
  "set_server name val m = Inr m' \<Longrightarrow> pristine m \<Longrightarrow>
   pristine m' \<and> m_test_conf_file m' = m_test_conf_file m"
  unfolding set_server_def pristine_def by (auto split: if_splits)

lemma server_line_pristine:
  assumes "server_line over l m = Inr t" "pristine m"
  shows "\<exists>m'. t = Continue m' \<and> pristine m'"
  using assms(1) unfolding server_line_def
  by (auto split: list.splits if_splits dest: set_server_pristine [OF _ assms(2)] intro: assms(2))

lemma get_server_conf_pristine:
  assumes "get_server_conf over file path m = Some (Inr (r, m'))" "pristine m"
  shows "pristine m'"
proof -
  obtain b where b: "conffile_buf path = Inr b"
    "getline_loop (server_line over) (is_open file) (m\<lparr>m_server_conf_file := b\<rparr>) = Some (Inr (r, m'))"
    using assms(1) by (auto simp: get_server_conf_def split: sum.splits)
  obtain s where f: "file = Some s"
    using assms(1) by (cases "file") (simp_all add: missing_file [OF b(1)])
  have p: "pristine (m\<lparr>m_server_conf_file := b\<rparr>)" using assms(2) by (simp add: pristine_def)
  have l: "line_loop (server_line over) (split_lines s) (m\<lparr>m_server_conf_file := b\<rparr>) = Inr (r, m')"
    using b(2) by (simp add: f getline_loop_open)
  have c: "pristine t" if "pristine m1" "server_line over l m1 = Inr (Continue t)" for l m1 t
    using server_line_pristine [OF that(2,1)] by simp
  have e: "pristine t" if "pristine m1" "server_line over l m1 = Inr (Return r t)" for l m1 r t
    using server_line_pristine [OF that(2,1)] by simp
  show ?thesis by (rule line_loop_inv [of pristine "server_line over", OF c e p l])
qed


lemma test_line_keeps:
  assumes "test_line J over l m = Inr t"
  obtains "t = Return (-1) m" | "t = Continue m"
  | i where "t = Continue (m\<lparr>m_configid_map := smap_put i l (m_configid_map m)\<rparr>)"
  using assms unfolding test_line_def
  by (auto split: list.splits if_splits option.splits)

lemma get_test_conf_pristine:
  assumes "get_test_conf J over file path m = Some (Inr (r, m'))" "pristine m"
  shows "pristine m' \<and> conffile_buf path = Inr (m_test_conf_file m')"
proof -
  obtain b where b: "conffile_buf path = Inr b"
    "getline_loop (test_line J over) (is_open file) (m\<lparr>m_test_conf_file := b\<rparr>) = Some (Inr (r, m'))"
    using assms(1) by (auto simp: get_test_conf_def split: sum.splits)
  obtain s where f: "file = Some s"
    using assms(1) by (cases "file") (simp_all add: missing_file [OF b(1)])
  define P where "P m1 \<longleftrightarrow> pristine m1 \<and> m_test_conf_file m1 = b" for m1
  have p: "P (m\<lparr>m_test_conf_file := b\<rparr>)" using assms(2) by (simp add: P_def pristine_def)
  have l: "line_loop (test_line J over) (split_lines s) (m\<lparr>m_test_conf_file := b\<rparr>) = Inr (r, m')"
    using b(2) by (simp add: f getline_loop_open)
  have c: "P t" if "P m1" "test_line J over l m1 = Inr (Continue t)" for l m1 t
    using that(1) by (cases rule: test_line_keeps [OF that(2)]) (simp_all add: P_def pristine_def)
  have e: "P t" if "P m1" "test_line J over l m1 = Inr (Return r t)" for l m1 r t
    using that(1) by (cases rule: test_line_keeps [OF that(2)]) (simp_all add: P_def pristine_def)
  have "P m'" by (rule line_loop_inv [of P "test_line J over", OF c e p l])
  with b(1) show ?thesis by (simp add: P_def)
qed

text \<open>One channel per started worker, no configuration on any of them.\<close>

lemma fold_spawn:
  "m_workernum (fold spawn_parent ks m) = m_workernum m \<and>
   m_channels (fold spawn_parent ks m) = m_channels m @ map fst ks \<and>
   m_configid_map (fold spawn_parent ks m) = m_configid_map m \<and>
   m_configid_channel (fold spawn_parent ks m) = m_configid_channel m \<and>
   m_writes (fold spawn_parent ks m) = m_writes m \<and>
   m_redisport (fold spawn_parent ks m) = m_redisport m \<and>
   m_test_conf_file (fold spawn_parent ks m) = m_test_conf_file m \<and>
   (smap_ok (m_config_map m) \<longrightarrow> smap_ok (m_config_map (fold spawn_parent ks m)) \<and>
      (\<forall>x. smap_find (m_config_map (fold spawn_parent ks m)) x =
         (if x \<in> fst ` set ks then Some [] else smap_find (m_config_map m) x)))"
proof (induction ks arbitrary: m)
  case (Cons k ks)
  obtain c0 c10 p where k: "k = (c0, c10, p)" by (cases k)
  show ?case
    using Cons.IH [of "spawn_parent k m"] by (simp add: k spawn_parent_def smap_find_put)
qed simp

lemma generate_worker_starts:
  assumes "pristine m" "generate_worker ks m = (0, m')" "nat (m_workernum m) \<le> length ks"
  shows "master_inv m' \<and> (\<forall>fd. load_of m' fd = []) \<and> m_writes m' = [] \<and>
    m_configid_map m' = m_configid_map m \<and> m_configid_channel m' = [] \<and>
    m_channels m' = map fst (take (nat (m_workernum m)) ks) \<and>
    m_redisport m' = m_redisport m \<and> m_test_conf_file m' = m_test_conf_file m"
proof -
  define ks' where "ks' = take (nat (m_workernum m)) ks"
  have g: "0 < m_workernum m" "m' = fold spawn_parent ks' m"
    using assms(2) by (auto simp: generate_worker_def ks'_def split: if_splits)
  have l: "int (length ks') = m_workernum m" using g(1) assms(3) by (simp add: ks'_def)
  have p: "m_channels m = []" "m_config_map m = []" "m_configid_channel m = []" "m_writes m = []"
    "smap_ok (m_configid_map m)" using assms(1) by (simp_all add: pristine_def)
  note f = fold_spawn [of ks' m, folded g(2)]
  have k: "set (smap_keys (m_config_map m')) = set (m_channels m')"
    using f p(1,2) by (auto simp: smap_set_keys)
  have "master_inv m'" using f p g(1) l k by (simp add: master_inv_def)
  moreover have "load_of m' fd = []" for fd using f p(2) by (simp add: load_of_def)
  ultimately show ?thesis using f p by (simp add: ks'_def)
qed


text \<open>A start that gets to the event loop, taken apart.\<close>

lemma start_master_parts:
  assumes "start_master bt l m r = Inr (m', r')" "r_base r = Null"
  obtains m1 r1 ws where
    "generate_worker (map parent_ends (bt_forks bt)) (set_logger l m) = (0, m1)"
    "watch_channels (bt_bind bt) m1 r = Inr r1"
    "m' = m1\<lparr>m_log := m_log m1 @ log_info (bt_timebuf bt) ''master run'' (m_logger m1)\<rparr>"
    "Master_run m' r1 = Inr r'"
  using assms unfolding start_master_def
  by (auto simp: Let_def Master_run_def add_watch_def split: prod.splits if_splits)

lemma main_master_parts:
  assumes "main_master J bt lj mj rj = Some (Inr (m, r))"
  obtains l m1 m2 r1 r2 where
    "get_server_conf (bt_over bt) (bt_server bt) server_path (Master_new mj) = Some (Inr (r1, m1))"
    "get_test_conf J (bt_over bt) (bt_test bt) test_path m1 = Some (Inr (r2, m2))"
    "start_master bt l m2 (Master_res_new rj) = Inr (m, r)"
  using assms unfolding main_master_def by (auto split: sum.splits option.splits)

text \<open>What the master watches when its loop begins.\<close>

lemma started_watches:
  assumes "watch_channels be m r = Inr r1" "Master_run m' r1 = Inr r'" "r_base r = Null"
    "m_channels m' = m_channels m"
  shows "be_handle be \<noteq> None \<and> r_base r' = Ptr (map (\<lambda>fd. watch_messages fd MasterChannelRead) (m_channels m') @
      [watch_timer (m_splitlog m') True SplitLogTimeout, watch_timer 1 False DistributeConfTimeout,
       watch_timer (m_flushconf m') True FlushConfTimeout]) \<and>
    (\<exists>hs. r_http r' = Ptr hs \<and> hs_port hs = m_port m)"
proof -
  note c = watch_channels_new [OF assms(3,1)]
  then have "r_base r1 = Ptr (map (\<lambda>fd. watch_messages fd MasterChannelRead) (m_channels m))" by simp
  from Master_run_eq [OF this, of m'] assms(2,4) c show ?thesis by auto
qed

lemma start_invariant:
  assumes "start_master bt l m0 r = Inr (m, r')" "r_base r = Null" "pristine m0"
    and "nat (m_workernum m) \<le> length (bt_forks bt)"
  shows "master_inv m \<and> (\<forall>fd. load_of m fd = []) \<and> m_writes m = [] \<and>
    m_channels m = map fe_c0 (take (nat (m_workernum m)) (bt_forks bt)) \<and>
    m_configid_map m = m_configid_map m0 \<and> m_configid_channel m = [] \<and>
    m_test_conf_file m = m_test_conf_file m0 \<and> be_handle (bt_bind bt) \<noteq> None \<and>
    r_base r' = Ptr (map (\<lambda>fd. watch_messages fd MasterChannelRead) (m_channels m) @
      [watch_timer (m_splitlog m) True SplitLogTimeout, watch_timer 1 False DistributeConfTimeout,
       watch_timer (m_flushconf m) True FlushConfTimeout])"
proof -
  obtain m1 r1 where p:
    "generate_worker (map parent_ends (bt_forks bt)) (set_logger l m0) = (0, m1)"
    "watch_channels (bt_bind bt) m1 r = Inr r1"
    "m = m1\<lparr>m_log := m_log m1 @ log_info (bt_timebuf bt) ''master run'' (m_logger m1)\<rparr>"
    "Master_run m r1 = Inr r'"
    by (rule start_master_parts [OF assms(1,2)])
  have c: "pristine (set_logger l m0)" using assms(3) by (simp add: pristine_def set_logger_def)
  have w: "m_workernum m1 = m_workernum m0"
    using p(1) fold_spawn by (auto simp: generate_worker_def set_logger_def split: if_splits)
  have e: "map fst (take k (map parent_ends ks)) = map fe_c0 (take k ks)" for k ks
    by (simp add: take_map parent_ends_def)
  from generate_worker_starts [OF c p(1)] assms(4) w p(3)
  have g: "master_inv m1 \<and> (\<forall>fd. load_of m1 fd = []) \<and> m_writes m1 = [] \<and>
    m_configid_map m1 = m_configid_map m0 \<and> m_configid_channel m1 = [] \<and>
    m_channels m1 = map fe_c0 (take (nat (m_workernum m0)) (bt_forks bt)) \<and>
    m_test_conf_file m1 = m_test_conf_file m0"
    by (simp add: set_logger_def e)
  have "master_inv m1" using g by simp
  then have i: "master_inv m" by (rule master_inv_frame) (simp_all add: p(3))
  have ld: "load_of m = load_of m1" using p(3) by (intro load_of_frame) simp
  have "m_channels m = m_channels m1" by (simp add: p(3))
  from started_watches [OF p(2,4) assms(2) this] g i ld p(3) w show ?thesis by simp
qed

text \<open>The ends the parent keeps, and those a child closes and watches.\<close>

lemma spawned_channels:
  "m_channels (fold spawn_parent (map parent_ends ks) m) = m_channels m @ map fe_c0 ks \<and>
   m_channels_1 (fold spawn_parent (map parent_ends ks) m) = m_channels_1 m @ map fe_c10 ks \<and>
   m_logger (fold spawn_parent (map parent_ends ks) m) = m_logger m"
  by (induction ks arbitrary: m) (simp_all add: spawn_parent_def parent_ends_def)

lemma child_parts:
  assumes "generate_worker_child tb ks i junk m = (w, ws, before, after, mc)" "i < length ks"
    and "m_channels m = []" "m_channels_1 m = []"
  shows "w = Worker_new (m_logger m) junk \<and> map wa_fd ws = [fe_c1 (ks ! i), fe_c11 (ks ! i), fe_icmp (ks ! i)] \<and>
    map wa_cb ws = [WorkerChannelRead, WorkerChannel1, WorkerIcmp] \<and>
    before = [fe_c0 (ks ! i), fe_c10 (ks ! i)] \<and> after = map fe_c0 (take i ks) @ map fe_c10 (take i ks)"
  using assms spawned_channels [of "take i ks" m]
  by (auto simp: generate_worker_child_def child_start_def spawn_child_def Worker_set_channel_def
      Worker_set_channel_1_def Worker_listen_icmp_def watch_messages_def watch_fd_def Let_def)

lemma started_channels_1:
  assumes "start_master bt l m r = Inr (m', r')" "r_base r = Null" "m_channels_1 m = []"
  shows "m_channels_1 m' = map fe_c10 (take (nat (m_workernum m')) (bt_forks bt))"
proof -
  obtain m1 where p: "generate_worker (map parent_ends (bt_forks bt)) (set_logger l m) = (0, m1)"
    "m' = m1\<lparr>m_log := m_log m1 @ log_info (bt_timebuf bt) ''master run'' (m_logger m1)\<rparr>"
    using start_master_parts [OF assms(1,2)] by metis
  have g: "m1 = fold spawn_parent (map parent_ends (take (nat (m_workernum m)) (bt_forks bt))) (set_logger l m)"
    using p(1) by (auto simp: generate_worker_def take_map set_logger_def split: if_splits)
  have "m_workernum m' = m_workernum m" using fold_spawn by (simp add: p(2) g set_logger_def)
  then show ?thesis using spawned_channels assms(3) by (simp add: p(2) g set_logger_def)
qed

text \<open>A start that gets to the event loop, as a whole.\<close>

lemma booted:
  assumes "main_master J bt lj mj rj = Some (Inr (m, r))" "nat (m_workernum m) \<le> length (bt_forks bt)"
  shows "master_inv m \<and> balanced m \<and> (\<forall>fd. load_of m fd = []) \<and> m_writes m = [] \<and>
    m_channels m = map fe_c0 (take (nat (m_workernum m)) (bt_forks bt)) \<and>
    read_cstr (m_test_conf_file m) = Inr test_path \<and>
    r_base r = Ptr (map (\<lambda>fd. watch_messages fd MasterChannelRead) (m_channels m) @
      [watch_timer (m_splitlog m) True SplitLogTimeout, watch_timer 1 False DistributeConfTimeout,
       watch_timer (m_flushconf m) True FlushConfTimeout])"
proof -
  obtain l m1 m2 r1 r2 where p:
    "get_server_conf (bt_over bt) (bt_server bt) server_path (Master_new mj) = Some (Inr (r1, m1))"
    "get_test_conf J (bt_over bt) (bt_test bt) test_path m1 = Some (Inr (r2, m2))"
    "start_master bt l m2 (Master_res_new rj) = Inr (m, r)"
    by (rule main_master_parts [OF assms(1)])
  have "pristine (Master_new mj)" by (simp add: pristine_def Master_new_def)
  from get_test_conf_pristine [OF p(2) get_server_conf_pristine [OF p(1) this]]
  have c: "pristine m2" "conffile_buf test_path = Inr (m_test_conf_file m2)" by simp_all
  have "r_base (Master_res_new rj) = Null" by (simp add: Master_res_new_def)
  note s = start_invariant [OF p(3) this c(1) assms(2)]
  have f: "m_test_conf_file m2 = test_path @ replicate 103 NUL"
    using c(2) by (simp add: conffile_buf_def test_path_def MAX_CONFFILE_LEN_def split: if_splits)
  have "NUL \<notin> set test_path" "NUL \<in> set (m_test_conf_file m2)" by (simp_all add: test_path_def f)
  from conffile_buf_read [OF c(2) this] have "read_cstr (m_test_conf_file m) = Inr test_path"
    using s by simp
  with s show ?thesis by (simp add: balanced_def)
qed

subsection \<open>Properties\<close>

text \<open>C19. A start that reaches the event loop has one channel per configured worker, nothing
  distributed and nothing written, satisfies the invariant all other properties of the master
  assume, and will flush to the file it loaded; its loop watches every channel for whole messages
  and has the three timers, of which the distribution comes once, after a second.\<close>

theorem boot_reaches_invariant:
  assumes "main_master J bt lj mj rj = Some (Inr (m, r))" "nat (m_workernum m) \<le> length (bt_forks bt)"
  shows "master_inv m \<and> balanced m \<and> (\<forall>fd. load_of m fd = []) \<and> m_writes m = [] \<and>
    m_channels m = map fe_c0 (take (nat (m_workernum m)) (bt_forks bt)) \<and>
    read_cstr (m_test_conf_file m) = Inr test_path \<and>
    r_base r = Ptr (map (\<lambda>fd. watch_messages fd MasterChannelRead) (m_channels m) @
      [watch_timer (m_splitlog m) True SplitLogTimeout, watch_timer 1 False DistributeConfTimeout,
       watch_timer (m_flushconf m) True FlushConfTimeout])"
  by (rule booted [OF assms])

text \<open>C21. The processes are wired up pairwise, whatever numbers the kernel gives out: when the master's
  loop begins, the descriptors it watches and those it passes log files through are its ends of its
  workers' pairs, in order, and it holds no other end; the three descriptors the \<open>i\<close>th worker watches
  are its ends of the \<open>i\<close>th pairs and its raw socket, and it holds nothing of any other worker's and no
  end of the master's. Numbers are reused: only a descriptor that is open counts as taken.\<close>

theorem start_wires_channels:
  assumes "start_master bt l m0 r0 = Inr (m, r)" "r_base r0 = Null" "pristine m0" "m_channels_1 m0 = []"
    and "n = nat (m_workernum m)" "n \<le> length (bt_forks bt)"
    and "\<forall>fd f. t0 fd = Some f \<longrightarrow> f = OtherFile" "forks_ok 0 (take n (bt_forks bt)) t0" "i < n"
    and "generate_worker_child tb (bt_forks bt) i junk (set_logger l m0) = (w, ws, before, after, mi)"
    and "tm = open_workers 0 (take n (bt_forks bt)) t0"
    and "ti = child_fds before after i (bt_forks bt ! i) (open_workers 0 (take i (bt_forks bt)) t0)"
  shows "length (m_channels m) = n \<and>
    watch_messages (m_channels m ! i) MasterChannelRead \<in> (case r_base r of Ptr ms \<Rightarrow> set ms | _ \<Rightarrow> {}) \<and>
    tm (m_channels m ! i) = Some (MasterEnd i) \<and> tm (m_channels_1 m ! i) = Some (MasterFdEnd i) \<and>
    (\<forall>fd f. tm fd = Some f \<longrightarrow> f = OtherFile \<or> (\<exists>j < n. f = MasterEnd j \<or> f = MasterFdEnd j)) \<and>
    map wa_cb ws = [WorkerChannelRead, WorkerChannel1, WorkerIcmp] \<and>
    map (\<lambda>x. ti (wa_fd x)) ws = [Some (WorkerEnd i), Some (WorkerFdEnd i), Some (RawIcmp i)] \<and>
    (\<forall>fd f. ti fd = Some f \<longrightarrow> f \<in> {WorkerEnd i, WorkerFdEnd i, RawIcmp i, OtherFile}) \<and>
    w_logger w = l"
proof -
  define ks where "ks = take n (bt_forks bt)"
  have len: "length ks = n" "i < length ks" using assms(6,9) by (simp_all add: ks_def)
  have nth: "bt_forks bt ! i = ks ! i" using assms(9) by (simp add: ks_def)
  have ti: "take i (bt_forks bt) = take i ks" using assms(9) by (simp add: ks_def min_def)
  have nw: "nat (m_workernum m) \<le> length (bt_forks bt)" using assms(5,6) by simp
  note s = start_invariant [OF assms(1-3) nw]
  have ch: "m_channels m = map fe_c0 ks" using s assms(5) by (simp add: ks_def)
  have ch1: "m_channels_1 m = map fe_c10 ks" using started_channels_1 [OF assms(1,2,4)] assms(5) by (simp add: ks_def)
  have w0: "watch_messages (m_channels m ! i) MasterChannelRead \<in> (case r_base r of Ptr ms \<Rightarrow> set ms | _ \<Rightarrow> {})"
  proof -
    have "m_channels m ! i \<in> set (m_channels m)" using len(2) by (simp add: ch)
    moreover have "r_base r = Ptr (map (\<lambda>fd. watch_messages fd MasterChannelRead) (m_channels m) @
      [watch_timer (m_splitlog m) True SplitLogTimeout, watch_timer 1 False DistributeConfTimeout,
       watch_timer (m_flushconf m) True FlushConfTimeout])" using s by blast
    ultimately show ?thesis by simp
  qed
  have t0: "parent_table_ok [] [] t0" using assms(7) by (simp add: parent_table_ok_def)
  have ok: "forks_ok 0 ks t0" using assms(8) by (simp add: ks_def)
  have tm: "parent_table_ok (m_channels m) (m_channels_1 m) tm"
    using open_workers_ok [OF t0, of ks] ok by (simp add: ch ch1 assms(11) ks_def)
  have sp: "ks = take i ks @ ks ! i # drop (Suc i) ks" using len(2) by (rule id_take_nth_drop)
  have "forks_ok 0 (take i ks @ ks ! i # drop (Suc i) ks) t0" unfolding sp [symmetric] by (rule ok)
  then have oki: "forks_ok 0 (take i ks) t0" "fork_ok i (ks ! i) (open_workers 0 (take i ks) t0)"
    using len(2) by (simp_all add: forks_ok_append)
  have pt: "parent_table_ok (map fe_c0 (take i ks)) (map fe_c10 (take i ks)) (open_workers 0 (take i ks) t0)"
    using open_workers_ok [OF t0, of "take i ks"] oki(1) by simp
  have l: "length (map fe_c0 (take i ks)) = i" using len(2) by simp
  have e: "m_channels (set_logger l m0) = []" "m_channels_1 (set_logger l m0) = []" "m_logger (set_logger l m0) = l"
    using assms(3,4) by (simp_all add: pristine_def set_logger_def)
  have "i < length (bt_forks bt)" using assms(6,9) by simp
  note c = child_parts [OF assms(10) this e(1,2), unfolded nth ti]
  have tw: "ti = child_fds [fe_c0 (ks ! i), fe_c10 (ks ! i)] (map fe_c0 (take i ks) @ map fe_c10 (take i ks))
      (length (map fe_c0 (take i ks))) (ks ! i) (open_workers 0 (take i ks) t0)"
    using c unfolding assms(12) nth \<open>take i (bt_forks bt) = take i ks\<close> l by simp
  have okl: "fork_ok (length (map fe_c0 (take i ks))) (ks ! i) (open_workers 0 (take i ks) t0)"
    unfolding l by (rule oki(2))
  note k = child_fds_ok [OF pt okl tw, unfolded l]
  have ln: "length (m_channels m) = n" by (simp add: ch len(1))
  have tm_i: "tm (m_channels m ! i) = Some (MasterEnd i)" "tm (m_channels_1 m ! i) = Some (MasterFdEnd i)"
    using tm assms(9) unfolding parent_table_ok_def ln by blast+
  have tm_all: "\<forall>fd f. tm fd = Some f \<longrightarrow> f = OtherFile \<or> (\<exists>j < n. f = MasterEnd j \<or> f = MasterFdEnd j)"
    using tm unfolding parent_table_ok_def ln by blast
  have wf: "map wa_fd ws = [fe_c1 (ks ! i), fe_c11 (ks ! i), fe_icmp (ks ! i)]"
    "map wa_cb ws = [WorkerChannelRead, WorkerChannel1, WorkerIcmp]" "w = Worker_new (m_logger (set_logger l m0)) junk"
    using c by blast+
  have "map (\<lambda>x. ti (wa_fd x)) ws = map ti (map wa_fd ws)" by simp
  also have "\<dots> = [Some (WorkerEnd i), Some (WorkerFdEnd i), Some (RawIcmp i)]"
    unfolding wf(1) using k(1-3) by simp
  finally have wt: "map (\<lambda>x. ti (wa_fd x)) ws = [Some (WorkerEnd i), Some (WorkerFdEnd i), Some (RawIcmp i)]" .
  have ti_all: "\<forall>fd f. ti fd = Some f \<longrightarrow> f \<in> {WorkerEnd i, WorkerFdEnd i, RawIcmp i, OtherFile}"
    using k(4) by blast
  have wl: "w_logger w = l" by (simp add: wf(3) Worker_new_def e(3))
  show ?thesis using ln w0 tm_i tm_all wf(2) wt ti_all wl by blast
qed

text \<open>Two ways to die at the start, both untested: without a positive \<open>workernum\<close> in
  \<open>server.conf\<close> no worker and no event base is made, and when the HTTP port is taken there is no
  handle to ask for its descriptor. Either way the master follows a null pointer.\<close>

theorem boot_crashes:
  assumes "main_master J bt lj mj rj = Some x"
    and "get_server_conf (bt_over bt) (bt_server bt) server_path (Master_new mj) = Some (Inr (r1, m1))"
    and "get_test_conf J (bt_over bt) (bt_test bt) test_path m1 = Some (Inr (r2, m2))"
    and "master_title (bt_argv bt) (bt_envp bt) = Inr t"
    and "m_workernum m2 \<le> 0 \<or> be_handle (bt_bind bt) = None"
  shows "x = Inl NullDeref"
proof -
  obtain l where x: "x = start_master bt l m2 (Master_res_new rj)"
    using assms(1-3) unfolding main_master_def
    by (auto simp: set_logfile_def log_path_def MAX_FILEPATH_def split: if_splits)
  have n: "r_base (Master_res_new rj) = Null" by (simp add: Master_res_new_def)
  show ?thesis
  proof (cases "m_workernum m2 \<le> 0")
    case True
    then show ?thesis
      using assms(4) n by (simp add: x start_master_def generate_worker_def set_logger_def Master_run_def add_watch_def)
  next
    case False
    then have "be_handle (bt_bind bt) = None" using assms(5) by simp
    with False n show ?thesis
      by (simp add: x start_master_def generate_worker_def set_logger_def watch_channels_def Master_init_def)
  qed
qed

text \<open>SIGTERM and SIGINT reach an object that was never started: no loop is stopped and nothing is freed.
  After the start, the destructor of the running master would have freed the server, two events and
  the base, but not the event of the flush timer.\<close>

theorem termhandler_misses_master:
  assumes "start_master bt l m0 (Master_res_new rj) = Inr (m, r)"
  shows "termhandler static_master = Inr (False, static_master) \<and>
    (\<exists>r'. recover_resource r = Inr r' \<and>
       r_frees r' = [FreeHttp, FreeEvent DistributeConfTimeout, FreeEvent SplitLogTimeout, FreeBase] \<and>
       r_flush_conf_ev r' = Ptr FlushConfTimeout \<and> r_base r' = Null \<and> recover_resource r' = Inr r')"
proof -
  have n: "r_base (Master_res_new rj) = Null" by (simp add: Master_res_new_def)
  obtain m1 r1 where p: "watch_channels (bt_bind bt) m1 (Master_res_new rj) = Inr r1" "Master_run m r1 = Inr r"
    using start_master_parts [OF assms n] by metis
  note c = watch_channels_new [OF n p(1)]
  have b: "r_base r1 = Ptr (map (\<lambda>fd. watch_messages fd MasterChannelRead) (m_channels m1))" using c by simp
  obtain ws hs where r: "r_base r = Ptr ws" "r_http r = Ptr hs" "r_distribute_conf_ev r = Ptr DistributeConfTimeout"
    "r_split_log_ev r = Ptr SplitLogTimeout" "r_flush_conf_ev r = Ptr FlushConfTimeout" "r_frees r = []"
    using Master_run_eq [OF b, of m] p(2) c by (auto simp: Master_res_new_def)
  show ?thesis
    by (simp add: termhandler_def static_master_def Master_res_new_def recover_resource_def free_http_def
        free_event_def free_base_def r)
qed

lemma argv_text_fold:
  assumes "list_all (\<lambda>a. NUL \<notin> set a) args"
  shows "fold_res add_arg args buf =
    (if args = [] \<or> length (buf @ concat (map (\<lambda>a. a @ '' '') args)) < MAXLINE
     then Inr (buf @ concat (map (\<lambda>a. a @ '' '') args)) else Inl OutOfBounds)"
  using assms
proof (induction args arbitrary: buf)
  case (Cons a args)
  then have "cstr a = a" by (simp add: cstr_id)
  with Cons show ?case by (auto simp: add_arg_def sprintf_buf_def)
qed simp

text \<open>The process title: \<open>newprober master\<close> and the arguments, cut to the size of the area the
  kernel laid out, which is neither left nor lengthened; arguments of 2048 characters or more
  overrun the buffer they are collected in.\<close>

theorem master_title_shown:
  assumes "list_all (\<lambda>a. NUL \<notin> set a) (tl argv)" "tl argv \<noteq> []"
    and "args = concat (map (\<lambda>a. a @ '' '') (tl argv))"
    and "area = snd (setproctitle_init argv envp)" "2 \<le> length area"
    and "title = take (length area - 2) (''newprober master '' @ args)"
  shows "(MAXLINE \<le> length args \<longrightarrow> master_title argv envp = Inl OutOfBounds) \<and>
    (length args < MAXLINE - 17 \<longrightarrow> (\<exists>area'. master_title argv envp = Inr (area', title) \<and>
       length area' = length area \<and> cstr area' = title))"
proof -
  have nul: "NUL \<notin> set args" using assms(1,3) by (auto simp: list_all_iff)
  have a: "argv_text argv = (if length args < MAXLINE then Inr args else Inl OutOfBounds)"
    using argv_text_fold [OF assms(1), of "[]"] assms(2,3) by (simp add: argv_text_def)
  have "\<exists>area'. setproctitle (''newprober master '' @ args) area = Inr (area', title) \<and>
      length area' = length area \<and> cstr area' = title" if "length args < MAXLINE - 17"
    using setproctitle_in_area [of "''newprober master '' @ args" area] that nul assms(5,6)
    by (simp add: MAXLINE_def)
  with a show ?thesis by (auto simp: master_title_def assms(4) MAXLINE_def)
qed


subsection \<open>Witnesses\<close>

definition demo_boot :: boot where
  "demo_boot = \<lparr>bt_logfd = 3, bt_server = Some ''workernum 2'', bt_test = Some ''u'', bt_over = [],
     bt_forks = [\<lparr>fe_c0 = 4, fe_c1 = 5, fe_c10 = 6, fe_c11 = 7, fe_pid = 100, fe_icmp = 4\<rparr>,
       \<lparr>fe_c0 = 5, fe_c1 = 7, fe_c10 = 8, fe_c11 = 9, fe_pid = 101, fe_icmp = 5\<rparr>],
     bt_bind = \<lparr>be_handle = Some 12, be_sockname = Inet 8000, be_ntop = Some ''0.0.0.0''\<rparr>, bt_argv = [''np'', ''x''], bt_envp = [''HOME=/''],
     bt_timebuf = ''now''\<rparr>"

definition demo_logger :: logger where
  "demo_logger = \<lparr>lg_level = 0, logfilefd = 0, logfile = []\<rparr>"

lemma demo_server_file:
  "get_server_conf [] (Some ''workernum 2'') server_path (Master_new m) =
   Some (Inr (0, (Master_new m)\<lparr>m_server_conf_file := server_path @ replicate 101 NUL, m_workernum := 2\<rparr>))"
proof -
  have b: "conffile_buf server_path = Inr (server_path @ replicate 101 NUL)"
    by (simp add: conffile_buf_def server_path_def MAX_CONFFILE_LEN_def)
  have s: "server_setting ''workernum'' ''2'' 0 1" by (simp add: server_setting_def)
  have l: "server_line [] ''workernum 2'' m1 = Inr (Continue (m1\<lparr>m_workernum := 2\<rparr>))" for m1
    using server_line_eq [OF s, of "[]" m1]
    by (simp add: set_server_def atoi_def cstr_def atoi_val_def is_space_def is_digit_def digit_val_def
        int_range_def)
  show ?thesis by (simp add: get_server_conf_def b getline_loop_open l)
qed

lemma demo_test_file:
  "get_test_conf demo_J [] (Some ''u'') test_path m =
   Some (Inr (0, m\<lparr>m_test_conf_file := test_path @ replicate 103 NUL,
     m_configid_map := smap_put 5 ''u'' (m_configid_map m)\<rparr>))"
proof -
  have b: "conffile_buf test_path = Inr (test_path @ replicate 103 NUL)"
    by (simp add: conffile_buf_def test_path_def MAX_CONFFILE_LEN_def)
  show ?thesis by (simp add: get_test_conf_def b getline_loop_open test_line_ok [OF demo_conf_line(1)])
qed

lemma demo_title: "\<exists>t. master_title [''np'', ''x''] [''HOME=/''] = Inr t"
  by (simp add: master_title_def argv_text_def add_arg_def sprintf_buf_def cstr_def MAXLINE_def
      setproctitle_def setproctitle_init_def c_strings_def)

definition demo_res :: master_res where
  "demo_res = \<lparr>r_base = Junk, r_http = Junk, r_distribute_conf_ev = Junk, r_split_log_ev = Junk,
     r_flush_conf_ev = Junk, r_frees = []\<rparr>"

lemma demo_start:
  assumes "m_workernum m = 2" "m_channels m = []"
  shows "\<exists>m' r. start_master (demo_boot\<lparr>bt_test := tf\<rparr>) l m (Master_res_new demo_res) = Inr (m', r) \<and>
    m_workernum m' = 2 \<and> m_configid_map m' = m_configid_map m \<and> m_redisport m' = m_redisport m"
proof -
  obtain t where "master_title [''np'', ''x''] [''HOME=/''] = Inr t" using demo_title by blast
  then show ?thesis
    using assms by (simp add: start_master_def demo_boot_def set_logger_def generate_worker_def spawn_parent_def
        parent_ends_def numeral_2_eq_2 watch_channels_def Master_init_def listening_def add_watch_def
        Master_run_def Master_res_new_def)
qed

definition demo_loads :: "string \<Rightarrow> bool" where
  "demo_loads s \<longleftrightarrow> (\<forall>m. get_test_conf demo_J [] (Some s) test_path m =
     Some (Inr (0, m\<lparr>m_test_conf_file := test_path @ replicate 103 NUL,
       m_configid_map := smap_put 5 ''u'' (m_configid_map m)\<rparr>)))"

lemma demo_boots:
  assumes "demo_loads s"
  shows "\<exists>m r. main_master demo_J (demo_boot\<lparr>bt_test := Some s\<rparr>) demo_logger demo_master0 demo_res =
      Some (Inr (m, r)) \<and> m_workernum m = 2 \<and> m_configid_map m = [(5, ''u'')] \<and> m_redisport m = -1"
proof -
  define m1 where "m1 = (Master_new demo_master0)\<lparr>m_server_conf_file := server_path @ replicate 101 NUL, m_workernum := 2\<rparr>"
  define m2 where "m2 = m1\<lparr>m_test_conf_file := test_path @ replicate 103 NUL,
     m_configid_map := smap_put 5 ''u'' (m_configid_map m1)\<rparr>"
  define bt where "bt = demo_boot\<lparr>bt_test := Some s\<rparr>"
  have f: "get_server_conf (bt_over bt) (bt_server bt) server_path (Master_new demo_master0) = Some (Inr (0, m1))"
    "get_test_conf demo_J (bt_over bt) (bt_test bt) test_path m1 = Some (Inr (0, m2))"
    using assms by (simp_all add: bt_def demo_boot_def demo_server_file demo_loads_def m1_def m2_def)
  have "m_workernum m2 = 2" "m_channels m2 = []" "m_configid_map m2 = [(5, ''u'')]" "m_redisport m2 = -1"
    by (simp_all add: m1_def m2_def Master_new_def)
  with demo_start [OF this(1,2), of "Some s", folded bt_def] show ?thesis
    unfolding bt_def [symmetric]
    by (simp add: main_master_def f set_logfile_def log_path_def MAX_FILEPATH_def)
qed

lemma demo_loads_one: "demo_loads ''u''"
  by (simp add: demo_loads_def demo_test_file)

lemma demo_boot_test: "demo_boot\<lparr>bt_test := Some ''u''\<rparr> = demo_boot"
  by (simp add: demo_boot_def)

theorem boot_reaches_invariant_witness:
  "\<exists>m r. main_master demo_J demo_boot demo_logger demo_master0 demo_res = Some (Inr (m, r)) \<and> master_inv m \<and>
     m_channels m = [4, 5]"
proof -
  obtain m r where m: "main_master demo_J demo_boot demo_logger demo_master0 demo_res = Some (Inr (m, r))"
    "m_workernum m = 2" using demo_boots [OF demo_loads_one] by (auto simp: demo_boot_test)
  from boot_reaches_invariant [OF m(1)] m show ?thesis by (auto simp: demo_boot_def)
qed

lemma demo_pristine: "pristine (demo_master0\<lparr>m_workernum := 2\<rparr>)" "m_channels_1 (demo_master0\<lparr>m_workernum := 2\<rparr>) = []"
  by (simp_all add: pristine_def demo_master0_def Master_new_def)

text \<open>The second pairs get the numbers of the ends the parent has closed, and the raw sockets those of
  ends the children have closed.\<close>

theorem start_wires_channels_witness:
  "\<exists>m r w ws before after mi ti.
     start_master demo_boot demo_logger (demo_master0\<lparr>m_workernum := 2\<rparr>) (Master_res_new demo_res) = Inr (m, r) \<and>
     generate_worker_child ''now'' (bt_forks demo_boot) 1 demo_worker0
       (set_logger demo_logger (demo_master0\<lparr>m_workernum := 2\<rparr>)) = (w, ws, before, after, mi) \<and>
     ti = child_fds before after 1 (bt_forks demo_boot ! 1) (open_workers 0 (take 1 (bt_forks demo_boot)) [3 \<mapsto> OtherFile]) \<and>
     map (\<lambda>x. ti (wa_fd x)) ws = [Some (WorkerEnd 1), Some (WorkerFdEnd 1), Some (RawIcmp 1)] \<and>
     ti 4 = None \<and> ti 6 = None"
proof -
  let ?m0 = "demo_master0\<lparr>m_workernum := 2\<rparr>"
  obtain m r where m: "start_master demo_boot demo_logger ?m0 (Master_res_new demo_res) = Inr (m, r)"
    "m_workernum m = 2" using demo_start [of ?m0 "Some ''u''" demo_logger] demo_pristine(1) by (auto simp: pristine_def demo_boot_test)
  obtain w ws before after mi where c: "generate_worker_child ''now'' (bt_forks demo_boot) 1 demo_worker0 (set_logger demo_logger ?m0) =
      (w, ws, before, after, mi)" by (metis prod_cases5)
  have n: "r_base (Master_res_new demo_res) = Null" by (simp add: Master_res_new_def)
  define ti where "ti = child_fds before after 1 (bt_forks demo_boot ! 1) (open_workers 0 (take 1 (bt_forks demo_boot)) [3 \<mapsto> OtherFile])"
  have d: "2 = nat (m_workernum m)" "2 \<le> length (bt_forks demo_boot)"
    "\<forall>fd f. [3 \<mapsto> OtherFile] fd = Some f \<longrightarrow> f = OtherFile"
    "forks_ok 0 (take 2 (bt_forks demo_boot)) [3 \<mapsto> OtherFile]" "(1 :: nat) < 2"
    using m(2) by (simp_all add: demo_boot_def fork_ok_def close_fds_def socketpairs_def parent_fds_def)
  from start_wires_channels [OF m(1) n demo_pristine d c refl ti_def]
  have t: "map (\<lambda>x. ti (wa_fd x)) ws = [Some (WorkerEnd 1), Some (WorkerFdEnd 1), Some (RawIcmp 1)]"
    by (elim conjE)
  have e: "m_channels (set_logger demo_logger ?m0) = []" "m_channels_1 (set_logger demo_logger ?m0) = []"
    using demo_pristine by (simp_all add: pristine_def set_logger_def)
  have l: "1 < length (bt_forks demo_boot)" by (simp add: demo_boot_def)
  from child_parts [OF c l e] have "ti 4 = None" "ti 6 = None"
    by (simp_all add: ti_def child_fds_def close_fds_def demo_boot_def)
  with m(1) c t show ?thesis unfolding ti_def by (intro exI conjI) (assumption | rule refl)+
qed

lemma demo_empty_file:
  "get_server_conf [] (Some []) server_path (Master_new m) =
   Some (Inr (0, (Master_new m)\<lparr>m_server_conf_file := server_path @ replicate 101 NUL\<rparr>))"
proof -
  have b: "conffile_buf server_path = Inr (server_path @ replicate 101 NUL)"
    by (simp add: conffile_buf_def server_path_def MAX_CONFFILE_LEN_def)
  have l: "server_line [] [] m1 = Inr (Continue m1)" for m1
    by (simp add: server_line_def line_buf_def skip_spaces_def)
  show ?thesis by (simp add: get_server_conf_def b getline_loop_open l)
qed

theorem boot_crashes_witness:
  "main_master demo_J (demo_boot\<lparr>bt_server := Some []\<rparr>) demo_logger demo_master0 demo_res = Some (Inl NullDeref)"
proof -
  let ?bt = "demo_boot\<lparr>bt_server := Some []\<rparr>"
  obtain t where t: "master_title (bt_argv ?bt) (bt_envp ?bt) = Inr t"
    using demo_title by (auto simp: demo_boot_def)
  have g: "get_server_conf (bt_over ?bt) (bt_server ?bt) server_path (Master_new demo_master0) =
    Some (Inr (0, (Master_new demo_master0)\<lparr>m_server_conf_file := server_path @ replicate 101 NUL\<rparr>))"
    by (simp add: demo_boot_def demo_empty_file)
  obtain m2 where c: "get_test_conf demo_J (bt_over ?bt) (bt_test ?bt) test_path
      ((Master_new demo_master0)\<lparr>m_server_conf_file := server_path @ replicate 101 NUL\<rparr>) =
      Some (Inr (0, m2))" "m_workernum m2 \<le> 0"
    by (simp add: demo_boot_def demo_test_file Master_new_def)
  obtain x where x: "main_master demo_J ?bt demo_logger demo_master0 demo_res = Some x"
    using g c(1) by (simp add: main_master_def set_logfile_def log_path_def MAX_FILEPATH_def)
  from boot_crashes [OF x g c(1) t disjI1 [OF c(2)]] x show ?thesis by simp
qed

theorem termhandler_misses_master_witness:
  "\<exists>m r r'. start_master demo_boot demo_logger (demo_master0\<lparr>m_workernum := 2\<rparr>) (Master_res_new demo_res) = Inr (m, r) \<and>
     recover_resource r = Inr r' \<and> r_flush_conf_ev r' = Ptr FlushConfTimeout"
proof -
  obtain m r where m: "start_master demo_boot demo_logger (demo_master0\<lparr>m_workernum := 2\<rparr>) (Master_res_new demo_res) = Inr (m, r)"
    using demo_start [of "demo_master0\<lparr>m_workernum := 2\<rparr>" "Some ''u''" demo_logger] demo_pristine(1)
    by (auto simp: pristine_def demo_boot_test)
  from termhandler_misses_master [OF m] m show ?thesis by blast
qed

theorem master_title_shown_witness:
  "\<exists>area'. master_title [''np'', ''x''] [''HOME=/''] = Inr (area', ''newprober'') \<and> length area' = 11"
proof -
  have "list_all (\<lambda>a. NUL \<notin> set a) (tl [''np'', ''x''])" "tl [''np'', ''x''] \<noteq> []" by simp_all
  from master_title_shown [OF this refl refl _ refl, of "[''HOME=/'']"] show ?thesis
    by (auto simp: MAXLINE_def setproctitle_init_def c_strings_def)
qed

end
