(* ===== verification/Whole_Program.thy ===== *)
theory Whole_Program
  imports Network Restart
begin

section \<open>The program from its start\<close>

text \<open>
  The parts put together: the start of the master from its files (\<open>Main_Prog\<close>, \<open>Restart\<close>), the
  timers before the distribution, the distribution, and then the master, its workers and the bytes
  between them (\<open>Network\<close>). The steps of the network are labelled with the inputs of the master, so
  that the dictionary the requests describe (\<open>Master_Store\<close>) can be compared with the tests the
  workers run.
\<close>

subsection \<open>The master inside the network\<close>

text \<open>The labels of a path are a run of the master.\<close>

lemma net_step_master:
  assumes "net_step J en n fs n'"
  shows "fold_res (master_handle J) fs (n_master n) = Inr (n_master n')"
  using assms by cases (simp_all add: master_did_def worker_did_def)

lemma net_reach_master:
  "net_reach J en n0 es n \<Longrightarrow> fold_res (master_handle J) es (n_master n0) = Inr (n_master n)"
  by (induction rule: net_reach.induct) (simp_all add: net_step_master)

lemma net_reach_store:
  assumes "net_reach J en n0 es n" "master_inv (n_master n0)"
  shows "store_of (n_master n) = fold (spec_input J) es (store_of (n_master n0))"
  using mr.run_refines [OF assms(2) net_reach_master [OF assms(1)]] by simp

subsection \<open>Before the distribution\<close>

lemma timer_keeps:
  assumes "master_handle J e m = Inr m'" "is_timer e"
  shows "m_writes m' = m_writes m \<and> m_channels m' = m_channels m \<and> m_configid_map m' = m_configid_map m \<and>
    m_configid_channel m' = m_configid_channel m"
  using assms(2,1)
  by (cases e rule: is_timer.cases) (auto simp: flush_test_conf_def master_split_log_def Let_def split: prod.splits)

lemma timers_keep:
  "fold_res (master_handle J) es m = Inr m' \<Longrightarrow> list_all is_timer es \<Longrightarrow>
   m_writes m' = m_writes m \<and> m_channels m' = m_channels m \<and> m_configid_map m' = m_configid_map m \<and>
   m_configid_channel m' = m_configid_channel m"
proof (induction es arbitrary: m)
  case (Cons e es)
  then obtain m1 where m1: "master_handle J e m = Inr m1" "fold_res (master_handle J) es m1 = Inr m'" by auto
  with Cons.IH [OF m1(2)] timer_keeps [OF m1(1)] Cons.prems(2) show ?case by simp
qed simp

subsection \<open>From the files to the network\<close>

text \<open>An entry of the file that can be loaded, sent, and run by every worker.\<close>

definition entry_ok :: "'j jsonlib \<Rightarrow> (int \<Rightarrow> 'c worker_env) \<Rightarrow> int list \<Rightarrow> int \<times> string \<Rightarrow> bool" where
  "entry_ok J en fds e \<longleftrightarrow> conf_line J e \<and> length (snd e) < MAX_MSG_LEN \<and> NUL \<notin> set (snd e) \<and>
     list_all (\<lambda>fd. udp_object J (we_config (en fd)) (snd e) (fst e)) fds"

lemma program_starts:
  assumes "main_master J bt lj mj rj = Some (Inr (m0, r0))" "nat (m_workernum m0) \<le> length (bt_forks bt)"
    and "bt_test bt = Some (flushed cm)" "smap_ok cm" "list_all (entry_ok J en (m_channels m0)) cm"
    and "fold_res (master_handle J) (timers @ [DistributeDue]) m0 = Inr m" "list_all is_timer timers"
  shows "net_inv J en (net_start (\<lambda>fd. Worker_new lg (junk fd)) m) \<and> m_channels m = m_channels m0 \<and>
    master_inv m \<and> store_of m = map_of cm"
proof -
  obtain m1 where m1: "fold_res (master_handle J) timers m0 = Inr m1" "distribute_conf m1 = Inr m"
    using assms(6) by auto
  have b: "master_inv m0" "m_writes m0 = []" using booted [OF assms(1,2)] by simp_all
  have "list_all (conf_line J) cm" using assms(5) by (auto simp: list_all_iff entry_ok_def)
  from started_table [OF assms(1-4) this] have t: "m_configid_map m0 = cm" "m_configid_channel m0 = []" by simp_all
  have k: "m_writes m1 = []" "m_channels m1 = m_channels m0" "m_configid_map m1 = cm" "m_configid_channel m1 = []"
    using timers_keep [OF m1(1) assms(7)] b(2) t by simp_all
  have i: "master_inv m1" using mr.run_refines [OF b(1) m1(1)] by simp
  have "confs_ok J en m1" using assms(5) by (auto simp: confs_ok_def k list_all_iff entry_ok_def)
  from net_start_inv [OF i k(1,4) this m1(2)] distribute_conf_inv [OF m1(2) i]
  show ?thesis by (simp add: k store_of_def smap_find_map_of)
qed

subsection \<open>Property\<close>


text \<open>The demonstration: started with one test, which a request deletes.\<close>

definition demo_boot_file :: boot where
  "demo_boot_file = demo_boot\<lparr>bt_test := Some (flushed [(5, ''u'')])\<rparr>"

lemma demo_program_starts:
  "\<exists>m0 r0 m. main_master demo_J demo_boot_file demo_logger demo_master0 demo_res = Some (Inr (m0, r0)) \<and>
     m_workernum m0 = 2 \<and> m_channels m0 = [4, 5] \<and> fold_res (master_handle demo_J) ([] @ [DistributeDue]) m0 = Inr m"
proof -
  obtain m0 r0 where m0: "main_master demo_J demo_boot_file demo_logger demo_master0 demo_res = Some (Inr (m0, r0))"
    "m_workernum m0 = 2" "m_redisport m0 = -1" "m_configid_map m0 = [(5, ''u'')]"
    using demo_boots [OF demo_loads_flushed] by (auto simp: demo_boot_file_def)
  have "nat (m_workernum m0) \<le> length (bt_forks demo_boot_file)"
    by (simp add: m0(2) demo_boot_file_def demo_boot_def)
  note b = booted [OF m0(1) this]
  have "m_channels m0 = [4, 5]" using b by (simp add: m0(2) demo_boot_file_def demo_boot_def)
  moreover have p: "length (show_int (m_redisport m0)) < 6"
    using length_show_nat [of 1 4] by (simp add: m0(3) show_int_def)
  obtain x where "fold_res distribute_one (m_configid_map m0) (0, m0) = Inr x"
    using distribute_fold_total [OF _ p, of 0 "m_configid_map m0"] b by (auto simp: m0(4))
  then have "\<exists>m. fold_res (master_handle demo_J) ([] @ [DistributeDue]) m0 = Inr m"
    by (cases x) (simp add: distribute_conf_def)
  ultimately show ?thesis using m0(1,2) by blast
qed

lemma demo_asks_delete:
  assumes "m_configid_map (n_master n) = [(5, ''u'')]"
  shows "\<exists>n'. net_step demo_J (\<lambda>fd. demo_we) n [Http ''/metric/delete'' POST ''u''] n'"
proof -
  obtain m' where m': "master_handle demo_J (Http ''/metric/delete'' POST ''u'') (n_master n) = Inr m'"
    by (simp add: metric_request_cb_def delete_metric_request_def demo_req assms case_prod_beta)
  have "request_ok demo_J (\<lambda>fd. demo_we) n POST ''u''"
    using demo_u_short demo_udp_object by (simp add: request_ok_def demo_req store_of_def assms)
  from net_step.request [OF this m'] show ?thesis by blast
qed


end
