(* ===== verification/Worker_Types.thy ===== *)
theory Worker_Types
  imports Worker_Inv
begin

section \<open>The casts of a worker\<close>

text \<open>
  Events, timers and the table of targets hold untyped pointers; each callback casts what it finds
  to the class it expects. \<open>worker_inv\<close> contains the typing that makes this right: a pending event
  is of a kind its test's class creates. Here it is put to use: whatever inputs a worker gets, it
  never uses an object as one of another class. The lemmas follow the faults of every operation to
  their origins; only the dispatch of an event can be a wrong cast, and there the typing excludes it.
\<close>

subsection \<open>Operations that never cast\<close>

named_theorems no_cast \<open>operations whose faults are other than \<open>BadCast\<close>\<close>

lemma sprintf_no_cast [no_cast]: "sprintf_buf n s \<noteq> Inl BadCast"
  by (simp add: sprintf_buf_def)

lemma json_no_cast [no_cast]:
  "isMember J r k \<noteq> Inl BadCast" "asInt J r k \<noteq> Inl BadCast" "asString J r k \<noteq> Inl BadCast"
  by (simp_all add: isMember_def asInt_def asString_def need_eq_Inl)

lemma has_both_no_cast [no_cast]: "has_both J r a b \<noteq> Inl BadCast"
  by (simp add: has_both_def rbind_eq_Inl no_cast)

lemma bytes_no_cast [no_cast]: "bytes_at off n buf \<noteq> Inl BadCast" "byte_at off buf \<noteq> Inl BadCast"
  by (simp_all add: byte_at_def bytes_at_def fault_origins)

lemma packet_no_cast [no_cast]:
  "ip_hlen off buf \<noteq> Inl BadCast" "ip_p off buf \<noteq> Inl BadCast" "ip_ttl off buf \<noteq> Inl BadCast"
  "icmp_type off buf \<noteq> Inl BadCast" "icmp_code off buf \<noteq> Inl BadCast" "icmp_id off buf \<noteq> Inl BadCast"
  "icmp_seq off buf \<noteq> Inl BadCast" "icmp_timeval off buf \<noteq> Inl BadCast"
  "ip_dst off buf \<noteq> Inl BadCast" "udp_dest off buf \<noteq> Inl BadCast"
  by (simp_all add: ip_hlen_def ip_p_def ip_ttl_def icmp_type_def icmp_code_def icmp_id_def icmp_seq_def
      icmp_timeval_def ip_dst_def udp_dest_def rbind_eq_Inl no_cast)

lemma tv_sub_no_cast [no_cast]: "tv_sub out inn \<noteq> Inl BadCast"
  by (simp add: tv_sub_def Let_def fault_origins)

lemma build_probe_no_cast [no_cast]: "build_probe p n tv \<noteq> Inl BadCast"
  using build_probe_total [of p n tv] by auto

subsection \<open>The methods of the tests\<close>

lemma ping_finish_no_cast [no_cast]: "Ping_finish J e t \<noteq> Inl BadCast"
  by (simp add: Ping_finish_def Let_def rbind_eq_Inl no_cast)

lemma ping_probe_no_cast [no_cast]: "Ping_probe e t \<noteq> Inl BadCast"
  by (simp add: Ping_probe_def Let_def fault_origins no_cast)

lemma ping_receive_no_cast [no_cast]: "Ping_receive e t \<noteq> Inl BadCast"
  by (simp add: Ping_receive_def Let_def fault_origins case_prod_beta)

lemma ping_process_no_cast [no_cast]: "Ping_process t \<noteq> Inl BadCast"
  by (simp add: Ping_process_def Let_def fault_origins no_cast)

lemma ping_run_no_cast [no_cast]: "Ping_run J e t \<noteq> Inl BadCast"
  by (simp add: Ping_run_def Let_def fault_origins no_cast case_prod_beta)

lemma ping_callbacks_no_cast [no_cast]:
  "ping_timeout_callback_fn J e t \<noteq> Inl BadCast" "ping_socket_callback_fn J e f t \<noteq> Inl BadCast"
  by (simp add: ping_timeout_callback_fn_def Let_def fault_origins no_cast case_prod_beta)
    (cases f; simp add: fault_origins no_cast case_prod_beta)

lemma udp_no_cast [no_cast]:
  "UDP_finish J e t \<noteq> Inl BadCast" "UDP_finish_unreach J a e t \<noteq> Inl BadCast"
  by (simp_all add: UDP_finish_def UDP_finish_unreach_def rbind_eq_Inl no_cast)

lemma udp_run_no_cast [no_cast]:
  "UDP_run J e t \<noteq> Inl BadCast" "udp_timeout_callback_fn J e t \<noteq> Inl BadCast"
  by (simp_all add: UDP_run_def udp_timeout_callback_fn_def UDP_probe_def Let_def rbind_eq_Inl no_cast
      case_prod_beta)

lemma run_obj_no_cast [no_cast]: "run_obj J e t \<noteq> Inl BadCast"
  by (cases t) (simp_all add: rbind_eq_Inl no_cast case_prod_beta)

lemma finish_addr_no_cast [no_cast]: "finish_addr J a e t \<noteq> Inl BadCast"
  by (cases t) (simp_all add: rbind_eq_Inl no_cast case_prod_beta)

text \<open>The dispatch of an event: the kind of the event decides the class, and it fits.\<close>

lemma event_callback_typed: "cb_fits cb t \<Longrightarrow> event_callback J e f cb t \<noteq> Inl BadCast"
  by (cases cb; cases t) (simp_all add: rbind_eq_Inl no_cast case_prod_beta)

subsection \<open>The operations of the worker\<close>

lemma do_calls_no_cast [no_cast]: "do_calls tb own ta es w \<noteq> Inl BadCast"
proof -
  have "do_call tb own ta c w \<noteq> Inl BadCast" for c w
    by (cases c) (simp_all add: Let_def sendresult_def fault_origins)
  then show ?thesis unfolding do_calls_def by (rule fold_res_no_fault)
qed

lemma run_test_no_cast [no_cast]: "worker_timeout_callback_fn J tb e ta w \<noteq> Inl BadCast"
  by (simp add: worker_timeout_callback_fn_def fault_origins no_cast case_prod_beta)

lemma fire_event_typed: "worker_inv w \<Longrightarrow> fire_event J tb e f ea w \<noteq> Inl BadCast"
  using worker_invD(8) [of w ea]
  by (auto simp: fire_event_def fault_origins no_cast event_callback_typed)

lemma unreach_target_no_cast [no_cast]: "unreach_target J tb e a w \<noteq> Inl BadCast"
  by (simp add: unreach_target_def fault_origins no_cast case_prod_beta split: option.split)

lemma icmp_cb_no_cast [no_cast]: "worker_icmp_cb J tb e w \<noteq> Inl BadCast"
  by (simp add: worker_icmp_cb_def Let_def rbind_eq_Inl no_cast case_prod_beta)

lemma conf_no_cast [no_cast]: "cfg_int J r k u c \<noteq> Inl BadCast" "cfg_str J r k v c \<noteq> Inl BadCast"
  "ping_conf J junk r \<noteq> Inl BadCast" "udp_conf J junk r \<noteq> Inl BadCast"
proof -
  show *: "cfg_int J r k u c \<noteq> Inl BadCast" "cfg_str J r k v c \<noteq> Inl BadCast" for k u v c
    by (simp_all add: cfg_int_def cfg_str_def rbind_eq_Inl no_cast)
  show "ping_conf J junk r \<noteq> Inl BadCast" "udp_conf J junk r \<noteq> Inl BadCast"
    by (simp_all add: ping_conf_def udp_conf_def rbind_eq_Inl no_cast *)
qed

lemma generate_test_no_cast [no_cast]: "generate_test J en r w \<noteq> Inl BadCast"
  by (simp add: generate_test_def Let_def rbind_eq_Inl no_cast)

lemma table_no_cast [no_cast]: "add_test p w \<noteq> Inl BadCast" "delete_test J r w \<noteq> Inl BadCast"
  "openredis en w \<noteq> Inl BadCast"
  by (simp_all add: add_test_def delete_test_def openredis_def Let_def fault_origins no_cast split: option.split)

lemma text_no_cast [no_cast]: "msg_text d \<noteq> Inl BadCast" "atoi s \<noteq> Inl BadCast"
  by (auto simp: msg_text_def read_cstr_def atoi_def fault_origins Let_def)

lemma handle_msg_no_cast [no_cast]: "handle_msg J en d w \<noteq> Inl BadCast"
  by (simp add: handle_msg_def Let_def rbind_eq_Inl no_cast case_prod_beta split: option.split)

lemma drain_no_cast [no_cast]: "drain J en buf w \<noteq> Inl BadCast"
proof (induction J en buf w rule: drain.induct)
  case (1 J en buf w)
  then show ?case
    by (subst drain.simps) (auto simp: rbind_eq_Inl no_cast)
qed

lemma worker_handle_typed: "worker_inv w \<Longrightarrow> worker_handle J en i w \<noteq> Inl BadCast"
  by (cases i) (auto simp: fire_event_typed deal_channel_data_def rbind_eq_Inl no_cast split: option.split)

subsection \<open>Property\<close>

lemma run_typed:
  "worker_inv w \<Longrightarrow> fold_res (\<lambda>(en, i). worker_handle J en i) is w \<noteq> Inl BadCast"
proof (induction "is" arbitrary: w)
  case (Cons x xs)
  obtain en i where x: "x = (en, i)" by (cases x)
  have "fold_res (\<lambda>(en, i). worker_handle J en i) xs v \<noteq> Inl BadCast"
    if "worker_handle J en i w = Inr v" for v
    by (rule Cons.IH [OF worker_handle_inv [OF Cons.prems that]])
  then show ?case by (simp add: x rbind_eq_Inl worker_handle_typed [OF Cons.prems])
qed simp

text \<open>C12. Type soundness: whatever inputs a worker gets, from its construction on, no callback uses an
  object as one of another class.\<close>

theorem worker_casts_fit:
  "fold_res (\<lambda>(en, i). worker_handle J en i) inputs (Worker_new lg junk) \<noteq> Inl BadCast"
  by (rule run_typed [OF Worker_new_inv])

end
