(* ===== verification/Worker_Icmp.thy ===== *)
theory Worker_Icmp
  imports Worker_Props
begin

section \<open>What the ICMP handler reads\<close>

text \<open>
  \<open>worker_icmp_cb\<close> computes offsets from two header lengths that are part of the packet it got. The
  reference below is the format of the message, over the bytes received: it says which packets are
  port-unreachable messages about a datagram, and of which target. The handler agrees with it on
  every packet. In particular it never reads outside its buffer, and looks at nothing behind the bytes
  received.
\<close>

definition unreach_key :: "8 word list \<Rightarrow> string option" where
  "unreach_key d =
     (let h1 = 4 * (unat (d ! 0) mod 16); inn = h1 + 8; h2 = 4 * (unat (d ! inn) mod 16) in
      if d \<noteq> [] \<and> inn + 20 \<le> length d \<and> inn + h2 + 4 \<le> length d \<and> unat (d ! h1) = ICMP_UNREACH \<and>
        unat (d ! (h1 + 1)) = ICMP_UNREACH_PORT \<and> unat (d ! (inn + 9)) = IPPROTO_UDP
      then Some (addr_key (d ! (inn + 16), d ! (inn + 17), d ! (inn + 18), d ! (inn + 19))
        (256 * unat (d ! (inn + h2 + 2)) + unat (d ! (inn + h2 + 3))))
      else None)"

lemma take_two: "i + 2 \<le> length d \<Longrightarrow> take 2 (drop i d) = [d ! i, d ! (i + 1)]"
  by (simp add: numeral_2_eq_2 take_Suc_conv_app_nth flip: Cons_nth_drop_Suc)

lemma bytes_received:
  assumes "i + n \<le> length d" shows "bytes_at i n (d @ r) = Inr (take n (drop i d))"
  using assms by (simp add: bytes_at_def)

lemma byte_received:
  assumes "i < length d" shows "byte_at i (d @ r) = Inr (unat (d ! i))"
  using assms by (simp add: byte_at_def bytes_received take_Suc_conv_app_nth flip: Cons_nth_drop_Suc)

lemma hlen_received:
  "i < length d \<Longrightarrow> ip_hlen i (d @ r) = Inr (4 * (unat (d ! i) mod 16))"
  by (simp add: ip_hlen_def byte_received)

lemma dst_received:
  assumes "off + 20 \<le> length d"
  shows "ip_dst off (d @ r) = Inr (d ! (off + 16), d ! (off + 17), d ! (off + 18), d ! (off + 19))"
  using assms by (simp add: ip_dst_def bytes_received add.commute [of _ off])

lemma port_bytes: "unat (ntohs (of_nat (le_nat [a, b]))) = 256 * unat a + unat b"
proof -
  define p where "p = le_nat [b, a]"
  have p: "p = 256 * unat a + unat b" "p < 65536"
    using le_nat_less [of "[b, a]"] by (simp_all add: p_def)
  have "rev (le_bytes 2 p) = [a, b]"
    using le_bytes_le_nat [of "[b, a]"] by (simp add: p_def numeral_2_eq_2)
  then show ?thesis using ntohs_port [of p] p by simp
qed

lemma udp_dest_received:
  assumes "off + 4 \<le> length d"
  shows "\<exists>q. udp_dest off (d @ r) = Inr q \<and> unat (ntohs q) = 256 * unat (d ! (off + 2)) + unat (d ! (off + 3))"
proof -
  have e: "off + 3 = off + 2 + 1" by simp
  have "take 2 (drop (off + 2) d) = [d ! (off + 2), d ! (off + 3)]"
    unfolding e by (rule take_two) (use assms in simp)
  then show ?thesis
    using assms by (simp add: udp_dest_def bytes_received port_bytes del: le_nat.simps)
qed

lemma port_text: "b < 65536 \<Longrightarrow> length (show_nat b) < 6"
  using length_show_nat [of b 5] by simp

lemma icmp_cb_key:
  assumes "e_recv e = Some p"
  shows "worker_icmp_cb J tb e w = (case unreach_key (take BUFSIZE p) of None \<Rightarrow> Inr w
    | Some k \<Rightarrow> unreach_target J tb e k w)"
proof -
  define d z where "d = take BUFSIZE p" and "z = replicate (BUFSIZE - length d) (0 :: 8 word)"
  have rv: "recv_into (e_recv e) (replicate BUFSIZE 0) = (int (length d), d @ z)"
    by (simp add: recv_into_def assms Let_def d_def z_def)
  show ?thesis
  proof (cases "d = []")
    case True
    have z: "z = replicate 1500 0" by (simp add: z_def True BUFSIZE_def)
    have "ip_hlen 0 z = Inr 0" by (simp add: z ip_hlen_def byte_at_def bytes_at_def)
    then show ?thesis
      unfolding worker_icmp_cb_def rv prod.case by (simp add: True unreach_key_def flip: d_def)
  next
    case False
    define h1 where "h1 = 4 * (unat (d ! 0) mod 16)"
    have h1: "ip_hlen 0 (d @ z) = Inr h1" using False by (simp add: hlen_received h1_def)
    have k0: "unreach_key d = None" if "\<not> (h1 + 28 \<le> length d \<and> unat (d ! h1) = ICMP_UNREACH)"
      using that by (auto simp: unreach_key_def Let_def h1_def)
    consider (short) "length d < h1 + 8"
      | (type) "h1 + 8 \<le> length d" "\<not> (h1 + 28 \<le> length d \<and> unat (d ! h1) = ICMP_UNREACH)"
      | (inner) "h1 + 28 \<le> length d" "unat (d ! h1) = ICMP_UNREACH" by linarith
    then show ?thesis
    proof cases
      case short
      then show ?thesis
        unfolding worker_icmp_cb_def rv prod.case using k0 by (simp add: h1 flip: d_def)
    next
      case type
      then have "icmp_type h1 (d @ z) = Inr (unat (d ! h1))" by (simp add: icmp_type_def byte_received)
      with type show ?thesis
        unfolding worker_icmp_cb_def rv prod.case using k0 by (auto simp: h1 Let_def simp flip: d_def)
    next
      case inner
      define h2 where "h2 = 4 * (unat (d ! (h1 + 8)) mod 16)"
      have f: "icmp_type h1 (d @ z) = Inr ICMP_UNREACH" "ip_hlen (h1 + 8) (d @ z) = Inr h2"
        "ip_p (h1 + 8) (d @ z) = Inr (unat (d ! (h1 + 17)))" "icmp_code h1 (d @ z) = Inr (unat (d ! (h1 + 1)))"
        using inner by (simp_all add: icmp_type_def icmp_code_def ip_p_def byte_received hlen_received h2_def
            add.commute [of _ h1])
      have dst: "ip_dst (h1 + 8) (d @ z) = Inr (d ! (h1 + 24), d ! (h1 + 25), d ! (h1 + 26), d ! (h1 + 27))"
        using dst_received [of "h1 + 8" d z] inner(1) by (simp add: add.commute [of _ h1])
      have k: "unreach_key d = (if h1 + h2 + 12 \<le> length d \<and> unat (d ! (h1 + 1)) = ICMP_UNREACH_PORT \<and>
          unat (d ! (h1 + 17)) = IPPROTO_UDP then Some (addr_key (d ! (h1 + 24), d ! (h1 + 25), d ! (h1 + 26),
          d ! (h1 + 27)) (256 * unat (d ! (h1 + h2 + 10)) + unat (d ! (h1 + h2 + 11)))) else None)"
        using inner False by (auto simp: unreach_key_def Let_def h1_def h2_def add_ac)
      show ?thesis
      proof (cases "h1 + h2 + 12 \<le> length d")
        case True
        obtain q where q: "udp_dest (h1 + 8 + h2) (d @ z) = Inr q"
          "unat (ntohs q) = 256 * unat (d ! (h1 + h2 + 10)) + unat (d ! (h1 + h2 + 11))"
          using udp_dest_received [of "h1 + 8 + h2" d z] True by (auto simp: add_ac)
        have "unat (ntohs q) < 65536" using unsigned_less [of "ntohs q", where ?'a = nat] by simp
        from port_text [OF this] True inner(1) show ?thesis
          unfolding worker_icmp_cb_def rv prod.case
          by (simp add: h1 f dst q k addr_key_def sprintf_buf_def del: inet_ntop.simps flip: d_def)
      next
        case False
        with inner(1) show ?thesis
          unfolding worker_icmp_cb_def rv prod.case by (simp add: h1 f k flip: d_def)
      qed
    qed
  qed
qed

lemma icmp_cb_failed: "e_recv e = None \<Longrightarrow> worker_icmp_cb J tb e w = Inr w"
proof -
  assume e: "e_recv e = None"
  have rv: "recv_into (e_recv e) (replicate BUFSIZE 0) = (-1, replicate 1500 0)"
    by (simp add: recv_into_def e BUFSIZE_def)
  have "ip_hlen 0 (replicate 1500 (0 :: 8 word)) = Inr 0"
    by (simp add: ip_hlen_def byte_at_def bytes_at_def)
  then show ?thesis unfolding worker_icmp_cb_def rv prod.case by simp
qed

text \<open>A key is short.\<close>

lemma unreach_key_short: "unreach_key d = Some k \<Longrightarrow> length k \<le> 200"
proof -
  assume "unreach_key d = Some k"
  then obtain a x y where k: "k = addr_key a (256 * unat (x :: 8 word) + unat (y :: 8 word))"
    by (auto simp: unreach_key_def Let_def split: if_splits)
  have "length (show_nat (256 * unat x + unat y)) \<le> 5"
    using unat8_less [of x] unat8_less [of y] by (intro length_show_nat) simp_all
  then show ?thesis using length_inet_ntop [of a] by (simp add: k addr_key_def)
qed

text \<open>C15. The handler of the raw socket is the reference on every packet, of any length and content: it
  acts on port-unreachable messages about UDP datagrams, on the target they name, ignores all others
  and failed reads, and never reads outside the bytes it received.\<close>

theorem icmp_handler_reads_packet:
  "worker_icmp_cb J tb e w =
     (case e_recv e of None \<Rightarrow> Inr w
      | Some p \<Rightarrow> (case unreach_key (take BUFSIZE p) of None \<Rightarrow> Inr w
          | Some k \<Rightarrow> unreach_target J tb e k w))"
  by (cases "e_recv e") (simp_all add: icmp_cb_failed icmp_cb_key)

end
