(* ===== verification/Worker_Safe.thy ===== *)
theory Worker_Safe
  imports Worker_Table Worker_Icmp
begin

section \<open>When a worker cannot fail\<close>

text \<open>
  \<open>Worker_Props\<close> shows inputs that end a worker. Here is the converse for workers whose tests are
  UDP tests: under four conditions on the inputs, each the negation of one of those, no handler
  faults, whatever the order. The conditions are evaluated in the state they meet:
  \<^item> nothing that may send a result happens while the worker has no connection to redis: before the
    first port came, or after the connection in use was lost and freed and until the next port;
  \<^item> messages are ones the worker can act on, with host names that fit the log line;
  \<^item> a test is not deleted while an event of it is pending;
  \<^item> no port-unreachable message comes for a target whose event an earlier one has deleted.
\<close>

subsection \<open>The invariant\<close>

fun udp_obj_ok :: "test_obj \<Rightarrow> bool" where
  "udp_obj_ok (UdpT t) = host_fits t"
| "udp_obj_ok (PingT t) = False"

text \<open>Every test is a UDP test whose lines fit, and every pending event has its test.\<close>

definition udp_heap :: "'c worker \<Rightarrow> bool" where
  "udp_heap w \<longleftrightarrow> (\<forall>a t. w_tests w a = Some t \<longrightarrow> udp_obj_ok t) \<and>
     (\<forall>ea ev ta. w_events w ea = Some (ev, ta) \<longrightarrow> w_tests w ta \<noteq> None)"

definition udp_worker :: "'c worker \<Rightarrow> bool" where
  "udp_worker w \<longleftrightarrow> worker_inv w \<and> udp_heap w"

lemma udp_heapI:
  "(\<And>a t. w_tests w a = Some t \<Longrightarrow> udp_obj_ok t) \<Longrightarrow>
   (\<And>ea ev ta. w_events w ea = Some (ev, ta) \<Longrightarrow> w_tests w ta \<noteq> None) \<Longrightarrow> udp_heap w"
  by (simp add: udp_heap_def)

lemma udp_heap_test: "udp_heap w \<Longrightarrow> w_tests w a = Some t \<Longrightarrow> \<exists>u. t = UdpT u \<and> host_fits u"
  by (cases t; fastforce simp: udp_heap_def)

lemma udp_heap_event: "udp_heap w \<Longrightarrow> w_events w ea = Some (ev, ta) \<Longrightarrow> \<exists>t. w_tests w ta = Some t"
  by (auto simp: udp_heap_def)

lemma udp_heap_cong: "w_tests w' = w_tests w \<Longrightarrow> w_events w' = w_events w \<Longrightarrow> udp_heap w' = udp_heap w"
  by (simp add: udp_heap_def)

lemma udp_worker_frame:
  "udp_worker w \<Longrightarrow> w_test_map w' = w_test_map w \<Longrightarrow> w_icmp_map w' = w_icmp_map w \<Longrightarrow>
   w_tests w' = w_tests w \<Longrightarrow> w_events w' = w_events w \<Longrightarrow> w_timers w' = w_timers w \<Longrightarrow>
   w_next w' = w_next w \<Longrightarrow> udp_worker w'"
  unfolding udp_worker_def using worker_inv_frame udp_heap_cong by blast

subsection \<open>The callbacks of UDP tests\<close>

lemma do_call_heap:
  assumes "udp_heap w" "w_tests w ta = Some t" "do_call tb own ta c w = Inr w'"
  shows "udp_heap w' \<and> w_tests w' = w_tests w"
proof -
  have f: "w_tests w' = w_tests w" "\<And>ea ev tb. w_events w' ea = Some (ev, tb) \<Longrightarrow>
      tb = ta \<or> w_events w ea = Some (ev, tb)"
    using assms(3)
    by (cases c; auto simp: Let_def set_icmp_unreach_test_event_def del_icmp_unreach_test_event_def
      worker_info_def split: option.splits if_splits)+
  have "udp_heap w'"
  proof (rule udp_heapI)
    fix a u assume "w_tests w' a = Some u"
    then show "udp_obj_ok u" using assms(1) f(1) by (simp add: udp_heap_def)
  next
    fix ea ev tb assume "w_events w' ea = Some (ev, tb)"
    from f(2) [OF this] show "w_tests w' tb \<noteq> None" using assms(1,2) f(1) by (auto simp: udp_heap_def)
  qed
  with f show ?thesis by simp
qed

lemma do_calls_heap:
  "udp_heap w \<Longrightarrow> w_tests w ta = Some t \<Longrightarrow> do_calls tb own ta es w = Inr w' \<Longrightarrow> udp_heap w'"
proof (induction es arbitrary: w)
  case (Cons c es)
  then obtain w1 where w1: "do_call tb own ta c w = Inr w1" "do_calls tb own ta es w1 = Inr w'"
    by (auto simp: do_calls_def)
  with do_call_heap [OF Cons.prems(1,2) w1(1)] Cons.prems(2) Cons.IH [of w1] show ?case by simp
qed (simp add: do_calls_def)

lemma redis_live_Some: "redis_live w \<Longrightarrow> \<exists>c. w_redis w = Some c \<and> c \<notin> set (w_freed w)"
  by (auto simp: redis_live_def)

lemma callback_safe:
  assumes "udp_heap w" "redis_live w" "udp_obj_ok t"
  shows "\<exists>w'. do_calls tb own ta es (put_test ta t w) = Inr w' \<and> udp_heap w'"
proof -
  let ?w = "put_test ta t w"
  obtain c where "w_redis ?w = Some c" "c \<notin> set (w_freed ?w)"
    using redis_live_Some [OF assms(2)] by (auto simp: put_test_def)
  moreover have "udp_heap ?w" "w_tests ?w ta = Some t"
    using assms(1,3) by (auto simp: udp_heap_def put_test_def)
  ultimately show ?thesis using do_calls_total [of ?w c tb own ta es] do_calls_heap by blast
qed

lemma host_fits_cong: "u_host t' = u_host t \<Longrightarrow> u_port t' = u_port t \<Longrightarrow> host_fits t' = host_fits t"
  by (simp add: host_fits_def)

lemma udp_run_safe:
  assumes "host_fits t"
  shows "\<exists>r t' es. UDP_run J e t = Inr (r, t', es) \<and> host_fits t'"
proof (cases "e_sock e < 0")
  case True
  define t1 where "t1 = t\<lparr>u_starttime := e_time e, u_sockfd := e_sock e\<rparr>"
  have i: "UDP_init e (t\<lparr>u_starttime := e_time e\<rparr>) = (TEST_STATUS_FAIL, t1)"
    using True by (simp add: UDP_init_def Let_def t1_def)
  have t1: "host_fits t1" using assms by (simp add: t1_def host_fits_def)
  obtain es where "UDP_finish J e t1 =
      Inr (TEST_STATUS_DONE, t1\<lparr>u_donetime := e_time e, u_status := TEST_STATUS_DONE\<rparr>, es)"
    using UDP_finish_total [OF t1] by blast
  with i t1 show ?thesis by (simp add: UDP_run_def UDP_probe_def host_fits_def)
next
  case False
  then have s: "0 \<le> e_sock e" by simp
  have "host_fits ((udp_inited e t)\<lparr>u_starttime := e_time e, u_status := TEST_STATUS_PROBE\<rparr>)"
    using assms udp_inited_fields(2,3) [OF s, of t] by (simp add: host_fits_def)
  with UDP_run_ok [OF s, of J t] show ?thesis by simp
qed

lemma udp_timeout_safe:
  assumes "host_fits t"
  shows "\<exists>t' es. udp_timeout_callback_fn J e t = Inr (t', es) \<and> host_fits t'"
  using UDP_finish_total [OF assms, of J e] assms
  by (auto simp: udp_timeout_callback_fn_def host_fits_def)

lemma run_test_safe:
  assumes "udp_heap w" "redis_live w" "w_tests w ta \<noteq> None"
  shows "\<exists>w'. worker_timeout_callback_fn J tb e ta w = Inr w' \<and> udp_heap w'"
proof -
  obtain t where t: "w_tests w ta = Some (UdpT t)" "host_fits t"
    using assms(3) udp_heap_test [OF assms(1)] by blast
  obtain r t' es where r: "UDP_run J e t = Inr (r, t', es)" "host_fits t'"
    using udp_run_safe [OF t(2)] by blast
  obtain w' where "do_calls tb None ta es (put_test ta (UdpT t') w) = Inr w'" "udp_heap w'"
    using callback_safe [OF assms(1,2), of "UdpT t'" tb None ta es] r(2) by auto
  then show ?thesis by (simp add: worker_timeout_callback_fn_def t r)
qed

lemma fire_event_safe:
  assumes "worker_inv w" "udp_heap w" "redis_live w" "w_events w ea = Some (ev, ta)"
  shows "\<exists>w'. fire_event J tb e f ea w = Inr w' \<and> udp_heap w'"
proof -
  obtain t where t: "w_tests w ta = Some (UdpT t)" "host_fits t"
    using udp_heap_event [OF assms(2,4)] udp_heap_test [OF assms(2)] by blast
  have "cb_fits (ev_cb ev) (UdpT t)" by (rule worker_invD(8) [OF assms(1,4) t(1)])
  then have cb: "ev_cb ev = UdpTimeoutCb" by (cases "ev_cb ev") simp_all
  obtain t' es where r: "udp_timeout_callback_fn J e t = Inr (t', es)" "host_fits t'"
    using udp_timeout_safe [OF t(2)] by blast
  obtain w' where "do_calls tb (Some ea) ta es (put_test ta (UdpT t') w) = Inr w'" "udp_heap w'"
    using callback_safe [OF assms(2,3), of "UdpT t'" tb "Some ea" ta es] r(2) by auto
  then show ?thesis by (simp add: fire_event_def assms(4) t cb r)
qed

lemma unreach_safe:
  assumes "udp_heap w" "redis_live w" "length k \<le> 200"
    and "\<And>ea. get_icmp_unreach_test_event k w = Some ea \<Longrightarrow> w_events w ea \<noteq> None"
  shows "\<exists>w'. unreach_target J tb e k w = Inr w' \<and> udp_heap w'"
proof (cases "get_icmp_unreach_test_event k w")
  case (Some ea)
  obtain ev ta where ev: "w_events w ea = Some (ev, ta)" using assms(4) [OF Some] by auto
  obtain t where t: "w_tests w ta = Some (UdpT t)" "host_fits t"
    using udp_heap_event [OF assms(1) ev] udp_heap_test [OF assms(1)] by blast
  define t' where "t' = t\<lparr>u_donetime := e_time e, u_status := TEST_STATUS_DONE\<rparr>"
  obtain es where r: "UDP_finish_unreach J k e t = Inr (TEST_STATUS_DONE, t', es)"
    using UDP_finish_unreach_total [OF assms(3)] unfolding t'_def by blast
  have "udp_obj_ok (UdpT t')" using t(2) by (simp add: t'_def host_fits_def)
  then obtain w' where "do_calls tb (Some ea) ta (es @ [FreeOwnEvent]) (put_test ta (UdpT t') w) = Inr w'"
    "udp_heap w'" using callback_safe [OF assms(1,2)] by blast
  then show ?thesis by (simp add: unreach_target_def Some ev t r)
qed (simp add: unreach_target_def assms(1))

subsection \<open>The conditions\<close>

definition pending_of :: "nat \<Rightarrow> 'c worker \<Rightarrow> bool" where
  "pending_of a w \<longleftrightarrow> (\<exists>ea ev. w_events w ea = Some (ev, a))"

text \<open>The lines a test logs fit their buffer.\<close>

definition conf_fits :: "config \<Rightarrow> bool" where
  "conf_fits c \<longleftrightarrow> length (cstr (cf_host c)) \<le> 200 \<and> int_range (cf_port c)"

definition msg_ok :: "'j jsonlib \<Rightarrow> 'c worker_env \<Rightarrow> channel_data \<Rightarrow> 'c worker \<Rightarrow> bool" where
  "msg_ok J en d w \<longleftrightarrow> good_msg J (we_config en) d \<and> connects en \<and>
     (cd_type d = MASTER_MSG_TYPE_ADDCONF \<longrightarrow>
        (\<forall>s r c. msg_text d = Inr s \<and> j_parse J s = Some r \<and> udp_conf J (we_config en) r = Inr c \<longrightarrow>
           conf_fits c)) \<and>
     (cd_type d = MASTER_MSG_TYPE_DELCONF \<longrightarrow>
        (\<forall>i a. msg_id J d = Some i \<and> smap_find (w_test_map w) i = Some a \<longrightarrow> \<not> pending_of a w))"

definition target_ok :: "env \<Rightarrow> 'c worker \<Rightarrow> bool" where
  "target_ok e w \<longleftrightarrow> (case e_recv e of None \<Rightarrow> True
     | Some p \<Rightarrow> (case unreach_key (take BUFSIZE p) of None \<Rightarrow> True
         | Some k \<Rightarrow> (case get_icmp_unreach_test_event k w of None \<Rightarrow> True
             | Some ea \<Rightarrow> w_events w ea \<noteq> None)))"

fun worker_input_ok :: "'j jsonlib \<Rightarrow> 'c worker_env \<Rightarrow> 'c worker_input \<Rightarrow> 'c worker \<Rightarrow> bool" where
  "worker_input_ok J en (TestDue ta e) w \<longleftrightarrow> redis_live w"
| "worker_input_ok J en (EventDue ea f e) w \<longleftrightarrow> redis_live w"
| "worker_input_ok J en (IcmpIn e) w \<longleftrightarrow> redis_live w \<and> target_ok e w"
| "worker_input_ok J en (ChannelIn bs) w \<longleftrightarrow> allowed_run (deliver1 J en) (msg_ok J en)
     (fst (deframe channel_data_size cd_of_bytes (w_inbuf w @ bs))) (w\<lparr>w_inbuf := []\<rparr>)"
| "worker_input_ok J en (FdIn r1 r2 junk) w \<longleftrightarrow> True"
| "worker_input_ok J en (RedisConnected c st x) w \<longleftrightarrow> True"
| "worker_input_ok J en (RedisDisconnected c st x) w \<longleftrightarrow> True"

subsection \<open>Messages\<close>

lemma add_safe:
  assumes "udp_heap w" "msg_ok J en d w" "cd_type d = MASTER_MSG_TYPE_ADDCONF"
    and "handle_msg J en d w = Inr (go, w')"
  shows "udp_heap w'"
proof -
  obtain s i r c where f: "msg_text d = Inr s" "j_parse J s = Some r" "ok_obj J r ''UDP'' i"
    "udp_conf J (we_config en) r = Inr c" "conf_fits c"
    using assms(2,3) by (auto simp: msg_ok_def good_msg_def add_fits_def udp_object_def)
  have i: "j_int J r ''id'' = Some i" using f(3) by (simp add: ok_obj_def)
  define t where "t = UDP_config c (UDP_test_new (we_pid en) (we_udp en))"
  have "host_fits t" using f(5) by (simp add: conf_fits_def host_fits_def t_def UDP_config_def)
  then have t: "udp_obj_ok (UdpT t)" by simp
  define w1 where "w1 = worker_info (we_timebuf en) (''genreate type '' @ ''UDP'' @ '' test'')
      (worker_info (we_timebuf en) ''add new conf'' w)"
  have w1: "w_tests w1 = w_tests w" "w_events w1 = w_events w" by (simp_all add: w1_def worker_info_def)
  have "generate_test J en r (worker_info (we_timebuf en) ''add new conf'' w) = Inr (new_test (UdpT t) w1)"
    using generate_udp [OF f(3,4)] by (simp add: t_def w1_def)
  from handle_add [OF assms(3) f(1,2) this i] assms(4)
  have "w_tests w' = (w_tests w)(w_next w1 \<mapsto> UdpT t)" "w_events w' = w_events w" by (auto simp: w1)
  with assms(1) t show ?thesis by (auto simp: udp_heap_def simp del: udp_obj_ok.simps)
qed

lemma del_safe:
  assumes "udp_heap w" "msg_ok J en d w" "cd_type d = MASTER_MSG_TYPE_DELCONF"
    and "handle_msg J en d w = Inr (go, w')"
  shows "udp_heap w'"
proof -
  obtain s i r where f: "msg_text d = Inr s" "j_parse J s = Some r" "ok_obj J r ''UDP'' i"
    using assms(2,3) by (auto simp: msg_ok_def good_msg_def add_fits_def udp_object_def)
  have i: "asInt J r ''id'' = Inr i" "isMember J r ''id'' = Inr True" "msg_id J d = Some i"
    using f by (simp_all add: ok_obj_def asInt_def isMember_def msg_id_def)
  define v where "v = worker_info (we_timebuf en) ''delete conf'' w"
  have v: "w_test_map v = w_test_map w" "w_tests v = w_tests w" "w_events v = w_events w"
    by (simp_all add: v_def worker_info_def)
  obtain x where x: "delete_test J r v = Inr (x, w')"
    using assms(3,4) f(1,2) by (auto simp: handle_msg_def v_def msg_type_defs)
  show ?thesis
  proof (cases "smap_find (w_test_map w) i")
    case None
    with x i have "w' = v" by (simp add: delete_test_def v)
    with assms(1) show ?thesis by (simp add: udp_heap_def v)
  next
    case (Some a)
    with x i have "w_tests w' = (w_tests w)(a := None)" "w_events w' = w_events w"
      by (auto simp: delete_test_def v)
    moreover have "\<not> pending_of a w" using assms(2,3) i(3) Some by (simp add: msg_ok_def)
    ultimately show ?thesis using assms(1) by (auto simp: udp_heap_def pending_of_def)
  qed
qed

lemma other_safe:
  assumes "udp_heap w" "handle_msg J en d w = Inr (go, w')"
    and "cd_type d \<noteq> MASTER_MSG_TYPE_ADDCONF" "cd_type d \<noteq> MASTER_MSG_TYPE_DELCONF"
  shows "udp_heap w'"
proof -
  have "w_tests w' = w_tests w \<and> w_events w' = w_events w"
    using assms(2-4)
    by (auto simp: handle_msg_def Let_def worker_info_def split: if_splits elim!: openredis_sets)
  with assms(1) show ?thesis by (simp add: udp_heap_def)
qed

lemma msg_safe:
  assumes "udp_worker w" "msg_ok J en d w"
  shows "\<exists>w'. deliver1 J en d w = Inr w' \<and> udp_worker w'"
proof -
  have i: "worker_inv w" "udp_heap w" using assms(1) by (simp_all add: udp_worker_def)
  have g: "good_msg J (we_config en) d" "connects en" using assms(2) by (simp_all add: msg_ok_def)
  obtain w' where h: "handle_msg J en d w = Inr (True, w')" using good_msg_handled [OF i(1) g] by blast
  have "udp_heap w'"
    using add_safe [OF i(2) assms(2) _ h] del_safe [OF i(2) assms(2) _ h] other_safe [OF i(2) h] by blast
  with h handle_msg_inv [OF i(1) h] show ?thesis by (simp add: deliver1_def udp_worker_def)
qed

interpretation um: guarded_machine "deliver1 J en" udp_worker "msg_ok J en" for J en
  by unfold_locales (rule msg_safe)

lemma channel_safe:
  assumes "udp_worker w" "worker_input_ok J en (ChannelIn bs) w"
  shows "\<exists>w'. worker_handle J en (ChannelIn bs) w = Inr w' \<and> udp_worker w'"
proof -
  define v ds rest where "v = w\<lparr>w_inbuf := []\<rparr>"
    and "ds = fst (deframe channel_data_size cd_of_bytes (w_inbuf w @ bs))"
    and "rest = snd (deframe channel_data_size cd_of_bytes (w_inbuf w @ bs))"
  have v: "udp_worker v" by (rule udp_worker_frame [OF assms(1)]) (simp_all add: v_def)
  have a: "allowed_run (deliver1 J en) (msg_ok J en) ds v" using assms(2) by (simp add: ds_def v_def)
  have p: "list_all (parses J) ds"
    by (rule um.allowed_all [OF v a]) (auto simp: msg_ok_def intro: good_msg_parses)
  obtain w1 where w1: "deliver J en ds v = Inr w1" "udp_worker w1"
    using um.run_safe [OF v a] by (auto simp: deliver_def)
  have "drain J en (w_inbuf w @ bs) v = Inr (rest, w1)"
    using drain_deframe [OF p [unfolded ds_def], of en v] w1(1) by (simp add: ds_def rest_def)
  then have "worker_handle J en (ChannelIn bs) w = Inr (w1\<lparr>w_inbuf := rest\<rparr>)"
    by (simp add: deal_channel_data_def v_def)
  moreover have "udp_worker (w1\<lparr>w_inbuf := rest\<rparr>)" by (rule udp_worker_frame [OF w1(2)]) simp_all
  ultimately show ?thesis by blast
qed

lemma input_safe:
  assumes "udp_worker w" "worker_input_ok J en i w"
  shows "\<exists>w'. worker_handle J en i w = Inr w' \<and> udp_worker w'"
proof -
  have inv: "worker_inv w" and heap: "udp_heap w" using assms(1) by (simp_all add: udp_worker_def)
  have ok: "udp_worker w'" if "worker_handle J en i w = Inr w'" "udp_heap w'" for w'
    using worker_handle_inv [OF inv that(1)] that(2) by (simp add: udp_worker_def)
  show ?thesis
  proof (cases i)
    case (TestDue ta e)
    show ?thesis
    proof (cases "w_timers w ta = None")
      case True
      with assms(1) TestDue show ?thesis by simp
    next
      case False
      then have "w_tests w ta \<noteq> None" using worker_invD(5) [OF inv] by blast
      moreover have "redis_live w" using assms(2) TestDue by simp
      ultimately obtain w' where
        "worker_timeout_callback_fn J (we_timebuf en) e ta w = Inr w'" "udp_heap w'"
        using run_test_safe [OF heap] by blast
      with ok [of w'] False TestDue show ?thesis by auto
    qed
  next
    case (EventDue ea f e)
    show ?thesis
    proof (cases "w_events w ea")
      case (Some x)
      obtain ev ta where x: "x = (ev, ta)" by (cases x)
      have "redis_live w" using assms(2) EventDue by simp
      then obtain w' where "fire_event J (we_timebuf en) e f ea w = Inr w'" "udp_heap w'"
        using fire_event_safe [OF inv heap _ Some [unfolded x]] by blast
      with ok [of w'] Some x EventDue assms(1) show ?thesis by (cases "can_fire f ev") auto
    qed (use assms(1) EventDue in simp)
  next
    case (IcmpIn e)
    show ?thesis
    proof (cases "e_recv e")
      case None
      with IcmpIn assms(1) show ?thesis by (simp add: icmp_cb_failed)
    next
      case (Some p)
      show ?thesis
      proof (cases "unreach_key (take BUFSIZE p)")
        case None
        with IcmpIn assms(1) show ?thesis by (simp add: icmp_cb_key [OF Some])
      next
        case key: (Some k)
        have "w_events w ea \<noteq> None" if "get_icmp_unreach_test_event k w = Some ea" for ea
          using assms(2) IcmpIn Some key that by (simp add: target_ok_def)
        moreover have "redis_live w" using assms(2) IcmpIn by simp
        ultimately obtain w' where "unreach_target J (we_timebuf en) e k w = Inr w'" "udp_heap w'"
          using unreach_safe [OF heap _ unreach_key_short [OF key]] by blast
        with ok [of w'] IcmpIn key show ?thesis by (simp add: icmp_cb_key [OF Some])
      qed
    qed
  next
    case (ChannelIn bs)
    with assms channel_safe show ?thesis by blast
  next
    case (FdIn r1 r2 junk)
    with ok [of "worker_channel_1_cb junk r1 r2 w"] heap show ?thesis
      by (simp add: worker_channel_1_cb_def split_log_fd_def udp_heap_def)
  next
    case (RedisConnected c st x)
    with ok [of "redis_connected c st x w"] heap show ?thesis by (simp add: udp_heap_def)
  next
    case (RedisDisconnected c st x)
    with ok [of "redis_disconnected c st x w"] heap show ?thesis by (simp add: udp_heap_def)
  qed
qed

interpretation uw: guarded_machine "\<lambda>(en, i). worker_handle J en i" udp_worker
    "\<lambda>(en, i). worker_input_ok J en i" for J
  by unfold_locales (use input_safe in auto)

lemma udp_worker_new: "udp_worker (Worker_new lg junk)"
  by (simp add: udp_worker_def Worker_new_inv) (simp add: udp_heap_def Worker_new_def)

subsection \<open>Property\<close>


subsection \<open>Witness\<close>

text \<open>A worker gets a UDP test and the redis port in one read, runs the test and loses redis.\<close>

definition demo_redis :: channel_data where
  "demo_redis = mk_channel_data MASTER_MSG_TYPE_REDISPORT (show_int 6379)"

definition demo_inputs :: "(nat worker_env \<times> nat worker_input) list" where
  "demo_inputs = [(demo_we, ChannelIn (cd_bytes (demo_add ''u'') @ cd_bytes demo_redis)),
     (demo_we, TestDue 0 demo_udp_env), (demo_we, RedisDisconnected 1 0 [])]"

lemma demo_u_fits:
  "udp_conf demo_J junk (demo_root ''u'') = Inr c \<Longrightarrow> conf_fits c"
  by (auto simp: udp_conf_def demo_member_simps config_setters Config_new_def conf_fits_def int_range_def
      cstr_def)

lemma demo_redis_text: "msg_text demo_redis = Inr (show_int 6379)" "atoi (show_int 6379) = Inr 6379"
proof -
  have r: "int_range 6379" by (simp add: int_range_def)
  then show "atoi (show_int 6379) = Inr 6379" by (simp add: atoi_show_int)
  have "length (show_int 6379) < MAX_MSG_LEN" using length_show_int [OF r] by (simp add: MAX_MSG_LEN_def)
  then show "msg_text demo_redis = Inr (show_int 6379)"
    unfolding demo_redis_def by (rule msg_text_short [OF _ show_int_no_NUL])
qed

lemma demo_inputs_allowed:
  "allowed_run (\<lambda>(en, i). worker_handle demo_J en i) (\<lambda>(en, i). worker_input_ok demo_J en i) demo_inputs demo_worker0"
proof -
  define bs where "bs = cd_bytes (demo_add ''u'') @ cd_bytes demo_redis"
  have mt: "msg_text (demo_add ''u'') = Inr ''u''" by (rule demo_add_text) (simp_all add: MAX_MSG_LEN_def)
  have ty: "cd_type demo_redis = MASTER_MSG_TYPE_REDISPORT" by (simp add: demo_redis_def)
  have v: "cd_valid demo_redis" by (simp add: demo_redis_def cd_valid_mk msg_type_defs int_range_def)
  have f: "deframe channel_data_size cd_of_bytes bs = ([demo_add ''u'', demo_redis], [])"
    using chan.deframe_encoded [of "[demo_add ''u'', demo_redis]" "[]"] chan.size_pos v demo_add_valid
    by (simp add: bs_def)
  have cn: "connects demo_we" by (simp add: connects_def demo_we_def)
  have u: "udp_object demo_J (we_config demo_we) ''u'' 5"
    using demo_parse(1) demo_obj(1) demo_udp_conf by (auto simp: udp_object_def int_range_def)
  have ok1: "msg_ok demo_J demo_we (demo_add ''u'') demo_worker0"
    using u mt cn demo_add_valid [of "''u''"] demo_parse(1) demo_u_fits
    by (auto simp: msg_ok_def good_msg_def add_fits_def msg_type_defs)
  have ok2: "msg_ok demo_J demo_we demo_redis w" for w
    using demo_redis_text v cn by (simp add: msg_ok_def good_msg_def ty msg_type_defs)
  obtain w1 where w1: "deliver1 demo_J demo_we (demo_add ''u'') demo_worker0 = Inr w1" "udp_worker w1"
    using msg_safe [OF _ ok1] udp_worker_new by (auto simp: demo_worker0_def)
  obtain w2 where w2: "handle_msg demo_J demo_we demo_redis w1 = Inr (True, w2)" "redis_live w2"
    using demo_redis_text by (simp add: handle_msg_def ty msg_type_defs openredis_def demo_we_def Let_def redis_live_def)
  have e: "demo_worker0\<lparr>w_inbuf := []\<rparr> = demo_worker0" by (simp add: demo_worker0_def Worker_new_def)
  have a: "allowed_run (deliver1 demo_J demo_we) (msg_ok demo_J demo_we) [demo_add ''u'', demo_redis] demo_worker0"
    using ok1 ok2 w1(1) by (simp split: sum.split)
  have p: "list_all (parses demo_J) [demo_add ''u'', demo_redis]"
    using ok1 ok2 [of w1] good_msg_parses by (auto simp: msg_ok_def)
  have "deliver1 demo_J demo_we demo_redis w1 = Inr w2" using w2(1) by (simp add: deliver1_def)
  with w1(1) have "deliver demo_J demo_we [demo_add ''u'', demo_redis] demo_worker0 = Inr w2"
    by (simp add: deliver_def)
  then have "drain demo_J demo_we bs demo_worker0 = Inr ([], w2)"
    using drain_deframe [of demo_J bs demo_we demo_worker0] p by (simp add: f)
  then have "worker_handle demo_J demo_we (ChannelIn bs) demo_worker0 = Inr (w2\<lparr>w_inbuf := []\<rparr>)"
    by (simp add: deal_channel_data_def e)
  moreover have "redis_live (w2\<lparr>w_inbuf := []\<rparr>)" using w2(2) by (simp add: redis_live_def)
  ultimately show ?thesis using a by (simp add: demo_inputs_def f e split: sum.split flip: bs_def)
qed


end
