(* ===== verification/Worker_Reports.thy ===== *)
theory Worker_Reports
  imports Worker_Safe
begin

section \<open>How often runs are reported\<close>

text \<open>
  A run of a UDP test is meant to lead to one result. The result comes later, from the timeout, a
  read, or a port-unreachable message, and the three race for the same event. This theory counts:
  along any run of the worker the results pushed so far and the events still pending add up to what
  the runs of the tests owe, and each result comes with one closed socket. A run owes one report if
  it has a timeout, none without (its socket stays open), and one more if its socket could not be
  opened: \<open>run\<close> goes on after \<open>finish\<close> and adds the event all the same.
\<close>

subsection \<open>What is counted\<close>

fun is_close :: "effect \<Rightarrow> bool" where
  "is_close (CloseFd fd) = True"
| "is_close _ = False"

definition closes :: "'c worker \<Rightarrow> nat" where
  "closes w = length (filter is_close (w_calls w))"

definition reported :: "'c worker \<Rightarrow> nat" where
  "reported w = length (w_cmds w)"

definition pending :: "'c worker \<Rightarrow> nat" where
  "pending w = card (dom (w_events w))"

fun run_owes :: "'c worker_input \<Rightarrow> 'c worker \<Rightarrow> nat" where
  "run_owes (TestDue ta e) w =
     (if w_timers w ta = None then 0
      else case w_tests w ta of
        Some (UdpT t) \<Rightarrow> (if e_sock e < 0 then 1 else 0) + (if u_timeout t > 0 then 1 else 0)
      | _ \<Rightarrow> 0)"
| "run_owes _ w = 0"

fun owed :: "'j jsonlib \<Rightarrow> ('c worker_env \<times> 'c worker_input) list \<Rightarrow> 'c worker \<Rightarrow> nat" where
  "owed J [] w = 0"
| "owed J ((en, i) # es) w =
     run_owes i w + (case worker_handle J en i w of Inl f \<Rightarrow> 0 | Inr w' \<Rightarrow> owed J es w')"

lemmas counters = closes_def reported_def pending_def

lemma counters_cong:
  "w_cmds w' = w_cmds w \<Longrightarrow> w_events w' = w_events w \<Longrightarrow> w_calls w' = w_calls w \<Longrightarrow>
   reported w' + pending w' = reported w + pending w \<and> closes w' = closes w \<and> reported w' = reported w"
  by (simp add: counters)

lemma finite_events: "worker_inv w \<Longrightarrow> finite (dom (w_events w))"
proof -
  assume "worker_inv w"
  then have "dom (w_events w) \<subseteq> {..< w_next w}" by (auto dest: worker_invD(7))
  then show ?thesis by (rule finite_subset) simp
qed

lemma next_is_new: "worker_inv w \<Longrightarrow> w_next w \<notin> dom (w_events w)"
  by (auto dest: worker_invD(7))

subsection \<open>The callbacks\<close>

lemma count_run:
  assumes "worker_inv w" "redis_live w" "w_tests w ta = Some (UdpT t)"
    and "worker_timeout_callback_fn J tb e ta w = Inr w'"
  shows "reported w' + pending w' = reported w + pending w +
      (if e_sock e < 0 then 1 else 0) + (if u_timeout t > 0 then 1 else 0) \<and>
    closes w' + reported w = closes w + reported w'"
proof -
  obtain c where c: "w_redis w = Some c" "c \<notin> set (w_freed w)" using redis_live_Some [OF assms(2)] by blast
  have ev: "card (insert (w_next w) (dom (w_events w))) = Suc (card (dom (w_events w)))"
    using finite_events [OF assms(1)] next_is_new [OF assms(1)] by simp
  obtain r t' es where r: "UDP_run J e t = Inr (r, t', es)"
    "do_calls tb None ta es (put_test ta (UdpT t') w) = Inr w'"
    using assms(3,4) by (auto simp: worker_timeout_callback_fn_def)
  show ?thesis
  proof (cases "e_sock e < 0")
    case True
    then show ?thesis using r c ev
      by (cases "u_timeout t > 0"; cases "e_send_ok e")
        (auto simp: UDP_run_def UDP_init_def UDP_probe_def UDP_finish_eq Let_def do_calls_def put_test_def
          sendresult_def set_icmp_unreach_test_event_def worker_info_def counters)
  next
    case False
    then show ?thesis using r c ev
      by (cases "u_timeout t > 0"; cases "e_send_ok e")
        (auto simp: UDP_run_ok do_calls_def put_test_def set_icmp_unreach_test_event_def Let_def counters)
  qed
qed

lemma count_finished:
  assumes "finite (dom (w_events w))" "w_events w ea \<noteq> None" "redis_live w"
    and "do_calls tb (Some ea) ta ([CloseFd fd, LogInfo l, SendResult s, FreeOwnEvent]) w = Inr w'"
  shows "reported w' + pending w' = reported w + pending w \<and> closes w' + reported w = closes w + reported w'"
proof -
  obtain c where c: "w_redis w = Some c" "c \<notin> set (w_freed w)" using redis_live_Some [OF assms(3)] by blast
  have "card (dom (w_events w)) = Suc (card (dom (w_events w) - {ea}))"
    using assms(1,2) by (intro card.remove) auto
  with assms(4) c show ?thesis
    by (auto simp: do_calls_def sendresult_def worker_info_def counters dom_fun_upd)
qed

lemma count_fired:
  assumes "udp_worker w" "redis_live w" "w_events w ea = Some (ev, ta)"
    and "fire_event J tb e f ea w = Inr w'"
  shows "reported w' + pending w' = reported w + pending w \<and> closes w' + reported w = closes w + reported w'"
proof -
  have i: "worker_inv w" and h: "udp_heap w" using assms(1) by (simp_all add: udp_worker_def)
  obtain t where t: "w_tests w ta = Some (UdpT t)"
    using udp_heap_event [OF h assms(3)] udp_heap_test [OF h] by blast
  have cb: "ev_cb ev = UdpTimeoutCb" using worker_invD(8) [OF i assms(3) t] by (cases "ev_cb ev") simp_all
  obtain t' l where d: "do_calls tb (Some ea) ta [Unregister (u_key t), CloseFd (u_sockfd t), LogInfo l,
      SendResult (j_write J (udp_metric 1 t)), FreeOwnEvent] (put_test ta (UdpT t') w) = Inr w'"
    using assms(4)
    by (auto simp: fire_event_def assms(3) t cb udp_timeout_callback_fn_def UDP_finish_eq)
  define v where "v = del_icmp_unreach_test_event (u_key t) (put_test ta (UdpT t') w)"
  have v: "w_events v = w_events w" "redis_live v = redis_live w" "w_cmds v = w_cmds w" "w_calls v = w_calls w"
    by (simp_all add: v_def del_icmp_unreach_test_event_def put_test_def redis_live_def)
  have "do_calls tb (Some ea) ta [CloseFd (u_sockfd t), LogInfo l, SendResult (j_write J (udp_metric 1 t)),
      FreeOwnEvent] v = Inr w'" using d by (simp add: do_calls_def v_def)
  from count_finished [OF _ _ _ this] finite_events [OF i] assms(2,3) show ?thesis
    by (simp add: v counters)
qed

lemma count_unreached:
  assumes "udp_worker w" "redis_live w" "unreach_target J tb e k w = Inr w'"
  shows "reported w' + pending w' = reported w + pending w \<and> closes w' + reported w = closes w + reported w'"
proof (cases "get_icmp_unreach_test_event k w")
  case (Some ea)
  have i: "worker_inv w" and h: "udp_heap w" using assms(1) by (simp_all add: udp_worker_def)
  obtain ev ta where ev: "w_events w ea = Some (ev, ta)" using assms(3) Some by (auto simp: unreach_target_def)
  obtain t where t: "w_tests w ta = Some (UdpT t)"
    using udp_heap_event [OF h ev] udp_heap_test [OF h] by blast
  obtain t' l where d: "do_calls tb (Some ea) ta [CloseFd (u_sockfd t), LogInfo l,
      SendResult (j_write J (udp_metric 0 t)), FreeOwnEvent] (put_test ta (UdpT t') w) = Inr w'"
    using assms(3) by (auto simp: unreach_target_def Some ev t UDP_finish_unreach_eq)
  from count_finished [OF _ _ _ d] finite_events [OF i] assms(2) ev show ?thesis
    by (simp add: put_test_def counters redis_live_def)
qed (use assms(3) in \<open>simp add: unreach_target_def counters\<close>)

subsection \<open>Messages\<close>

definition same_counts :: "'c worker \<Rightarrow> 'c worker \<Rightarrow> bool" where
  "same_counts w w' \<longleftrightarrow> w_cmds w' = w_cmds w \<and> w_events w' = w_events w \<and> w_calls w' = w_calls w"

lemma same_counts_trans: "same_counts u v \<Longrightarrow> same_counts v w \<Longrightarrow> same_counts u w"
  by (simp add: same_counts_def)

lemma worker_info_counts: "same_counts (worker_info tb s w) w' = same_counts w w'"
  by (simp add: same_counts_def worker_info_def)

lemma generate_test_counts: "generate_test J en r w = Inr (p, w') \<Longrightarrow> same_counts w w'"
  unfolding generate_test_def Let_def
  by (elim res_elims) (auto simp: new_test_def worker_info_def same_counts_def)

lemma add_test_counts: "add_test p w = Inr w' \<Longrightarrow> same_counts w w'"
  by (auto simp: add_test_def same_counts_def)

lemma delete_test_counts: "delete_test J r w = Inr (x, w') \<Longrightarrow> same_counts w w'"
  by (auto simp: delete_test_def same_counts_def split: if_splits option.splits)

lemma openredis_counts: "openredis en w = Inr w' \<Longrightarrow> same_counts w w'"
  by (elim openredis_sets) (simp add: same_counts_def)

lemma add_msg_counts:
  assumes "handle_msg J en d w = Inr (go, w')" "cd_type d = MASTER_MSG_TYPE_ADDCONF"
  shows "same_counts w w'"
proof -
  define v where "v = worker_info (we_timebuf en) ''add new conf'' w"
  have v: "same_counts v u = same_counts w u" for u by (simp add: v_def worker_info_counts)
  obtain s where s: "msg_text d = Inr s" using assms by (auto simp: handle_msg_def Let_def)
  show ?thesis
  proof (cases "j_parse J s")
    case None
    with assms s have "w' = v" by (simp add: handle_msg_def v_def)
    with v [of v] show ?thesis by (simp add: same_counts_def)
  next
    case (Some r)
    obtain p w2 w3 where h: "generate_test J en r v = Inr (p, w2)" "add_test p w3 = Inr w'"
      "w_cmds w3 = w_cmds w2" "w_events w3 = w_events w2" "w_calls w3 = w_calls w2"
      using assms s Some by (auto simp: handle_msg_def v_def Let_def split: if_splits)
    have "same_counts w2 w3" using h(3-5) by (simp add: same_counts_def)
    with generate_test_counts [OF h(1)] add_test_counts [OF h(2)] show ?thesis
      by (simp add: same_counts_def v_def worker_info_def)
  qed
qed

lemma handle_msg_counts:
  assumes "handle_msg J en d w = Inr (go, w')"
  shows "same_counts w w'"
proof -
  consider (add) "cd_type d = MASTER_MSG_TYPE_ADDCONF" | (del) "cd_type d = MASTER_MSG_TYPE_DELCONF"
    | (port) "cd_type d = MASTER_MSG_TYPE_REDISPORT"
    | (other) "cd_type d \<noteq> MASTER_MSG_TYPE_ADDCONF" "cd_type d \<noteq> MASTER_MSG_TYPE_DELCONF"
        "cd_type d \<noteq> MASTER_MSG_TYPE_REDISPORT" by blast
  then show ?thesis
  proof cases
    case add
    with assms show ?thesis by (rule add_msg_counts)
  next
    case del
    with assms show ?thesis
      by (auto simp: handle_msg_def msg_type_defs worker_info_counts split: option.splits
          dest!: delete_test_counts) (simp add: same_counts_def)
  next
    case port
    with assms obtain n where
      "openredis en ((worker_info (we_timebuf en) ''FIFO path'' w)\<lparr>w_redisport := n\<rparr>) = Inr w'"
      by (auto simp: handle_msg_def msg_type_defs)
    from openredis_counts [OF this] show ?thesis by (simp add: same_counts_def worker_info_def)
  next
    case other
    with assms show ?thesis by (simp add: handle_msg_def same_counts_def)
  qed
qed

lemma drain_counts: "drain J en buf w = Inr (rest, w') \<Longrightarrow> same_counts w w'"
proof (induction J en buf w rule: drain.induct)
  case (1 J en buf w)
  show ?case
  proof (cases "channel_data_size \<le> length buf")
    case True
    with "1.prems" obtain go w1 where h: "handle_msg J en (cd_of_bytes (take channel_data_size buf)) w = Inr (go, w1)"
      "(if go then drain J en (drop channel_data_size buf) w1
        else Inr (drop channel_data_size buf, w1)) = Inr (rest, w')"
      by (subst (asm) drain.simps) auto
    note c = handle_msg_counts [OF h(1)]
    show ?thesis
    proof (cases go)
      case go: True
      with h "1.IH" [OF True h(1) _ go] show ?thesis using same_counts_trans [OF c] by simp
    qed (use h(2) c in simp)
  next
    case False
    with "1.prems" show ?thesis by (subst (asm) drain.simps) (simp add: same_counts_def)
  qed
qed

lemma channel_counts:
  assumes "worker_handle J en (ChannelIn bs) w = Inr w'"
  shows "same_counts w w'"
proof -
  obtain rest w1 where d: "drain J en (w_inbuf w @ bs) (w\<lparr>w_inbuf := []\<rparr>) = Inr (rest, w1)"
    and w': "w' = w1\<lparr>w_inbuf := rest\<rparr>"
    using assms by (auto simp: deal_channel_data_def)
  from drain_counts [OF d] w' show ?thesis by (simp add: same_counts_def)
qed

subsection \<open>Runs of the worker\<close>

lemma count_input:
  assumes "udp_worker w" "worker_input_ok J en i w" "worker_handle J en i w = Inr w'"
  shows "reported w' + pending w' = reported w + pending w + run_owes i w \<and>
    closes w' + reported w = closes w + reported w'"
proof (cases i)
  case (TestDue ta e)
  have i: "worker_inv w" and h: "udp_heap w" using assms(1) by (simp_all add: udp_worker_def)
  show ?thesis
  proof (cases "w_timers w ta = None")
    case False
    then obtain t where t: "w_tests w ta = Some (UdpT t)"
      using worker_invD(5) [OF i] udp_heap_test [OF h] by blast
    have "worker_timeout_callback_fn J (we_timebuf en) e ta w = Inr w'" using assms(3) TestDue False by simp
    from count_run [OF i _ t this] assms(2) show ?thesis by (simp add: TestDue False t)
  qed (use assms(3) TestDue in simp)
next
  case (EventDue ea f e)
  show ?thesis
  proof (cases "\<exists>ev ta. w_events w ea = Some (ev, ta) \<and> can_fire f ev")
    case True
    then obtain ev ta where ev: "w_events w ea = Some (ev, ta)" "can_fire f ev" by blast
    have "fire_event J (we_timebuf en) e f ea w = Inr w'" using assms(3) EventDue ev by simp
    from count_fired [OF assms(1) _ ev(1) this] assms(2) show ?thesis by (simp add: EventDue)
  next
    case False
    then have "w' = w" using assms(3) EventDue by (auto split: option.splits if_splits)
    with EventDue show ?thesis by simp
  qed
next
  case (IcmpIn e)
  have h: "(case e_recv e of None \<Rightarrow> Inr w | Some p \<Rightarrow> (case unreach_key (take BUFSIZE p) of None \<Rightarrow> Inr w
      | Some k \<Rightarrow> unreach_target J (we_timebuf en) e k w)) = Inr w'"
    using assms(3) by (cases "e_recv e") (simp_all add: IcmpIn icmp_cb_failed icmp_cb_key)
  have r: "redis_live w" using assms(2) IcmpIn by simp
  show ?thesis
    using h by (auto simp: IcmpIn split: option.splits dest!: count_unreached [OF assms(1) r])
next
  case (ChannelIn bs)
  with assms(3) have "same_counts w w'" using channel_counts by blast
  with ChannelIn show ?thesis by (simp add: same_counts_def counters)
next
  case (FdIn r1 r2 junk)
  with assms(3) show ?thesis by (auto simp: worker_channel_1_cb_def split_log_fd_def counters)
next
  case (RedisConnected c st x)
  with assms(3) show ?thesis by (auto simp: counters)
next
  case (RedisDisconnected c st x)
  with assms(3) show ?thesis by (auto simp: counters)
qed

lemma count_inputs:
  "udp_worker w \<Longrightarrow> allowed_run (\<lambda>(en, i). worker_handle J en i) (\<lambda>(en, i). worker_input_ok J en i) es w \<Longrightarrow>
   \<exists>w'. fold_res (\<lambda>(en, i). worker_handle J en i) es w = Inr w' \<and>
     reported w' + pending w' = reported w + pending w + owed J es w \<and>
     closes w' + reported w = closes w + reported w'"
proof (induction es arbitrary: w)
  case (Cons x es)
  obtain en i where x: "x = (en, i)" by (cases x)
  have ok: "worker_input_ok J en i w" using Cons.prems(2) by (simp add: x)
  obtain w1 where w1: "worker_handle J en i w = Inr w1" "udp_worker w1"
    using input_safe [OF Cons.prems(1) ok] by blast
  have "allowed_run (\<lambda>(en, i). worker_handle J en i) (\<lambda>(en, i). worker_input_ok J en i) es w1"
    using Cons.prems(2) by (simp add: x w1)
  from Cons.IH [OF w1(2) this] obtain w' where
    "fold_res (\<lambda>(en, i). worker_handle J en i) es w1 = Inr w'"
    "reported w' + pending w' = reported w1 + pending w1 + owed J es w1"
    "closes w' + reported w1 = closes w1 + reported w'" by blast
  with count_input [OF Cons.prems(1) ok w1(1)] show ?case by (simp add: x w1(1))
qed simp

text \<open>C11. Reports are conserved: along any inputs of a worker of UDP tests, as they are allowed above, the
  results pushed and the events still pending add up to what the runs of its tests owe: one for a run
  with a timeout, none without, one more if the socket could not be opened. Each result came
  with one close of the test's descriptor. So timeout, data and unreachable message, which race for the
  event of a run, never report it twice.\<close>

theorem udp_runs_reported:
  assumes "allowed_run (\<lambda>(en, i). worker_handle J en i) (\<lambda>(en, i). worker_input_ok J en i) inputs (Worker_new lg junk)"
  shows "\<exists>w. fold_res (\<lambda>(en, i). worker_handle J en i) inputs (Worker_new lg junk) = Inr w \<and>
    reported w + pending w = owed J inputs (Worker_new lg junk) \<and> closes w = reported w"
  using count_inputs [OF udp_worker_new assms] by (simp add: counters Worker_new_def)

text \<open>The inputs of the demonstration in \<open>Worker_Safe\<close> are allowed.\<close>

theorem udp_runs_reported_witness:
  "\<exists>w. fold_res (\<lambda>(en, i). worker_handle demo_J en i) demo_inputs demo_worker0 = Inr w \<and>
    reported w + pending w = owed demo_J demo_inputs demo_worker0 \<and> closes w = reported w"
  using udp_runs_reported [OF demo_inputs_allowed [unfolded demo_worker0_def]]
  by (simp only: demo_worker0_def)

end
