(* ===== verification/Worker_Redis.thy ===== *)
theory Worker_Redis
  imports Worker_Props
begin

section \<open>The connections to redis\<close>

text \<open>
  The master sends the port of the redis server along with every configuration it distributes, and
  each such message makes the worker open a connection. The first theorem follows \<open>redisc\<close> and the
  connections the event loop serves through any messages; the second shows what the loss of the
  connection in use leads to.
\<close>

text \<open>The connections that messages open, from the \<open>k\<close>th on: one for each redis port.\<close>

definition opens :: "'c worker_env \<Rightarrow> nat \<Rightarrow> channel_data \<Rightarrow> 'c list" where
  "opens en k d =
     (if cd_type d = MASTER_MSG_TYPE_REDISPORT then
        (case msg_text d of Inl f \<Rightarrow> []
         | Inr s \<Rightarrow> (case atoi s of Inl f \<Rightarrow> []
             | Inr n \<Rightarrow> (case we_redis en k n of None \<Rightarrow> [] | Some c \<Rightarrow> [c])))
      else [])"

fun opened :: "'c worker_env \<Rightarrow> nat \<Rightarrow> channel_data list \<Rightarrow> 'c list" where
  "opened en k [] = []"
| "opened en k (d # ds) = opens en k d @ opened en (k + length (opens en k d)) ds"

abbreviation same_connections :: "'c worker \<Rightarrow> 'c worker \<Rightarrow> bool" where
  "same_connections w w' \<equiv> w_redis w' = w_redis w \<and> w_attached w' = w_attached w \<and> w_connects w' = w_connects w"

text \<open>Other messages leave the connections alone.\<close>

lemma generate_test_redis:
  "generate_test J en r w = Inr (p, w') \<Longrightarrow> same_connections w w'"
  unfolding generate_test_def Let_def
  by (elim res_elims) (auto simp: new_test_def worker_info_def)

lemma add_test_redis: "add_test p w = Inr w' \<Longrightarrow> same_connections w w'"
  by (auto simp: add_test_def)

lemma delete_test_redis:
  "delete_test J r w = Inr (x, w') \<Longrightarrow> same_connections w w'"
  by (auto simp: delete_test_def split: if_splits option.splits)

lemma worker_info_redis: "w_redis (worker_info tb s w) = w_redis w" "w_attached (worker_info tb s w) = w_attached w"
  "w_connects (worker_info tb s w) = w_connects w"
  by (simp_all add: worker_info_def)

lemma handle_msg_other_redis:
  assumes "handle_msg J en d w = Inr (go, w')" "cd_type d \<noteq> MASTER_MSG_TYPE_REDISPORT"
  shows "same_connections w w'"
proof -
  consider (add) "cd_type d = MASTER_MSG_TYPE_ADDCONF" | (del) "cd_type d = MASTER_MSG_TYPE_DELCONF"
    | (other) "cd_type d \<noteq> MASTER_MSG_TYPE_ADDCONF" "cd_type d \<noteq> MASTER_MSG_TYPE_DELCONF" by blast
  then show ?thesis
  proof cases
    case add
    with assms(1) show ?thesis
      by (auto simp: handle_msg_def Let_def worker_info_redis split: option.splits if_splits
          dest!: generate_test_redis add_test_redis)
  next
    case del
    with assms(1) show ?thesis
      by (auto simp: handle_msg_def msg_type_defs worker_info_redis split: option.splits
          dest!: delete_test_redis)
  next
    case other
    with assms show ?thesis by (simp add: handle_msg_def)
  qed
qed

lemma handle_msg_redis:
  assumes "handle_msg J en d w = Inr (go, w')"
  shows "w_redis w' = (if opens en (w_connects w) d = [] then w_redis w else Some (last (opens en (w_connects w) d))) \<and>
    w_attached w' = w_attached w @ filter (\<lambda>c. \<not> we_redis_err en c) (opens en (w_connects w) d) \<and>
    w_connects w' = w_connects w + length (opens en (w_connects w) d)"
proof (cases "cd_type d = MASTER_MSG_TYPE_REDISPORT")
  case True
  with assms obtain s n where f: "msg_text d = Inr s" "atoi s = Inr n" and
    op: "openredis en ((worker_info (we_timebuf en) ''FIFO path'' w)\<lparr>w_redisport := n\<rparr>) = Inr w'"
    by (auto simp: handle_msg_def msg_type_defs)
  show ?thesis
  proof (rule openredis_sets [OF op])
    let ?v = "(worker_info (we_timebuf en) ''FIFO path'' w)\<lparr>w_redisport := n\<rparr>"
    fix c assume c: "we_redis en (w_connects ?v) (w_redisport ?v) = Some c"
      "w' = ?v\<lparr>w_redis := Some c, w_connects := Suc (w_connects ?v), w_freed := removeAll c (w_freed ?v),
        w_attached := w_attached ?v @ (if we_redis_err en c then [] else [c])\<rparr>"
    from c(1) f True have "opens en (w_connects w) d = [c]" by (simp add: opens_def worker_info_redis)
    with c(2) show ?thesis by (simp add: worker_info_redis)
  qed
next
  case False
  with handle_msg_other_redis [OF assms False] show ?thesis by (simp add: opens_def)
qed

text \<open>C33. Every message with the redis port opens one more connection: after any messages the worker uses the
  last one, and its event loop still serves all that were opened before, except those whose connect
  failed; nothing is closed. A connect that fails is used all the same.\<close>

theorem redis_connections_pile_up:
  assumes "deliver J en ds w = Inr w'"
  shows "w_redis w' = (if opened en (w_connects w) ds = [] then w_redis w else Some (last (opened en (w_connects w) ds))) \<and>
    w_attached w' = w_attached w @ filter (\<lambda>c. \<not> we_redis_err en c) (opened en (w_connects w) ds)"
  using assms
proof (induction ds arbitrary: w)
  case (Cons d ds)
  then obtain go w1 where w1: "handle_msg J en d w = Inr (go, w1)" "deliver J en ds w1 = Inr w'"
    by (auto simp: deliver_def deliver1_def)
  with handle_msg_redis [OF w1(1)] Cons.IH [OF w1(2)] show ?case by auto
qed (simp add: deliver_def)

text \<open>The port twice: two connections are served, of which the second is used.\<close>

definition demo_port_msg :: "string \<Rightarrow> channel_data" where
  "demo_port_msg s = mk_channel_data MASTER_MSG_TYPE_REDISPORT s"

definition demo_two_ports :: "nat worker_env" where
  "demo_two_ports = demo_we\<lparr>we_redis := (\<lambda>k p. Some (nat p))\<rparr>"

lemma demo_port_opens:
  assumes "0 \<le> n" "n < 65536"
  shows "opens demo_two_ports k (demo_port_msg (show_int n)) = [nat n] \<and>
    (\<exists>w'. deliver1 J demo_two_ports (demo_port_msg (show_int n)) w = Inr w')"
proof -
  have r: "int_range n" using assms by (simp add: int_range_def)
  have "length (show_int n) < MAX_MSG_LEN" using length_show_int [OF r] by (simp add: MAX_MSG_LEN_def)
  then have "msg_text (demo_port_msg (show_int n)) = Inr (show_int n)"
    unfolding demo_port_msg_def by (rule msg_text_short [OF _ show_int_no_NUL])
  then show ?thesis using atoi_show_int [OF r]
    by (simp add: opens_def deliver1_def handle_msg_def openredis_def demo_port_msg_def msg_type_defs
        demo_two_ports_def demo_we_def Let_def)
qed

theorem redis_connections_pile_up_witness:
  "\<exists>w'. deliver demo_J demo_two_ports [demo_port_msg (show_int 6379), demo_port_msg (show_int 6380)]
       demo_worker0 = Inr w' \<and> w_redis w' = Some 6380 \<and> w_attached w' = [6379, 6380]"
proof -
  note a = demo_port_opens [of 6379] and b = demo_port_opens [of 6380]
  obtain w' where w': "deliver demo_J demo_two_ports
      [demo_port_msg (show_int 6379), demo_port_msg (show_int 6380)] demo_worker0 = Inr w'"
  proof -
    obtain w1 where "deliver1 demo_J demo_two_ports (demo_port_msg (show_int 6379)) demo_worker0 = Inr w1"
      using a by fastforce
    moreover obtain w2 where "deliver1 demo_J demo_two_ports (demo_port_msg (show_int 6380)) w1 = Inr w2"
      using b by fastforce
    ultimately show thesis using that by (simp add: deliver_def)
  qed
  have "opened demo_two_ports k [demo_port_msg (show_int 6379), demo_port_msg (show_int 6380)] = [6379, 6380]" for k
    using conjunct1 [OF a] conjunct1 [OF b] by simp
  moreover have "w_attached demo_worker0 = []" "\<not> we_redis_err demo_two_ports c" for c
    by (simp_all add: demo_worker0_def Worker_new_def demo_two_ports_def demo_we_def)
  ultimately show ?thesis using redis_connections_pile_up [OF w'] w' by simp
qed

subsection \<open>Losing the connection\<close>

text \<open>When the connection in use is lost, or its connect fails, hiredis frees it and \<open>redisc\<close> keeps
  pointing at it: the callbacks only print. The next result any pending event of a test sends
  uses the freed connection. A port in a later message would help, but only a new configuration
  brings one.\<close>

theorem redis_loss_crashes:
  assumes "w_redis w = Some c" "c \<in> set (w_attached w)" "w_events w ea = Some (ev, ta)" "can_fire f ev"
    and "w_tests w ta = Some t" "event_callback J e f (ev_cb ev) t = Inr (t', es)" "results_of es \<noteq> []"
    and "i = RedisDisconnected c st x \<or> (i = RedisConnected c st x \<and> st \<noteq> REDIS_OK)"
  shows "\<exists>w'. worker_handle J en i w = Inr w' \<and> w_redis w' = Some c \<and>
    worker_handle J en (EventDue ea f e) w' = Inl UseAfterFree"
proof -
  obtain w' where w': "worker_handle J en i w = Inr w'" "w_redis w' = Some c" "c \<in> set (w_freed w')"
    "w_events w' = w_events w" "w_tests w' = w_tests w"
    using assms(1,2,8)
    by (auto simp: redis_disconnected_def redis_connected_def redis_gone_def Let_def)
  have "\<not> redis_live w'" "redis_fault w' = UseAfterFree"
    using w'(2,3) by (simp_all add: redis_live_def redis_fault_def)
  with event_result_no_redis [of w' ea ev ta f t J e t' es en] assms(3-7) w' show ?thesis by simp
qed

theorem redis_loss_crashes_witness:
  "\<exists>w'. worker_handle demo_J demo_we (RedisDisconnected 1 0 []) (demo_worker\<lparr>w_attached := [1]\<rparr>) = Inr w' \<and>
     worker_handle demo_J demo_we (EventDue 1 EvTimeout demo_udp_env) w' = Inl UseAfterFree"
proof -
  obtain t' es where c: "event_callback demo_J demo_udp_env EvTimeout (ev_cb (udp_event demo_target))
     (UdpT demo_target) = Inr (t', es)" and l: "length (results_of es) = 1"
    using demo_target_timeout by blast
  have ne: "results_of es \<noteq> []" using l by auto
  have f: "w_redis (demo_worker\<lparr>w_attached := [1]\<rparr>) = Some 1" "1 \<in> set (w_attached (demo_worker\<lparr>w_attached := [1]\<rparr>))"
    "w_events (demo_worker\<lparr>w_attached := [1]\<rparr>) 1 = Some (udp_event demo_target, 0)"
    "w_tests (demo_worker\<lparr>w_attached := [1]\<rparr>) 0 = Some (UdpT demo_target)"
    using demo_target_facts by simp_all
  from redis_loss_crashes [OF f(1-3) demo_target_facts(5) f(4) c ne disjI1 [OF refl]] show ?thesis by blast
qed

end
