(* ===== verification/Ping_Run.thy ===== *)
theory Ping_Run
  imports Ping_Test
begin

section \<open>Runs of a ping test\<close>

text \<open>
  A run of a \<open>Ping_test\<close> together with the events it has pending in the event loop: the
  persistent timer that \<open>run\<close> adds when an interval is configured, and one one-shot read event
  per probe; the results it has sent and the descriptors it has closed. \<open>ping_step\<close> is one callback of the loop, chosen among the pending events; the
  invariant \<open>ping_inv\<close> relates the counters of the object to the pending events, and holds in
  every state reachable from a started run.
\<close>

record ping_sys =
  ps_test :: ping_test
  ps_timers :: nat
  ps_reads :: nat
  ps_results :: "string list"
  ps_closed :: "int list"

fun absorb1 :: "callback \<Rightarrow> effect \<Rightarrow> ping_sys \<Rightarrow> ping_sys" where
  "absorb1 own (NewEvent ev k) s =
     (case ev_cb ev of PingTimeoutCb \<Rightarrow> s\<lparr>ps_timers := Suc (ps_timers s)\<rparr>
      | PingSocketCb \<Rightarrow> s\<lparr>ps_reads := Suc (ps_reads s)\<rparr>
      | UdpTimeoutCb \<Rightarrow> s)"
| "absorb1 own (SendResult r) s = s\<lparr>ps_results := ps_results s @ [r]\<rparr>"
| "absorb1 own (CloseFd fd) s = s\<lparr>ps_closed := ps_closed s @ [fd]\<rparr>"
| "absorb1 own FreeOwnEvent s =
     (if own = PingTimeoutCb then s\<lparr>ps_timers := ps_timers s - 1\<rparr> else s)"
| "absorb1 own _ s = s"

definition absorb :: "callback \<Rightarrow> effect list \<Rightarrow> ping_sys \<Rightarrow> ping_sys" where
  "absorb own es s = fold (absorb1 own) es s"

text \<open>
  \<open>Timer\<close> fires the persistent event; \<open>Socket\<close> fires a read event, which the loop has removed
  before it runs the callback; it fires with \<open>EV_TIMEOUT\<close> only if it was added with a timeout.
\<close>

datatype ping_input = Timer env | Socket fired env

inductive ping_step :: "'j jsonlib \<Rightarrow> ping_sys \<Rightarrow> ping_input \<Rightarrow> ping_sys \<Rightarrow> bool" for J where
  timer: "0 < ps_timers s \<Longrightarrow> ping_timeout_callback_fn J e (ps_test s) = Inr (t, es) \<Longrightarrow>
    ping_step J s (Timer e) (absorb PingTimeoutCb es (s\<lparr>ps_test := t\<rparr>))"
| socket: "0 < ps_reads s \<Longrightarrow> f = EvTimeout \<longrightarrow> 0 < timeout (ps_test s) \<Longrightarrow>
    ping_socket_callback_fn J e f (ps_test s) = Inr (t, es) \<Longrightarrow>
    ping_step J s (Socket f e)
      (absorb PingSocketCb es (s\<lparr>ps_test := t, ps_reads := ps_reads s - 1\<rparr>))"

inductive_cases timer_stepE: "ping_step J s (Timer e) s'"
inductive_cases socket_stepE: "ping_step J s (Socket f e) s'"

inductive ping_reach :: "'j jsonlib \<Rightarrow> ping_sys \<Rightarrow> ping_sys \<Rightarrow> bool" for J s0 where
  start: "ping_reach J s0 s0"
| step: "ping_reach J s0 s \<Longrightarrow> ping_step J s i s' \<Longrightarrow> ping_reach J s0 s'"

text \<open>A configured test whose \<open>run\<close> opened its socket and resolved its host.\<close>

definition ping_started :: "'j jsonlib \<Rightarrow> env \<Rightarrow> config \<Rightarrow> ping_test \<Rightarrow> ping_sys \<Rightarrow> bool" where
  "ping_started J e conf t0 s \<longleftrightarrow>
     0 \<le> e_sock e \<and> e_addr e \<noteq> None \<and>
     (\<exists>r t es. Ping_run J e (Ping_config conf t0) = Inr (r, t, es) \<and>
        s = absorb PingTimeoutCb es \<lparr>ps_test = t, ps_timers = 0, ps_reads = 0, ps_results = [], ps_closed = []\<rparr>)"

definition ping_inv :: "ping_sys \<Rightarrow> bool" where
  "ping_inv s \<longleftrightarrow>
     0 \<le> nowrecvtimes (ps_test s) \<and>
     nowrecvtimes (ps_test s) + int (ps_reads s) \<le> nowtimes (ps_test s) \<and>
     nowtimes (ps_test s) \<le> ping_times (ps_test s)"

subsection \<open>The invariant\<close>

text \<open>What a probe, a \<open>finish\<close> and the bookkeeping do to the counters.\<close>

lemma probe_counts:
  assumes "Ping_probe e t = Inr (r, t', es)"
  shows "nowrecvtimes t' = nowrecvtimes t \<and> ping_times t' = ping_times t \<and>
    (nowtimes t' = nowtimes t \<and> es = [] \<or>
     nowtimes t' = nowtimes t + 1 \<and> (\<exists>p. es = [SendTo (sockfd t) p, NewEvent (read_event t) None]))"
  using Ping_probe_cases [OF assms] by auto

lemma finish_counts:
  assumes "Ping_finish J e t = Inr (r, t', es)"
  shows "nowrecvtimes t' = nowrecvtimes t \<and> ping_times t' = ping_times t \<and>
    nowtimes t' = nowtimes t \<and> (\<exists>fd m a b. es = [CloseFd fd, SendResult m, LogInfo a, LogInfo b])"
  using assms by (auto simp: Ping_finish_eq)

lemma process_counts:
  assumes "Ping_process t = Inr (r, t')"
  shows "nowrecvtimes t' = nowrecvtimes t \<and> ping_times t' = ping_times t \<and>
    nowtimes t' = nowtimes t \<and> interval t' = interval t \<and>
    (r = TEST_STATUS_NOLAST \<longrightarrow> nowtimes t < ping_times t)"
  using assms
  by (cases rule: Ping_process_shape) (auto simp: ping_verdict_def status_defs)

lemma absorb_simps [simp]:
  "absorb own [] s = s"
  "absorb own (e # es) s = absorb own es (absorb1 own e s)"
  "absorb own (es @ fs) s = absorb own fs (absorb own es s)"
  by (simp_all add: absorb_def)

lemma absorb_probe:
  "absorb own [SendTo fd p, NewEvent (read_event t) None] s = s\<lparr>ps_reads := Suc (ps_reads s)\<rparr>"
  by (simp add: read_event_def)

lemma timer_inv:
  assumes "ping_timeout_callback_fn J e (ps_test s) = Inr (t, es)" "ping_inv s"
  shows "ping_inv (absorb PingTimeoutCb es (s\<lparr>ps_test := t\<rparr>))"
proof (cases "nowtimes (ps_test s) \<ge> ping_times (ps_test s)")
  case True
  with assms(1) obtain r es' where "Ping_finish J e (ps_test s) = Inr (r, t, es')"
    and "es = es' @ [FreeOwnEvent]"
    by (auto simp: ping_timeout_callback_fn_def)
  with finish_counts [OF this(1)] assms(2) show ?thesis
    by (auto simp: ping_inv_def)
next
  case False
  with assms(1) obtain r where "Ping_probe e (ps_test s) = Inr (r, t, es)"
    by (auto simp: ping_timeout_callback_fn_def)
  from probe_counts [OF this] False assms(2) show ?thesis
    by (auto simp: ping_inv_def absorb_probe simp del: absorb_simps(2))
qed

text \<open>
  The socket callback reads at most one answer and sends at most one further probe, and only
  when probes are left.
\<close>

lemma socket_counts:
  assumes "ping_socket_callback_fn J e f t = Inr (t', es)"
  shows "ping_times t' = ping_times t \<and>
    nowrecvtimes t' = nowrecvtimes t + (if f = EvRead then 1 else 0) \<and>
    (nowtimes t' = nowtimes t \<and> (\<forall>ev k. NewEvent ev k \<notin> set es) \<or>
     nowtimes t' = nowtimes t + 1 \<and> nowtimes t < ping_times t \<and>
     (\<exists>fd p u. es = [FreeOwnEvent, SendTo fd p, NewEvent (read_event u) None]))"
proof (cases f)
  case EvTimeout
  with assms show ?thesis
    by (auto split: if_splits dest!: finish_counts probe_counts)
next
  case EvRead
  with assms obtain r1 t1 where rc: "Ping_receive e t = Inr (r1, t1)" and
    ne: "r1 \<noteq> TEST_STATUS_FAIL"
    and rest: "rbind (Ping_process t1) (\<lambda>(r2, t2).
       if r2 = TEST_STATUS_NOLAST
       then rbind (Ping_probe e t2) (\<lambda>(_, t', es). Inr (t', FreeOwnEvent # es))
       else if r2 = TEST_STATUS_PROCESS then Inr (t2, [FreeOwnEvent])
       else if r2 = TEST_STATUS_LAST
       then rbind (Ping_finish J e t2) (\<lambda>(_, t', es). Inr (t', FreeOwnEvent # es))
       else Inr (t2, [FreeOwnEvent])) = Inr (t', es)"
    by (auto simp: Ping_receive_eq status_defs)
  from rest obtain r2 t2 where pr: "Ping_process t1 = Inr (r2, t2)" by auto
  from rc have c1: "nowrecvtimes t1 = nowrecvtimes t + 1" "ping_times t1 = ping_times t"
    "nowtimes t1 = nowtimes t" by (auto simp: Ping_receive_eq)
  from pr rest c1 EvRead process_counts [OF pr] show ?thesis
    by (auto split: if_splits dest!: finish_counts probe_counts)
qed

lemma absorb_no_new:
  "\<forall>ev k. NewEvent ev k \<notin> set es \<Longrightarrow> ps_reads (absorb PingSocketCb es s) = ps_reads s"
proof (induction es arbitrary: s)
  case (Cons e es)
  then show ?case by (cases e) auto
qed simp

lemma absorb_test [simp]: "ps_test (absorb own es s) = ps_test s"
proof (induction es arbitrary: s)
  case (Cons e es)
  then show ?case by (cases e) (auto split: callback.splits)
qed simp

lemma socket_inv:
  assumes "ping_socket_callback_fn J e f (ps_test s) = Inr (t, es)" "0 < ps_reads s" "ping_inv s"
  shows "ping_inv (absorb PingSocketCb es (s\<lparr>ps_test := t, ps_reads := ps_reads s - 1\<rparr>))"
  using socket_counts [OF assms(1)]
proof (elim conjE disjE exE)
  assume c: "ping_times t = ping_times (ps_test s)"
    "nowrecvtimes t = nowrecvtimes (ps_test s) + (if f = EvRead then 1 else 0)"
    "nowtimes t = nowtimes (ps_test s)" "\<forall>ev k. NewEvent ev k \<notin> set es"
  with assms(2,3) show ?thesis
    by (auto simp: ping_inv_def absorb_no_new of_nat_diff)
next
  fix fd p u
  assume c: "ping_times t = ping_times (ps_test s)"
    "nowrecvtimes t = nowrecvtimes (ps_test s) + (if f = EvRead then 1 else 0)"
    "nowtimes t = nowtimes (ps_test s) + 1" "nowtimes (ps_test s) < ping_times (ps_test s)"
    and es: "es = [FreeOwnEvent, SendTo fd p, NewEvent (read_event u) None]"
  with assms(2,3) show ?thesis
    by (auto simp: ping_inv_def read_event_def of_nat_diff)
qed

lemma ping_step_inv: "ping_step J s i s' \<Longrightarrow> ping_inv s \<Longrightarrow> ping_inv s'"
  by (induction rule: ping_step.induct) (blast intro: timer_inv socket_inv)+

lemma config_times_pos: "1 \<le> ping_times (Ping_config conf t)"
  by (simp add: Ping_config_def)

lemma ping_started_inv: "ping_started J e conf t0 s \<Longrightarrow> ping_inv s"
  unfolding ping_started_def
proof (elim conjE exE)
  fix r t es a
  define t1 where "t1 = snd (Ping_init e ((Ping_config conf t0)\<lparr>starttime := e_time e\<rparr>))"
  assume "0 \<le> e_sock e" "e_addr e \<noteq> None"
    and run: "Ping_run J e (Ping_config conf t0) = Inr (r, t, es)"
    and s: "s = absorb PingTimeoutCb es \<lparr>ps_test = t, ps_timers = 0, ps_reads = 0, ps_results = [], ps_closed = []\<rparr>"
  then obtain a where i: "Ping_init e ((Ping_config conf t0)\<lparr>starttime := e_time e\<rparr>) = (TEST_STATUS_INIT, t1)"
    and c: "nowtimes t1 = 0" "nowrecvtimes t1 = 0" "ping_times t1 = ping_times (Ping_config conf t0)"
    by (auto simp: t1_def Ping_init_def Let_def)
  have ne: "TEST_STATUS_INIT \<noteq> TEST_STATUS_FAIL" by (simp add: status_defs)
  show "ping_inv s"
  proof (cases "0 < interval t1")
    case True
    with run i ne have "t = t1" "es = [NewEvent (timer_event t1) None]"
      by (auto simp: Ping_run_def)
    then show ?thesis
      using s c config_times_pos [of conf t0] by (simp add: ping_inv_def timer_event_def)
  next
    case False
    with run i ne obtain r' where "Ping_probe e t1 = Inr (r', t, es)"
      by (auto simp: Ping_run_def)
    from probe_counts [OF this] c config_times_pos [of conf t0] s show ?thesis
      by (auto simp: ping_inv_def read_event_def)
  qed
qed

lemma ping_reach_inv: "ping_reach J s0 s \<Longrightarrow> ping_inv s0 \<Longrightarrow> ping_inv s"
  by (induction rule: ping_reach.induct) (auto intro: ping_step_inv)

subsection \<open>The percentage that is reported\<close>

lemma loss_floor:
  assumes "0 \<le> recvd" "recvd \<le> sent" "0 < sent"
  shows "cast_int (loss_percent recvd sent) = Some \<lfloor>100 - real_of_int recvd * 100 / real_of_int sent\<rfloor>"
    "0 \<le> \<lfloor>100 - real_of_int recvd * 100 / real_of_int sent\<rfloor>"
    "\<lfloor>100 - real_of_int recvd * 100 / real_of_int sent\<rfloor> \<le> 100"
proof -
  define x where "x = 100 - real_of_int recvd * 100 / real_of_int sent"
  have s: "0 < real_of_int sent" and r: "real_of_int recvd * 100 \<le> 100 * real_of_int sent"
    using assms by simp_all
  have "real_of_int recvd * 100 / real_of_int sent \<le> 100" using r s by (simp add: divide_le_eq)
  moreover have "0 \<le> real_of_int recvd * 100 / real_of_int sent" using assms s by simp
  ultimately have x: "0 \<le> x" "x \<le> 100" by (simp_all add: x_def)
  then have f: "0 \<le> \<lfloor>x\<rfloor>" "\<lfloor>x\<rfloor> \<le> 100" by (simp_all add: floor_le_iff)
  have "loss_percent recvd sent = Some x" using assms(3) by (simp add: loss_percent_def x_def)
  then have "cast_int (loss_percent recvd sent) = Some \<lfloor>x\<rfloor>"
    using x(1) f by (simp add: cast_int_def Let_def int_range_def)
  with f show "cast_int (loss_percent recvd sent) = Some \<lfloor>100 - real_of_int recvd * 100 / real_of_int sent\<rfloor>"
    "0 \<le> \<lfloor>100 - real_of_int recvd * 100 / real_of_int sent\<rfloor>"
    "\<lfloor>100 - real_of_int recvd * 100 / real_of_int sent\<rfloor> \<le> 100" by (simp_all add: x_def)
qed

lemma loss_in_range:
  assumes "0 \<le> recvd" "recvd \<le> sent" "0 < sent"
  shows "\<exists>k. cast_int (loss_percent recvd sent) = Some k \<and> 0 \<le> k \<and> k \<le> 100"
using loss_floor [OF assms] by blast

subsection \<open>Measurements\<close>

lemma fold_rtt_step:
  "fold rtt_step ds (mn, mx, sm) =
     (Min (insert mn (pd_rtt ` set ds)), Max (insert mx (pd_rtt ` set ds)),
      sm + sum_list (map pd_rtt ds))"
proof (induction ds arbitrary: mn mx sm)
  case (Cons d ds)
  have "Min (insert (min mn (pd_rtt d)) (pd_rtt ` set ds)) = Min (insert mn (insert (pd_rtt d) (pd_rtt ` set ds)))"
    by (cases "ds = []") (simp_all add: min.assoc)
  moreover have "Max (insert (max mx (pd_rtt d)) (pd_rtt ` set ds)) = Max (insert mx (insert (pd_rtt d) (pd_rtt ` set ds)))"
    by (cases "ds = []") (simp_all add: max.assoc)
  moreover have "rtt_step d (mn, mx, sm) = (min mn (pd_rtt d), max mx (pd_rtt d), sm + pd_rtt d)"
    by (auto simp: rtt_step_def min_def max_def)
  ultimately show ?case using Cons by simp
qed simp

lemma rtt_stats_eq:
  assumes "ds \<noteq> []"
  shows "rtt_stats ds =
    Some (Min (pd_rtt ` set ds), Max (pd_rtt ` set ds), sum_list (map pd_rtt ds))"
  using assms by (cases ds) (simp_all add: fold_rtt_step)

lemma fold_add: "fold (\<lambda>d acc. acc + f d) ds a = a + sum_list (map f ds)" for a :: real
  by (induction ds arbitrary: a) simp_all

lemma rtt_mdev_eq:
  assumes "ds \<noteq> []" "0 \<le> a"
  defines "avg \<equiv> sum_list (map pd_rtt ds) / real (length ds)"
  shows "rtt_mdev (Some a) ds =
    Some (sqrt ((a + sum_list (map (\<lambda>d. (pd_rtt d - avg)\<^sup>2) ds)) / real (length ds)))"
proof -
  have "0 \<le> sum_list (map (\<lambda>d. (pd_rtt d - avg)\<^sup>2) ds)"
    by (rule sum_list_nonneg) auto
  with assms show ?thesis
    by (simp add: rtt_mdev_def rtt_accum_def rtt_avg_def rtt_stats_eq fold_add power2_eq_square)
qed

subsection \<open>A run in which every probe is answered\<close>

text \<open>
  Without an interval the next probe is sent when an answer arrives. \<open>good_reply\<close> is an answer
  to some probe of this process, delivered to the read event; \<open>drive\<close> fires the read event
  once per answer.
\<close>

definition good_reply :: "int \<Rightarrow> env \<Rightarrow> bool" where
  "good_reply ident e \<longleftrightarrow>
     (\<exists>hl tv opts ck c s tm.
        5 \<le> hl \<and> hl \<le> 15 \<and> length opts = 4 * hl - 10 \<and> length ck = 2 \<and> tv_normal tm \<and>
        \<bar>tv_usec tm\<bar> < 2 ^ 61 \<and>
        e_recv e = Some (ip_header hl tv IPPROTO_ICMP opts @
                         echo_reply ck (icmp_echo c (of_int ident) s tm))) \<and>
     tv_normal (e_tod e) \<and> e_send_ok e"

definition logs_fit :: "ping_test \<Rightarrow> env \<Rightarrow> bool" where
  "logs_fit t e \<longleftrightarrow> length (cstr (host t) @ '' '' @ fst (e_logs e)) < logbuf_size \<and>
                 length (cstr (host t) @ '' '' @ snd (e_logs e)) < logbuf_size"

text \<open>
  What became of a probe: its answer was read, or the time of its read event passed first. An
  event added without a timeout can only be read.
\<close>

fun outcome :: "ping_test \<Rightarrow> fired \<times> env \<Rightarrow> bool" where
  "outcome t (EvRead, e) = good_reply (pid t) e"
| "outcome t (EvTimeout, e) = (0 < timeout t \<and> e_send_ok e)"

fun answered :: "fired \<times> env \<Rightarrow> int" where
  "answered (EvRead, e) = 1"
| "answered (EvTimeout, e) = 0"

lemma answered_eq: "answered (f, e) = (if f = EvRead then 1 else 0)"
  by (cases f) simp_all

text \<open>\<open>k\<close> probes are over, \<open>j\<close> of them answered, and one probe is under way.\<close>

definition waiting :: "int \<Rightarrow> int \<Rightarrow> ping_test \<Rightarrow> bool" where
  "waiting j k t \<longleftrightarrow>
     servaddr t \<noteq> None \<and> interval t \<le> 0 \<and> length (recvbuf t) = recvbuf_size \<and>
     0 \<le> pid t \<and> pid t < 65536 \<and> int_range (ping_times t) \<and>
     0 \<le> j \<and> j \<le> k \<and> nowrecvtimes t = j \<and> nowtimes t = k + 1 \<and> nsent t = k + 1 \<and>
     k < ping_times t \<and> int (length (data_vec t)) = j"

fun drive :: "'j jsonlib \<Rightarrow> (fired \<times> env) list \<Rightarrow> ping_test \<Rightarrow> (ping_test \<times> effect list) res" where
  "drive J [] t = Inr (t, [])"
| "drive J ((f, e) # es) t =
     rbind (ping_socket_callback_fn J e f t) (\<lambda>(t', fs).
     rbind (drive J es t') (\<lambda>(t'', gs). Inr (t'', fs @ gs)))"

fun is_send :: "effect \<Rightarrow> bool" where
  "is_send (SendTo fd p) = True"
| "is_send _ = False"

lemma good_reply_held:
  assumes "good_reply (pid t) e" "length (recvbuf t) = recvbuf_size"
  shows "\<exists>hl tv s tm. holds_reply hl tv (of_int (pid t)) s tm (snd (recv_into (e_recv e) (recvbuf t))) \<and>
    int (4 * hl) + 16 \<le> fst (recv_into (e_recv e) (recvbuf t)) \<and>
    fst (recv_into (e_recv e) (recvbuf t)) < 2 ^ 31 \<and> tv_normal tm"
proof -
  obtain hl tv opts ck c s tm where h: "5 \<le> hl" "hl \<le> 15" "length opts = 4 * hl - 10"
    "length ck = 2" "tv_normal tm" "\<bar>tv_usec tm\<bar> < 2 ^ 61"
    and r: "e_recv e = Some (ip_header hl tv IPPROTO_ICMP opts @
      echo_reply ck (icmp_echo c (of_int (pid t)) s tm))"
    using assms(1) unfolding good_reply_def by blast
  define d where "d = ip_header hl tv IPPROTO_ICMP opts @ echo_reply ck (icmp_echo c (of_int (pid t)) s tm)"
  have l: "length d = 4 * hl + 64"
    using h by (simp add: d_def ip_header_def echo_reply_def)
  have "take (length (recvbuf t)) d = d" using l h(2) assms(2) by (simp add: recvbuf_size_def)
  then have rv: "recv_into (e_recv e) (recvbuf t) = (int (length d), d @ drop (length d) (recvbuf t))"
    by (simp add: recv_into_def r flip: d_def)
  have "holds_reply hl tv (of_int (pid t)) s tm (snd (recv_into (e_recv e) (recvbuf t)))"
    unfolding holds_reply_def rv using h
    by (auto simp: d_def tv_normal_def)
  with l h rv show ?thesis by (intro exI [of _ hl] exI [of _ tv] exI [of _ s] exI [of _ tm]) auto
qed

lemma pid_field: "0 \<le> p \<Longrightarrow> p < 65536 \<Longrightarrow> int (unat (of_int p :: 16 word)) = p"
  by (simp only: unat_eq_nat_uint uint_word_of_int) (simp add: take_bit_eq_mod)

lemma good_reply_accepted:
  assumes "good_reply (pid t) e" "length (recvbuf t) = recvbuf_size" "0 \<le> pid t" "pid t < 65536"
    "servaddr t \<noteq> None" "int_range (nowrecvtimes t + 1)"
  shows "\<exists>t1 len buf rt d. Ping_receive e t = Inr (TEST_STATUS_RECV, t1) \<and>
    length buf = recvbuf_size \<and>
    Ping_process t1 = Inr (ping_verdict t, t\<lparr>recvlen := len, recvbuf := buf, recvtime := rt,
      status := TEST_STATUS_PROCESS, nowrecvtimes := nowrecvtimes t + 1,
      data_vec := data_vec t @ [d]\<rparr>)"
proof -
  obtain hl tv s tm where h: "holds_reply hl tv (of_int (pid t)) s tm (snd (recv_into (e_recv e) (recvbuf t)))"
    "int (4 * hl) + 16 \<le> fst (recv_into (e_recv e) (recvbuf t))"
    "fst (recv_into (e_recv e) (recvbuf t)) < 2 ^ 31" "tv_normal tm"
    using good_reply_held [OF assms(1,2)] by blast
  define t1 where "t1 = t\<lparr>recvlen := fst (recv_into (e_recv e) (recvbuf t)),
    recvbuf := snd (recv_into (e_recv e) (recvbuf t)), recvtime := e_tod e,
    status := TEST_STATUS_RECV, nowrecvtimes := nowrecvtimes t + 1\<rparr>"
  have rc: "Ping_receive e t = Inr (TEST_STATUS_RECV, t1)"
    using assms(5,6) by (simp add: Ping_receive_eq t1_def)
  obtain a where a: "servaddr t = Some a" using assms(5) by auto
  have "length (snd (recv_into (e_recv e) (recvbuf t))) = recvbuf_size"
    using assms(2) by (auto simp: recv_into_def Let_def split: option.splits)
  moreover obtain diff d where "Ping_process t1 = Inr (ping_verdict t1,
      t1\<lparr>status := TEST_STATUS_PROCESS, recvtime := diff, data_vec := data_vec t1 @ [d]\<rparr>)"
    using Ping_process_held [of hl tv "of_int (pid t)" s tm t1 a] icmplen_enough [OF h(2,3)]
      h assms(1,3,4) a pid_field
    by (auto simp: t1_def good_reply_def)
  moreover have "ping_verdict t1 = ping_verdict t" by (simp add: t1_def ping_verdict_def)
  ultimately show ?thesis
    using rc
    by (intro exI [of _ t1] exI [of _ "recvlen t1"] exI [of _ "recvbuf t1"] exI [of _ diff] exI [of _ d])
      (simp add: t1_def)
qed

text \<open>The answer, or the timeout, of the last probe.\<close>

lemma waiting_last:
  assumes w: "waiting j k t" and g: "outcome t (f, e)" and l: "logs_fit t e"
    and last: "k + 1 = ping_times t"
  shows "\<exists>t' es u a. ping_socket_callback_fn J e f t = Inr (t', es) \<and>
    status t' = TEST_STATUS_DONE \<and> results_of es = [j_write J (ping_metric a u)] \<and>
    filter is_send es = [] \<and> nowtimes u = ping_times t \<and> nowrecvtimes u = j + answered (f, e) \<and>
    int (length (data_vec u)) = j + answered (f, e) \<and> host u = host t"
proof (cases f)
  case EvRead
  have r: "int_range (nowrecvtimes t + 1)" using w last by (simp add: waiting_def int_range_def)
  have gr: "good_reply (pid t) e" using g EvRead by simp
  obtain t1 len buf rt d where s: "Ping_receive e t = Inr (TEST_STATUS_RECV, t1)"
    "Ping_process t1 = Inr (ping_verdict t, t\<lparr>recvlen := len, recvbuf := buf, recvtime := rt,
      status := TEST_STATUS_PROCESS, nowrecvtimes := nowrecvtimes t + 1,
      data_vec := data_vec t @ [d]\<rparr>)"
    using good_reply_accepted [OF gr _ _ _ _ r] w by (auto simp: waiting_def)
  have v: "ping_verdict t = TEST_STATUS_LAST" using w last by (simp add: ping_verdict_def waiting_def)
  define t2 where "t2 = t\<lparr>recvlen := len, recvbuf := buf, recvtime := rt,
      status := TEST_STATUS_PROCESS, nowrecvtimes := nowrecvtimes t + 1,
      data_vec := data_vec t @ [d]\<rparr>"
  have pr2: "Ping_process t1 = Inr (ping_verdict t, t2)" using s unfolding t2_def by blast
  obtain t' es where fin: "Ping_finish J e t2 = Inr (TEST_STATUS_DONE, t', es)"
    using l by (auto simp: Ping_finish_eq t2_def logs_fit_def)
  have cb: "ping_socket_callback_fn J e EvRead t = Inr (t', FreeOwnEvent # es)"
    using s(1) v fin pr2 by simp
  have "filter is_send es = []" using fin by (auto simp: Ping_finish_eq)
  then show ?thesis
    using cb ping.finish_done [OF fin] ping.finish_reports [OF fin] w last EvRead
    by (intro exI [of _ t'] exI [of _ "FreeOwnEvent # es"] exI [of _ "t2\<lparr>donetime := e_time e\<rparr>"]
        exI [of _ "e_accum e"]) (simp add: t2_def waiting_def)
next
  case EvTimeout
  obtain t' es where fin: "Ping_finish J e t = Inr (TEST_STATUS_DONE, t', es)"
    using l by (auto simp: Ping_finish_eq logs_fit_def)
  have cb: "ping_socket_callback_fn J e EvTimeout t = Inr (t', es @ [FreeOwnEvent])"
    using w last fin by (simp add: waiting_def)
  have "filter is_send es = []" using fin by (auto simp: Ping_finish_eq)
  then show ?thesis
    using cb ping.finish_done [OF fin] ping.finish_reports [OF fin] w last EvTimeout
    by (intro exI [of _ t'] exI [of _ "es @ [FreeOwnEvent]"] exI [of _ "t\<lparr>donetime := e_time e\<rparr>"]
        exI [of _ "e_accum e"]) (simp add: waiting_def results_of_def)
qed

text \<open>Of any other: the next probe is sent.\<close>

lemma waiting_next:
  assumes w: "waiting j k t" and g: "outcome t (f, e)" and more: "k + 1 < ping_times t"
  shows "\<exists>t' es. ping_socket_callback_fn J e f t = Inr (t', es) \<and>
    waiting (j + answered (f, e)) (k + 1) t' \<and> pid t' = pid t \<and> host t' = host t \<and>
    timeout t' = timeout t \<and> ping_times t' = ping_times t \<and>
    results_of es = [] \<and> length (filter is_send es) = 1"
proof -
  have r: "int_range (nowrecvtimes t + 1)" "int_range (nowtimes t + 1)" "int_range (nsent t + 1)"
    using w more by (simp_all add: waiting_def int_range_def)
  have send: "e_send_ok e" using g by (cases f) (simp_all add: good_reply_def)
  have probe: "\<exists>p. Ping_probe e u = Inr (TEST_STATUS_PROBE,
      u\<lparr>nsent := nsent u + 1, nowtimes := nowtimes u + 1, status := TEST_STATUS_PROBE\<rparr>,
      [SendTo (sockfd u) p, NewEvent (read_event u) None])"
    if "servaddr u = servaddr t" "nsent u = nsent t" "nowtimes u = nowtimes t" for u
  proof -
    obtain a where "servaddr t = Some a" using w by (auto simp: waiting_def)
    with send r that show ?thesis using Ping_probe_sent [of u a e] by auto
  qed
  show ?thesis
  proof (cases f)
    case EvRead
    have gr: "good_reply (pid t) e" using g EvRead by simp
    obtain t1 len buf rt d where s: "Ping_receive e t = Inr (TEST_STATUS_RECV, t1)"
      "length buf = recvbuf_size"
      "Ping_process t1 = Inr (ping_verdict t, t\<lparr>recvlen := len, recvbuf := buf, recvtime := rt,
        status := TEST_STATUS_PROCESS, nowrecvtimes := nowrecvtimes t + 1,
        data_vec := data_vec t @ [d]\<rparr>)"
      using good_reply_accepted [OF gr _ _ _ _ r(1)] w by (auto simp: waiting_def)
    have v: "ping_verdict t = TEST_STATUS_NOLAST"
      using w more by (simp add: ping_verdict_def waiting_def)
    define t2 where "t2 = t\<lparr>recvlen := len, recvbuf := buf, recvtime := rt,
        status := TEST_STATUS_PROCESS, nowrecvtimes := nowrecvtimes t + 1,
        data_vec := data_vec t @ [d]\<rparr>"
    have pr2: "Ping_process t1 = Inr (ping_verdict t, t2)" using s unfolding t2_def by blast
    obtain p where pr: "Ping_probe e t2 = Inr (TEST_STATUS_PROBE,
        t2\<lparr>nsent := nsent t2 + 1, nowtimes := nowtimes t2 + 1, status := TEST_STATUS_PROBE\<rparr>,
        [SendTo (sockfd t2) p, NewEvent (read_event t2) None])"
      using probe [of t2] by (auto simp: t2_def)
    have "ping_socket_callback_fn J e f t = Inr
        (t2\<lparr>nsent := nsent t2 + 1, nowtimes := nowtimes t2 + 1, status := TEST_STATUS_PROBE\<rparr>,
         FreeOwnEvent # [SendTo (sockfd t2) p, NewEvent (read_event t2) None])"
      using s(1) v pr pr2 EvRead by simp
    then show ?thesis
      using w more s(2) EvRead
      by (simp add: t2_def waiting_def del: ping_socket_callback_fn.simps not_None_eq)
  next
    case EvTimeout
    obtain p where pr: "Ping_probe e t = Inr (TEST_STATUS_PROBE,
        t\<lparr>nsent := nsent t + 1, nowtimes := nowtimes t + 1, status := TEST_STATUS_PROBE\<rparr>,
        [SendTo (sockfd t) p, NewEvent (read_event t) None])"
      using probe [of t] by auto
    have "ping_socket_callback_fn J e f t = Inr
        (t\<lparr>nsent := nsent t + 1, nowtimes := nowtimes t + 1, status := TEST_STATUS_PROBE\<rparr>,
         FreeOwnEvent # [SendTo (sockfd t) p, NewEvent (read_event t) None])"
      using w more pr EvTimeout by (simp add: waiting_def)
    then show ?thesis
      using w more EvTimeout
      by (simp add: waiting_def del: ping_socket_callback_fn.simps not_None_eq)
  qed
qed

lemma outcome_cong: "pid u = pid t \<Longrightarrow> timeout u = timeout t \<Longrightarrow> outcome u = outcome t"
proof
  fix fe assume "pid u = pid t" "timeout u = timeout t"
  then show "outcome u fe = outcome t fe" by (cases "(t, fe)" rule: outcome.cases) simp_all
qed

lemma drive_all:
  assumes "waiting j k t" "list_all (outcome t) fs" "list_all (logs_fit t \<circ> snd) fs"
    "int (length fs) = ping_times t - k" "fs \<noteq> []"
  shows "\<exists>t' gs u a. drive J fs t = Inr (t', gs) \<and> status t' = TEST_STATUS_DONE \<and>
    results_of gs = [j_write J (ping_metric a u)] \<and>
    nowtimes u = ping_times t \<and> nowrecvtimes u = j + sum_list (map answered fs) \<and>
    int (length (data_vec u)) = j + sum_list (map answered fs) \<and> host u = host t \<and>
    length (filter is_send gs) = length fs - 1"
  using assms
proof (induction fs arbitrary: j k t)
  case (Cons fe fs)
  obtain f e where fe: "fe = (f, e)" by (cases fe)
  have o: "outcome t (f, e)" "logs_fit t e" using Cons.prems(2,3) by (simp_all add: fe)
  show ?case
  proof (cases "fs = []")
    case True
    then have "k + 1 = ping_times t" using Cons.prems(4) by simp
    from waiting_last [OF Cons.prems(1) o this, of J] True show ?thesis
      by (auto simp: fe simp del: ping_socket_callback_fn.simps)
  next
    case False
    then have more: "k + 1 < ping_times t" using Cons.prems(4) by (cases fs) simp_all
    obtain t1 fs1 where s: "ping_socket_callback_fn J e f t = Inr (t1, fs1)"
      "waiting (j + answered (f, e)) (k + 1) t1" "pid t1 = pid t" "host t1 = host t"
      "timeout t1 = timeout t" "ping_times t1 = ping_times t" "results_of fs1 = []"
      "length (filter is_send fs1) = 1"
      using waiting_next [OF Cons.prems(1) o(1) more, of J] by blast
    have l: "list_all (logs_fit t1 \<circ> snd) fs" "list_all (outcome t1) fs"
      using Cons.prems(2,3) s(4) outcome_cong [OF s(3,5)] by (simp_all add: logs_fit_def list_all_iff)
    obtain t' gs u a where d: "drive J fs t1 = Inr (t', gs)" "status t' = TEST_STATUS_DONE"
      "results_of gs = [j_write J (ping_metric a u)]" "nowtimes u = ping_times t1"
      "nowrecvtimes u = j + answered (f, e) + sum_list (map answered fs)"
      "int (length (data_vec u)) = j + answered (f, e) + sum_list (map answered fs)"
      "host u = host t1" "length (filter is_send gs) = length fs - 1"
      using Cons.IH [OF s(2) l(2,1)] Cons.prems(4) False s(6) by auto
    have "drive J (fe # fs) t = Inr (t', fs1 @ gs)"
      using s(1) d(1) by (simp add: fe del: ping_socket_callback_fn.simps)
    then show ?thesis
      using d s False
      by (intro exI [of _ t'] exI [of _ "fs1 @ gs"] exI [of _ u] exI [of _ a])
        (cases fs, simp_all add: fe)
  qed
qed simp

text \<open>The start: \<open>run\<close> sends the first probe.\<close>

lemma run_waiting:
  assumes "interval t \<le> 0" "0 \<le> e_sock e" "e_addr e \<noteq> None" "e_send_ok e"
    "0 \<le> pid t" "pid t < 65536" "1 \<le> ping_times t" "int_range (ping_times t)" "data_vec t = []"
  shows "\<exists>t' es. Ping_run J e t = Inr (TEST_STATUS_OK, t', es) \<and> waiting 0 0 t' \<and>
    pid t' = pid t \<and> host t' = host t \<and> ping_times t' = ping_times t \<and> timeout t' = timeout t \<and>
    results_of es = [] \<and> length (filter is_send es) = 1"
proof -
  define t1 where "t1 = snd (Ping_init e (t\<lparr>starttime := e_time e\<rparr>))"
  obtain a where a: "e_addr e = Some a" using assms(3) by auto
  have i: "Ping_init e (t\<lparr>starttime := e_time e\<rparr>) = (TEST_STATUS_INIT, t1)"
    using assms(2) a by (simp add: t1_def Ping_init_def Let_def)
  have f: "servaddr t1 = Some a" "nsent t1 = 0" "nowtimes t1 = 0" "nowrecvtimes t1 = 0"
    "recvbuf t1 = replicate recvbuf_size 0" "interval t1 = interval t" "pid t1 = pid t"
    "host t1 = host t" "ping_times t1 = ping_times t" "data_vec t1 = []" "timeout t1 = timeout t"
    using assms(2,9) a by (simp_all add: t1_def Ping_init_def Let_def)
  obtain p where "Ping_probe e t1 = Inr (TEST_STATUS_PROBE,
      t1\<lparr>nsent := nsent t1 + 1, nowtimes := nowtimes t1 + 1, status := TEST_STATUS_PROBE\<rparr>,
      [SendTo (sockfd t1) p, NewEvent (read_event t1) None])"
    using Ping_probe_sent [OF f(1) assms(4)] f by (auto simp: int_range_def)
  then show ?thesis
    using i f assms(1,5-9) by (simp add: Ping_run_def waiting_def del: not_None_eq)
qed

subsection \<open>A concrete setting for the witnesses\<close>

definition demo_json :: "metric jsonlib" where "demo_json = table_json []"

definition demo_conf :: config where
  "demo_conf = \<lparr>cf_id = 3, cf_host = ''h'', cf_port = 0, cf_times = 2, cf_ttl = 64, cf_frenc = 12,
     cf_timeout = -1, cf_interval = -1, cf_type = ''PING''\<rparr>"

definition demo_ping :: ping_test where
  "demo_ping = \<lparr>t_id = 0, t_frenc = 0, t_name = [], sockfd = 0, host = [], ping_times = 0,
     nowtimes = 0, nowrecvtimes = 0, ttl = 0, recvtime = \<lparr>tv_sec = 0, tv_usec = 0\<rparr>,
     servaddr = None, status = 0, recvbuf = [], nsent = 0, starttime = 0, donetime = 0,
     data_vec = [], pid = 42, recvlen = 0, timeout = 0, interval = 0\<rparr>"

definition demo_env :: env where
  "demo_env = \<lparr>e_time = 100, e_tod = \<lparr>tv_sec = 100, tv_usec = 5000\<rparr>, e_pid = 42, e_sock = 7,
     e_addr = Some (10, 0, 0, 1), e_send_ok = True,
     e_recv = Some (ip_header 5 64 IPPROTO_ICMP (replicate 10 0) @
       echo_reply [0, 0] (icmp_echo 0 (of_int 42) 0 \<lparr>tv_sec = 100, tv_usec = 2000\<rparr>)),
     e_accum = Some 0, e_logs = ([], [])\<rparr>"

lemma demo_good: "good_reply 42 demo_env"
proof -
  have "\<exists>tv opts ck c s tm. 5 \<le> (5::nat) \<and> (5::nat) \<le> 15 \<and> length opts = 4 * 5 - 10 \<and>
      length ck = 2 \<and> tv_normal tm \<and> \<bar>tv_usec tm\<bar> < 2 ^ 61 \<and>
      e_recv demo_env = Some (ip_header 5 tv IPPROTO_ICMP opts @
        echo_reply ck (icmp_echo c (of_int 42) s tm))"
    by (rule exI [of _ 64], rule exI [of _ "replicate 10 0"], rule exI [of _ "[0, 0]"],
        rule exI [of _ 0], rule exI [of _ 0], rule exI [of _ "\<lparr>tv_sec = 100, tv_usec = 2000\<rparr>"])
      (simp add: demo_env_def tv_normal_def)
  then have "\<exists>hl tv opts ck c s tm. 5 \<le> hl \<and> hl \<le> 15 \<and> length opts = 4 * hl - 10 \<and>
      length ck = 2 \<and> tv_normal tm \<and> \<bar>tv_usec tm\<bar> < 2 ^ 61 \<and>
      e_recv demo_env = Some (ip_header hl tv IPPROTO_ICMP opts @
        echo_reply ck (icmp_echo c (of_int 42) s tm))"
    by (rule exI [of _ 5])
  moreover have "tv_normal (e_tod demo_env) \<and> e_send_ok demo_env"
    by (simp add: demo_env_def tv_normal_def)
  ultimately show ?thesis unfolding good_reply_def by (rule conjI)
qed

lemma demo_started: "\<exists>s. ping_started demo_json demo_env demo_conf demo_ping s \<and>
    nowtimes (ps_test s) = 1"
proof -
  obtain t es where "Ping_run demo_json demo_env (Ping_config demo_conf demo_ping) =
      Inr (TEST_STATUS_OK, t, es)" "waiting 0 0 t"
    using run_waiting [of "Ping_config demo_conf demo_ping" demo_env demo_json]
    by (auto simp: demo_env_def demo_conf_def demo_ping_def Ping_config_def int_range_def)
  then show ?thesis
    unfolding ping_started_def
    by (intro exI [of _ "absorb PingTimeoutCb es
        \<lparr>ps_test = t, ps_timers = 0, ps_reads = 0, ps_results = [], ps_closed = []\<rparr>"])
      (auto simp: demo_env_def waiting_def)
qed

subsection \<open>Properties\<close>



text \<open>C18. In every state a started run can reach, by any interleaving of its timer, answers and
  timeouts, the probes sent never exceed the configured number, and the answers read plus the
  read events still pending never exceed the probes sent.\<close>

theorem ping_counters_bounded:
  assumes "ping_started J e conf t0 s0" "ping_reach J s0 s"
  shows "0 \<le> nowrecvtimes (ps_test s) \<and>
    nowrecvtimes (ps_test s) + int (ps_reads s) \<le> nowtimes (ps_test s) \<and>
    nowtimes (ps_test s) \<le> ping_times (ps_test s)"
  using ping_reach_inv [OF assms(2) ping_started_inv [OF assms(1)]] by (simp add: ping_inv_def)

theorem ping_counters_bounded_witness:
  "\<exists>s. ping_started demo_json demo_env demo_conf demo_ping s \<and>
     nowrecvtimes (ps_test s) + int (ps_reads s) \<le> nowtimes (ps_test s)"
  using demo_started ping_counters_bounded [OF _ ping_reach.start] by blast

text \<open>Whenever a run has sent a probe, the loss it would report is a determined integer between
  0 and 100.\<close>

theorem ping_loss_percentage:
  assumes "ping_started J e conf t0 s0" "ping_reach J s0 s" "0 < nowtimes (ps_test s)"
  shows "\<exists>k. map_of (ping_metric a (ps_test s)) ''loss'' = Some (JInt k) \<and> 0 \<le> k \<and> k \<le> 100"
proof -
  have "ping_inv s" by (rule ping_reach_inv [OF assms(2) ping_started_inv [OF assms(1)]])
  then obtain k where "cast_int (loss_percent (nowrecvtimes (ps_test s)) (nowtimes (ps_test s))) = Some k"
    "0 \<le> k" "k \<le> 100"
    using loss_in_range [of "nowrecvtimes (ps_test s)" "nowtimes (ps_test s)"] assms(3)
    by (auto simp: ping_inv_def)
  then show ?thesis by (simp add: ping_metric_def jnum_def)
qed

theorem ping_loss_percentage_witness:
  "\<exists>s k. ping_started demo_json demo_env demo_conf demo_ping s \<and>
     map_of (ping_metric None (ps_test s)) ''loss'' = Some (JInt k) \<and> k \<le> 100"
proof -
  obtain s where s: "ping_started demo_json demo_env demo_conf demo_ping s" "nowtimes (ps_test s) = 1"
    using demo_started by blast
  then show ?thesis using ping_loss_percentage [OF s(1) ping_reach.start, of None] by auto
qed



text \<open>C30. The three figures of a non-empty measurement list are its true minimum, maximum and sum,
  and the reported deviation is the population deviation plus whatever the never-initialised
  \<open>rtt_accum\<close> held: with a zero slot it is exact, with any other non-negative content it is
  strictly too large.\<close>

theorem ping_statistics:
  assumes "ds \<noteq> []" "0 \<le> junk"
  defines "avg \<equiv> sum_list (map pd_rtt ds) / real (length ds)"
  defines "dev \<equiv> sqrt (sum_list (map (\<lambda>d. (pd_rtt d - avg)\<^sup>2) ds) / real (length ds))"
  shows "rtt_stats ds = Some (Min (pd_rtt ` set ds), Max (pd_rtt ` set ds), sum_list (map pd_rtt ds)) \<and>
    rtt_avg ds = Some avg \<and>
    (\<exists>x. rtt_mdev (Some junk) ds = Some x \<and> (junk = 0 \<longrightarrow> x = dev) \<and> (0 < junk \<longrightarrow> dev < x))"
proof -
  define S where "S = sum_list (map (\<lambda>d. (pd_rtt d - avg)\<^sup>2) ds)"
  have "rtt_mdev (Some junk) ds = Some (sqrt ((junk + S) / real (length ds)))"
    using rtt_mdev_eq [OF assms(1,2)] by (simp add: S_def avg_def)
  moreover have "0 < junk \<Longrightarrow> S / real (length ds) < (junk + S) / real (length ds)"
    using assms(1) by (simp add: divide_strict_right_mono)
  ultimately show ?thesis
    using assms(1) by (simp add: rtt_stats_eq rtt_avg_def avg_def dev_def S_def)
qed

theorem ping_statistics_witness:
  "rtt_avg [\<lparr>pd_ttl = 64, pd_rtt = 3, pd_datalen = 64, pd_icmpseq = 0, pd_hostip = []\<rparr>] = Some 3"
  using ping_statistics [of "[\<lparr>pd_ttl = 64, pd_rtt = 3, pd_datalen = 64, pd_icmpseq = 0, pd_hostip = []\<rparr>]" 0]
  by simp

text \<open>The reported minimum, average, maximum and deviation are whole milliseconds times 100, or
  not determined at all: the cast comes before the multiplication, so a sub-millisecond answer is
  reported as 0.\<close>

theorem ping_metric_truncates:
  assumes "key \<in> {''min'', ''avg'', ''max'', ''mdev''}"
  shows "map_of (ping_metric a t) key = Some JIndet \<or>
    (\<exists>k. map_of (ping_metric a t) key = Some (JInt (k * 100)))"
proof -
  have "jnum (times_int 100 x) = JIndet \<or> (\<exists>k. jnum (times_int 100 x) = JInt (k * 100))" for x
    by (auto simp: jnum_def times_int_def split: option.splits)
  with assms show ?thesis by (auto simp: ping_metric_def)
qed

theorem ping_metric_truncates_witness:
  "map_of (ping_metric None demo_ping) ''avg'' = Some JIndet \<or>
   (\<exists>k. map_of (ping_metric None demo_ping) ''avg'' = Some (JInt (k * 100)))"
  by (rule ping_metric_truncates) simp

end
