(* ===== verification/Ping_Faults.thy ===== *)
theory Ping_Faults
  imports Ping_Run
begin

section \<open>How runs of a ping test go wrong\<close>

text \<open>
  What the code of \<open>ping_test.cpp\<close> does on the paths its comments worry about: a run that is
  finished twice, an answer that arrives after \<open>finish\<close>, an answer that is rejected, a process id
  that does not fit the ICMP field, a failed \<open>recvmsg\<close>, a host that does not resolve. Each is a
  property of the model's handlers, which are the code's.
\<close>

subsection \<open>Reporting twice\<close>

declare ping_socket_callback_fn.simps [simp del]

text \<open>An answer that ends the run was the last one, and leaves what the timer reads unchanged.\<close>

lemma read_reports_last:
  assumes "ping_socket_callback_fn J e EvRead t = Inr (t', es)" "results_of es \<noteq> []"
  shows "\<exists>m. results_of es = [m] \<and> CloseFd (sockfd t) \<in> set es \<and> nowtimes t' = nowtimes t \<and>
    ping_times t' = ping_times t \<and> ping_times t \<le> nowtimes t \<and> host t' = host t \<and>
    sockfd t' = sockfd t \<and> servaddr t' = None \<and> data_vec t' = []"
proof -
  from assms(1) obtain r1 t1 r2 t2 where rc: "Ping_receive e t = Inr (r1, t1)"
    and pr: "Ping_process t1 = Inr (r2, t2)"
    and rest: "(if r2 = TEST_STATUS_NOLAST
       then rbind (Ping_probe e t2) (\<lambda>(_, t', es). Inr (t', FreeOwnEvent # es))
       else if r2 = TEST_STATUS_PROCESS then Inr (t2, [FreeOwnEvent])
       else if r2 = TEST_STATUS_LAST
       then rbind (Ping_finish J e t2) (\<lambda>(_, t', es). Inr (t', FreeOwnEvent # es))
       else Inr (t2, [FreeOwnEvent])) = Inr (t', es)"
    by (fastforce simp: Ping_receive_eq ping_socket_callback_fn.simps simp del: if_split)
  have t1: "nowtimes t1 = nowtimes t" "ping_times t1 = ping_times t" "host t1 = host t"
    "sockfd t1 = sockfd t" using rc by (auto simp: Ping_receive_eq)
  have t2: "nowtimes t2 = nowtimes t1" "ping_times t2 = ping_times t1" "host t2 = host t1"
    "sockfd t2 = sockfd t1" "r2 = TEST_STATUS_LAST \<longrightarrow> ping_times t1 \<le> nowtimes t1"
    using pr by (cases rule: Ping_process_shape; auto simp: ping_verdict_def status_defs)+
  have "\<not> (r2 = TEST_STATUS_NOLAST)" "r2 \<noteq> TEST_STATUS_PROCESS" "r2 = TEST_STATUS_LAST"
    using rest assms(2) by (auto split: if_splits dest!: probe_counts)
  with rest t1 t2 show ?thesis by (auto simp: Ping_finish_eq)
qed


text \<open>A test whose last answer is due: what the witnesses below start from.\<close>

definition demo_last :: ping_test where
  "demo_last = demo_ping\<lparr>recvbuf := replicate recvbuf_size 0, servaddr := Some (10, 0, 0, 1),
     ping_times := 2, nowtimes := 2, nowrecvtimes := 1, interval := 500, sockfd := 7\<rparr>"

lemma demo_last_accepted:
  "\<exists>t1 len buf rt d. Ping_receive demo_env demo_last = Inr (TEST_STATUS_RECV, t1) \<and>
    length buf = recvbuf_size \<and>
    Ping_process t1 = Inr (ping_verdict demo_last, demo_last\<lparr>recvlen := len, recvbuf := buf,
      recvtime := rt, status := TEST_STATUS_PROCESS, nowrecvtimes := nowrecvtimes demo_last + 1,
      data_vec := data_vec demo_last @ [d]\<rparr>)"
  using good_reply_accepted [of demo_last demo_env] demo_good
  by (simp add: demo_last_def demo_ping_def int_range_def)

lemma demo_fits: "host t = [] \<Longrightarrow> logs_fit t demo_env"
  by (simp add: logs_fit_def demo_env_def cstr_def logbuf_size_def)

lemma demo_last_reports:
  "\<exists>t1 es. ping_socket_callback_fn demo_json demo_env EvRead demo_last = Inr (t1, es) \<and>
     results_of es \<noteq> [] \<and> servaddr t1 = None"
proof -
  obtain t1 len buf rt d where s: "Ping_receive demo_env demo_last = Inr (TEST_STATUS_RECV, t1)"
    and "Ping_process t1 = Inr (ping_verdict demo_last, demo_last\<lparr>recvlen := len, recvbuf := buf,
      recvtime := rt, status := TEST_STATUS_PROCESS, nowrecvtimes := nowrecvtimes demo_last + 1,
      data_vec := data_vec demo_last @ [d]\<rparr>)"
    using demo_last_accepted by blast
  moreover have "ping_verdict demo_last = TEST_STATUS_LAST"
    by (simp add: ping_verdict_def demo_last_def)
  moreover define t2 where "t2 = demo_last\<lparr>recvlen := len, recvbuf := buf,
      recvtime := rt, status := TEST_STATUS_PROCESS, nowrecvtimes := nowrecvtimes demo_last + 1,
      data_vec := data_vec demo_last @ [d]\<rparr>"
  moreover obtain r t3 es where f: "Ping_finish demo_json demo_env t2 = Inr (r, t3, es)"
    using demo_fits [of t2] by (auto simp: Ping_finish_eq logs_fit_def t2_def demo_last_def demo_ping_def)
  ultimately have "ping_socket_callback_fn demo_json demo_env EvRead demo_last = Inr (t3, FreeOwnEvent # es)"
    by (simp add: ping_socket_callback_fn.simps)
  with f show ?thesis by (auto simp: Ping_finish_eq)
qed


lemma rejected_run:
  assumes "Ping_receive e t = Inr (r, t1)" "Ping_process t1 = Inr (TEST_STATUS_FAIL, t2)"
  shows "ping_socket_callback_fn J e EvRead t = Inr (t2, [FreeOwnEvent])"
  using assms by (auto simp: Ping_receive_eq ping_socket_callback_fn.simps)

subsection \<open>After \<open>finish\<close>\<close>

text \<open>Between two runs the address is gone: once the answer that completes the run has been
  handled, any further answer whose read event is still armed (a duplicate, or one of several
  probes that an interval keeps in flight) makes \<open>receive\<close> follow the null \<open>servaddr\<close>.\<close>

theorem ping_late_answer_crashes:
  assumes "ping_step J s (Socket EvRead e) s1"
    and "ps_results s1 \<noteq> ps_results s"
  shows "ping_socket_callback_fn J e' EvRead (ps_test s1) = Inl NullDeref \<and>
    \<not> ping_step J s1 (Socket EvRead e') s2"
proof -
  from assms(1) obtain t es where
    1: "s1 = absorb PingSocketCb es (s\<lparr>ps_test := t, ps_reads := ps_reads s - Suc 0\<rparr>)"
      "ping_socket_callback_fn J e EvRead (ps_test s) = Inr (t, es)"
    by (rule socket_stepE) blast
  have results: "ps_results (absorb PingSocketCb es u) = ps_results u @ results_of es" for u
  proof (induction es arbitrary: u)
    case (Cons x es)
    then show ?case by (cases x) (auto split: callback.splits)
  qed simp
  have "results_of es \<noteq> []" using assms(2) 1 by (auto simp: results)
  then have "servaddr t = None" using read_reports_last [OF 1(2)] by blast
  then have "ping_socket_callback_fn J e' EvRead (ps_test s1) = Inl NullDeref"
    using 1(1) by (simp add: ping_socket_callback_fn.simps Ping_receive_def)
  then show ?thesis by (auto elim!: socket_stepE)
qed

theorem ping_late_answer_crashes_witness:
  "\<exists>s1. ping_step demo_json
      \<lparr>ps_test = demo_last, ps_timers = 1, ps_reads = 2, ps_results = [], ps_closed = []\<rparr> (Socket EvRead demo_env) s1 \<and>
    0 < ps_reads s1 \<and>
    ping_socket_callback_fn demo_json demo_env EvRead (ps_test s1) = Inl NullDeref"
proof -
  obtain t1 es where s: "ping_socket_callback_fn demo_json demo_env EvRead demo_last = Inr (t1, es)"
    "results_of es \<noteq> []" using demo_last_reports by blast
  define s0 where "s0 = \<lparr>ps_test = demo_last, ps_timers = 1, ps_reads = 2, ps_results = [], ps_closed = []\<rparr>"
  define s1 where "s1 = absorb PingSocketCb es (s0\<lparr>ps_test := t1, ps_reads := ps_reads s0 - 1\<rparr>)"
  have st: "ping_step demo_json s0 (Socket EvRead demo_env) s1"
    unfolding s1_def by (rule ping_step.socket) (simp_all add: s0_def s(1))
  have grow: "0 < ps_reads u \<Longrightarrow> 0 < ps_reads (absorb PingSocketCb xs u) \<and>
    (results_of xs \<noteq> [] \<longrightarrow> ps_results (absorb PingSocketCb xs u) \<noteq> [])"
    "ps_results u \<noteq> [] \<Longrightarrow> ps_results (absorb PingSocketCb xs u) \<noteq> []" for u xs
  proof (induction xs arbitrary: u)
    case (Cons x xs)
    { case 1 with Cons show ?case by (cases x) (auto split: callback.splits) }
    { case 2 with Cons show ?case by (cases x) (auto split: callback.splits) }
  qed simp_all
  have g: "0 < ps_reads s1" "ps_results s1 \<noteq> ps_results s0"
    unfolding s1_def using grow(1) [of "s0\<lparr>ps_test := t1, ps_reads := ps_reads s0 - 1\<rparr>" es] s(2)
    by (simp_all add: s0_def)
  from st g ping_late_answer_crashes [OF st g(2)] show ?thesis
    unfolding s0_def by blast
qed

subsection \<open>Rejected answers\<close>

lemma icmp_id_16bit: "icmp_id off buf = Inr n \<Longrightarrow> n < 65536"
proof -
  assume a: "icmp_id off buf = Inr n"
  then obtain bs where bs: "n = le_nat bs" "length bs = 2"
    by (auto simp: icmp_id_def bytes_at_def split: if_splits)
  then obtain x y where "bs = [x, y]" by (auto simp: numeral_2_eq_2 length_Suc_conv)
  then show ?thesis
    using bs(1) unat8_less [of x] unat8_less [of y] by simp
qed

text \<open>The identifier field of an ICMP echo has 16 bits, and \<open>process\<close> compares it with the whole
  process id: a process whose id is 65536 or more rejects every answer, so its measurement list
  stays as it was.\<close>

theorem ping_large_pid_rejects:
  assumes "65536 \<le> pid t" "Ping_process t = Inr (r, t')"
  shows "r = TEST_STATUS_FAIL \<and> data_vec t' = data_vec t"
proof -
  have "int ident \<noteq> pid t" if "icmp_id off buf = Inr ident" for off buf ident
    using icmp_id_16bit [OF that] assms(1) by linarith
  then show ?thesis
    using assms(2) unfolding Ping_process_def Let_def
    by (elim res_elims; hypsubst; (simp (no_asm))?; (use assms(1) in \<open>force simp: \<close>)?)
qed

lemma Ping_process_foreign:
  assumes "holds_reply hl tv i s tm (recvbuf t)" "int (unat i) \<noteq> pid t"
    and "int (4 * hl) + 16 \<le> recvlen t" "recvlen t < 2 ^ 31"
  shows "Ping_process t = Inr (TEST_STATUS_FAIL, t\<lparr>status := TEST_STATUS_PROCESS\<rparr>)"
proof -
  define L where "L = (of_int (recvlen t) :: 32 word) - of_nat (4 * hl)"
  show ?thesis
    unfolding Ping_process_def Let_def
    using assms(2) icmplen_enough [OF assms(3,4)] unfolding L_def [symmetric]
    by (simp add: reply_fields [OF assms(1)] L_def [symmetric] del: of_nat_mult)
qed

definition demo_bytes :: "16 word \<Rightarrow> 8 word list" where
  "demo_bytes i = ip_header 5 64 IPPROTO_ICMP (replicate 10 0) @
     echo_reply [0, 0] (icmp_echo 0 i 0 \<lparr>tv_sec = 100, tv_usec = 2000\<rparr>)"

lemma demo_bytes_held: "holds_reply 5 64 i 0 \<lparr>tv_sec = 100, tv_usec = 2000\<rparr> (demo_bytes i @ rest)"
  unfolding holds_reply_def demo_bytes_def
  by (intro conjI exI [of _ "replicate 10 0"] exI [of _ "[0, 0]"] exI [of _ rest] exI [of _ 0])
    simp_all

lemma demo_ids: "int (unat (42 :: 16 word)) = 42" "int (unat (77 :: 16 word)) = 77"
  by simp_all

lemma length_demo_bytes [simp]: "length (demo_bytes i) = 84"
  by (simp add: demo_bytes_def ip_header_def echo_reply_def)

lemma demo_bytes_fit:
  "recv_into (Some (demo_bytes i)) (replicate recvbuf_size 0) = (84, demo_bytes i @ replicate 1416 0)"
  by (simp add: recv_into_def recvbuf_size_def Let_def)

theorem ping_large_pid_rejects_witness:
  "\<exists>r t'. Ping_process (demo_ping\<lparr>pid := 65578, recvbuf := demo_bytes 42, recvlen := 84\<rparr>) = Inr (r, t') \<and>
     r = TEST_STATUS_FAIL \<and> data_vec t' = []"
proof -
  have p: "Ping_process (demo_ping\<lparr>pid := 65578, recvbuf := demo_bytes 42, recvlen := 84\<rparr>) =
    Inr (TEST_STATUS_FAIL, (demo_ping\<lparr>pid := 65578, recvbuf := demo_bytes 42, recvlen := 84\<rparr>)
      \<lparr>status := TEST_STATUS_PROCESS\<rparr>)"
    using demo_bytes_held [of 42 "[]"] demo_ids
    by (intro Ping_process_foreign [of 5 64 42 0 "\<lparr>tv_sec = 100, tv_usec = 2000\<rparr>"]) simp_all
  from ping_large_pid_rejects [OF _ p] p show ?thesis by (simp add: demo_ping_def)
qed

text \<open>A raw ICMP socket sees every ICMP message of the host. In a run without an interval, the
  echo reply to another process, read while waiting for the answer, ends the run for good: no
  event is left pending, nothing was reported, and no further step is possible.\<close>

theorem ping_foreign_reply_stalls:
  assumes "ps_reads s = 1" "ps_timers s = 0" "ping_step J s (Socket EvRead e) s'"
    and "snd (recv_into (e_recv e) (recvbuf (ps_test s))) = buf" "holds_reply hl tv i q tm buf"
    and "int (unat i) \<noteq> pid (ps_test s)"
    and "fst (recv_into (e_recv e) (recvbuf (ps_test s))) = n" "int (4 * hl) + 16 \<le> n" "n < 2 ^ 31"
  shows "ps_results s' = ps_results s \<and> status (ps_test s') \<noteq> TEST_STATUS_DONE \<and>
    \<not> ping_step J s' k s''"
proof -
  from assms(3) obtain t es where
    1: "s' = absorb PingSocketCb es (s\<lparr>ps_test := t, ps_reads := ps_reads s - Suc 0\<rparr>)"
      "ping_socket_callback_fn J e EvRead (ps_test s) = Inr (t, es)"
    by (rule socket_stepE) blast
  obtain r t1 where rc: "Ping_receive e (ps_test s) = Inr (r, t1)"
    using 1(2) by (auto simp: ping_socket_callback_fn.simps)
  then have t1: "recvbuf t1 = buf" "recvlen t1 = n" "pid t1 = pid (ps_test s)"
    using assms(4,7) by (auto simp: Ping_receive_eq)
  have "Ping_process t1 = Inr (TEST_STATUS_FAIL, t1\<lparr>status := TEST_STATUS_PROCESS\<rparr>)"
    using assms t1 by (intro Ping_process_foreign [of hl tv i q tm]) simp_all
  from rejected_run [OF rc this, of J] 1(2)
  have t: "t = t1\<lparr>status := TEST_STATUS_PROCESS\<rparr>" "es = [FreeOwnEvent]" by simp_all
  have "ps_reads s' = 0" "ps_timers s' = 0" using 1(1) t(2) assms(1,2) by simp_all
  then have "\<not> ping_step J s' k s''" by (auto elim: ping_step.cases)
  then show ?thesis using 1(1) t by (simp add: status_defs)
qed

theorem ping_foreign_reply_stalls_witness:
  "\<exists>s'. ping_step demo_json \<lparr>ps_test = demo_last, ps_timers = 0, ps_reads = 1, ps_results = [], ps_closed = []\<rparr>
      (Socket EvRead (demo_env\<lparr>e_recv := Some (demo_bytes 77)\<rparr>)) s' \<and> ps_results s' = [] \<and>
    (\<forall>k s''. \<not> ping_step demo_json s' k s'')"
proof -
  define s where "s = \<lparr>ps_test = demo_last, ps_timers = 0, ps_reads = 1, ps_results = [], ps_closed = []\<rparr>"
  define e where "e = demo_env\<lparr>e_recv := Some (demo_bytes 77)\<rparr>"
  have rv: "recv_into (e_recv e) (recvbuf (ps_test s)) = (84, demo_bytes 77 @ replicate 1416 0)"
    using demo_bytes_fit [of 77] by (simp add: e_def s_def demo_last_def)
  obtain t1 where rc: "Ping_receive e demo_last = Inr (TEST_STATUS_RECV, t1)"
    and t1: "recvbuf t1 = demo_bytes 77 @ replicate 1416 0" "recvlen t1 = 84" "pid t1 = 42"
    using rv by (auto simp: Ping_receive_eq s_def demo_last_def demo_ping_def int_range_def)
  have "Ping_process t1 = Inr (TEST_STATUS_FAIL, t1\<lparr>status := TEST_STATUS_PROCESS\<rparr>)"
    using demo_bytes_held [of 77 "replicate 1416 0"] t1 demo_ids
    by (intro Ping_process_foreign [of 5 64 77 0 "\<lparr>tv_sec = 100, tv_usec = 2000\<rparr>"]) simp_all
  from rejected_run [OF rc this]
  have st: "ping_step demo_json s (Socket EvRead e) (absorb PingSocketCb [FreeOwnEvent]
    (s\<lparr>ps_test := t1\<lparr>status := TEST_STATUS_PROCESS\<rparr>, ps_reads := ps_reads s - 1\<rparr>))"
    by (intro ping_step.socket) (simp_all add: s_def)
  have f: "ps_reads s = 1" "ps_timers s = 0" "ps_results s = []" "int (unat (77 :: 16 word)) \<noteq> pid (ps_test s)"
    using demo_ids by (simp_all add: s_def demo_last_def demo_ping_def)
  have n: "int (4 * 5) + 16 \<le> (84 :: int)" "(84 :: int) < 2 ^ 31" by simp_all
  note fail = ping_foreign_reply_stalls [OF f(1,2) st _ demo_bytes_held f(4) _ n, unfolded rv, OF snd_conv fst_conv]
  show ?thesis using st fail f(3) unfolding s_def e_def by metis
qed

subsection \<open>Failed calls\<close>

text \<open>A failed \<open>recvmsg\<close> is not noticed: the length -1 wraps around in the unsigned
  subtraction, passes both length tests, and the previous reply, still in the buffer, is
  measured and counted a second time.\<close>

theorem ping_failed_recv_counts:
  assumes "e_recv e = None" "holds_reply hl tv i s tm (recvbuf t)" "int (unat i) = pid t"
    and "tv_normal (e_tod e)" "tv_normal tm" "servaddr t = Some a" "int_range (nowrecvtimes t + 1)"
  shows "\<exists>t1 t2 d. Ping_receive e t = Inr (TEST_STATUS_RECV, t1) \<and> recvlen t1 = -1 \<and>
    Ping_process t1 = Inr (ping_verdict t, t2) \<and> data_vec t2 = data_vec t @ [d] \<and>
    pd_icmpseq d = unat s \<and> nowrecvtimes t2 = nowrecvtimes t + 1"
proof -
  obtain t1 where rc: "Ping_receive e t = Inr (TEST_STATUS_RECV, t1)"
    and t1: "recvlen t1 = -1" "recvbuf t1 = recvbuf t" "pid t1 = pid t" "recvtime t1 = e_tod e"
      "servaddr t1 = Some a" "data_vec t1 = data_vec t" "nowrecvtimes t1 = nowrecvtimes t + 1"
      "ping_verdict t1 = ping_verdict t"
    using assms(1,6,7) by (auto simp: Ping_receive_eq recv_into_def ping_verdict_def)
  have hl: "-1 < int (4 * hl)" "int (4 * hl) \<le> 60"
    using assms(2) by (auto simp: holds_reply_def)
  have len: "\<not> (of_int (recvlen t1) :: 32 word) - of_nat (4 * hl) < 8"
    "\<not> (of_int (recvlen t1) :: 32 word) - of_nat (4 * hl) < 16"
    using icmplen_wraps [OF hl, of 8] icmplen_wraps [OF hl, of 16] t1(1)
    by (simp_all del: of_nat_mult)
  have h: "holds_reply hl tv i s tm (recvbuf t1)" "int (unat i) = pid t1"
    "tv_normal (recvtime t1)" using assms(2-4) t1(2-4) by simp_all
  have "\<exists>diff d. pd_icmpseq d = unat s \<and> Ping_process t1 = Inr (ping_verdict t1,
      t1\<lparr>status := TEST_STATUS_PROCESS, recvtime := diff, data_vec := data_vec t1 @ [d]\<rparr>)"
    using Ping_process_held [OF h(1) len h(2,3) assms(5) t1(5)]
    by (metis ping_data.select_convs(4))
  then obtain diff d where "pd_icmpseq d = unat s" "Ping_process t1 = Inr (ping_verdict t1,
      t1\<lparr>status := TEST_STATUS_PROCESS, recvtime := diff, data_vec := data_vec t1 @ [d]\<rparr>)"
    by blast
  with rc t1 show ?thesis by - (rule exI [of _ t1], simp)
qed

text \<open>A host that does not resolve: \<open>run\<close> calls \<open>finish\<close>, which clears \<open>servaddr\<close>, and then
  goes on. Without an interval it probes at once and follows the null address; with one, the
  timer does the same at its first tick. In neither case does a probe leave.\<close>

theorem ping_unresolved_host_crashes:
  assumes "e_addr e = None" "0 \<le> e_sock e" "logs_fit t e"
    and "int_range (nsent t + 1)" "nowtimes t < ping_times t"
  shows "if interval t \<le> 0 then Ping_run J e t = Inl NullDeref
    else \<exists>t' es. Ping_run J e t = Inr (TEST_STATUS_OK, t', es) \<and> results_of es \<noteq> [] \<and>
      ping_timeout_callback_fn J e' t' = Inl NullDeref"
proof -
  define t1 where "t1 = t\<lparr>starttime := e_time e, sockfd := e_sock e\<rparr>"
  have i: "Ping_init e (t\<lparr>starttime := e_time e\<rparr>) = (TEST_STATUS_FAIL, t1)"
    using assms(1,2) by (simp add: t1_def Ping_init_def Let_def)
  define t2 where "t2 = t1\<lparr>donetime := e_time e, servaddr := None, status := TEST_STATUS_DONE, data_vec := []\<rparr>"
  obtain es where f: "Ping_finish J e t1 = Inr (TEST_STATUS_DONE, t2, es)" "results_of es \<noteq> []"
    using assms(3) by (auto simp: Ping_finish_eq logs_fit_def t1_def t2_def)
  have t2: "interval t2 = interval t" "servaddr t2 = None" "nsent t2 = nsent t"
    "nowtimes t2 = nowtimes t" "ping_times t2 = ping_times t" by (simp_all add: t2_def t1_def)
  have p: "Ping_probe x t2 = Inl NullDeref" for x
    using t2(2,3) assms(4) build_probe_total [of "e_pid x" "nsent t" "e_tod x"]
    by (auto simp: Ping_probe_def ck_int_def)
  show ?thesis
    using i f p t2 assms(5) by (simp add: Ping_run_def ping_timeout_callback_fn_def)
qed

theorem ping_unresolved_host_crashes_witness:
  "Ping_run demo_json (demo_env\<lparr>e_addr := None\<rparr>) (Ping_config demo_conf demo_ping) = Inl NullDeref"
  using ping_unresolved_host_crashes [of "demo_env\<lparr>e_addr := None\<rparr>" "Ping_config demo_conf demo_ping"
      demo_json]
  by (simp add: demo_env_def demo_ping_def demo_conf_def Ping_config_def logs_fit_def cstr_def
      logbuf_size_def int_range_def)



theorem ping_failed_recv_counts_witness:
  "\<exists>t1 t2 d. Ping_receive (demo_env\<lparr>e_recv := None\<rparr>) (demo_last\<lparr>recvbuf := demo_bytes 42\<rparr>) =
      Inr (TEST_STATUS_RECV, t1) \<and> recvlen t1 = -1 \<and> Ping_process t1 = Inr (TEST_STATUS_LAST, t2) \<and>
    data_vec t2 = [d]"
proof -
  have "ping_verdict (demo_last\<lparr>recvbuf := demo_bytes 42\<rparr>) = TEST_STATUS_LAST"
    "tv_normal (e_tod (demo_env\<lparr>e_recv := None\<rparr>))" "data_vec (demo_last\<lparr>recvbuf := demo_bytes 42\<rparr>) = []"
    by (simp_all add: ping_verdict_def demo_last_def demo_env_def tv_normal_def demo_ping_def)
  moreover have "holds_reply 5 64 42 0 \<lparr>tv_sec = 100, tv_usec = 2000\<rparr>
      (recvbuf (demo_last\<lparr>recvbuf := demo_bytes 42\<rparr>))"
    using demo_bytes_held [of 42 "[]"] by simp
  moreover have "servaddr (demo_last\<lparr>recvbuf := demo_bytes 42\<rparr>) = Some (10, 0, 0, 1)"
    "int (unat (42 :: 16 word)) = pid (demo_last\<lparr>recvbuf := demo_bytes 42\<rparr>)"
    "int_range (nowrecvtimes (demo_last\<lparr>recvbuf := demo_bytes 42\<rparr>) + 1)"
    using demo_ids by (simp_all add: demo_last_def demo_ping_def int_range_def)
  ultimately show ?thesis
    using ping_failed_recv_counts [of "demo_env\<lparr>e_recv := None\<rparr>" 5 64 42 0
        "\<lparr>tv_sec = 100, tv_usec = 2000\<rparr>" "demo_last\<lparr>recvbuf := demo_bytes 42\<rparr>" "(10, 0, 0, 1)"]
    by (fastforce simp: tv_normal_def)
qed

end
