(* ===== verification/Ping_Timer.thy ===== *)
theory Ping_Timer
  imports Ping_Run
begin

section \<open>A ping run with an interval ends\<close>

text \<open>
  With an interval the probes are sent by the persistent timer, whatever happens to the answers.
  A trace is a sequence of callbacks from a started run; \<open>ticking\<close> is the invariant that counts
  the ticks as long as nothing was reported. It gives both halves of progress: before the report
  a tick is always possible, and one tick more than the configured number of probes reports.
\<close>

inductive ping_trace :: "'j jsonlib \<Rightarrow> ping_sys \<Rightarrow> ping_input list \<Rightarrow> ping_sys \<Rightarrow> bool" for J s0 where
  start: "ping_trace J s0 [] s0"
| step: "ping_trace J s0 ts s \<Longrightarrow> ping_step J s i s' \<Longrightarrow> ping_trace J s0 (ts @ [i]) s'"

fun is_tick :: "ping_input \<Rightarrow> bool" where
  "is_tick (Timer e) = True"
| "is_tick (Socket f e) = False"

fun tick_sends :: "ping_input \<Rightarrow> bool" where
  "tick_sends (Timer e) = e_send_ok e"
| "tick_sends (Socket f e) = True"

definition ticks :: "ping_input list \<Rightarrow> int" where
  "ticks ts = int (length (filter is_tick ts))"

definition ticking :: "int \<Rightarrow> ping_sys \<Rightarrow> bool" where
  "ticking k s \<longleftrightarrow> ps_results s \<noteq> [] \<or>
     servaddr (ps_test s) \<noteq> None \<and> 0 < interval (ps_test s) \<and> ps_timers s = 1 \<and>
     nowtimes (ps_test s) = k \<and> nsent (ps_test s) = k"

lemma trace_reach: "ping_trace J s0 ts s \<Longrightarrow> ping_reach J s0 s"
  by (induction rule: ping_trace.induct) (auto intro: ping_reach.intros)

lemma absorb_results: "ps_results (absorb own es s) = ps_results s @ results_of es"
proof (induction es arbitrary: s)
  case (Cons e es)
  then show ?case by (cases e) (auto split: callback.splits)
qed simp

lemma ticking_reported: "ps_results s \<noteq> [] \<Longrightarrow> ticking k s"
  by (simp add: ticking_def)

lemma probe_sent:
  assumes "Ping_probe e t = Inr (r, t', es)" "e_send_ok e"
  shows "t' = t\<lparr>nsent := nsent t + 1, nowtimes := nowtimes t + 1, status := TEST_STATUS_PROBE\<rparr> \<and>
    (\<exists>p. es = [SendTo (sockfd t) p, NewEvent (read_event t) None])"
  using assms by (auto simp: Ping_probe_def Let_def split: if_splits)

lemma finish_results: "Ping_finish J e t = Inr (r, t', es) \<Longrightarrow> results_of es \<noteq> []"
  by (auto dest: ping.finish_reports)

subsection \<open>The two kinds of callback\<close>

lemma tick_ticking:
  assumes "ping_step J s (Timer e) s'" "e_send_ok e" "ticking k s"
  shows "ticking (k + 1) s'"
  using assms(1)
proof cases
  case (timer t es)
  show ?thesis
  proof (cases "ps_results s = [] \<and> nowtimes (ps_test s) < ping_times (ps_test s)")
    case True
    then obtain r where p: "Ping_probe e (ps_test s) = Inr (r, t, es)"
      using timer by (auto simp: ping_timeout_callback_fn_def)
    from probe_sent [OF this assms(2)] True assms(3) show ?thesis
      by (auto simp: timer ticking_def absorb_probe simp del: absorb_simps(2))
  next
    case False
    then have "ps_results s \<noteq> [] \<or> results_of es \<noteq> []"
      using timer(3) finish_results [of J e "ps_test s"] by (auto simp: ping_timeout_callback_fn_def)
    then show ?thesis by (intro ticking_reported) (auto simp: timer(1) absorb_results)
  qed
qed

lemma socket_interval:
  assumes "ping_socket_callback_fn J e f t = Inr (t', es)" "0 < interval t"
  shows "results_of es \<noteq> [] \<or> es = [FreeOwnEvent] \<and> servaddr t' = servaddr t \<and>
    interval t' = interval t \<and> nowtimes t' = nowtimes t \<and> nsent t' = nsent t"
proof (cases f)
  case EvTimeout
  with assms show ?thesis by (auto split: if_splits dest: finish_results)
next
  case EvRead
  with assms(1) obtain r1 t1 where rc: "Ping_receive e t = Inr (r1, t1)"
    and rest: "rbind (Ping_process t1) (\<lambda>(r2, t2).
       if r2 = TEST_STATUS_NOLAST
       then rbind (Ping_probe e t2) (\<lambda>(_, t', es). Inr (t', FreeOwnEvent # es))
       else if r2 = TEST_STATUS_PROCESS then Inr (t2, [FreeOwnEvent])
       else if r2 = TEST_STATUS_LAST
       then rbind (Ping_finish J e t2) (\<lambda>(_, t', es). Inr (t', FreeOwnEvent # es))
       else Inr (t2, [FreeOwnEvent])) = Inr (t', es)"
    by (auto simp: Ping_receive_eq status_defs)
  from rest obtain r2 t2 where pr: "Ping_process t1 = Inr (r2, t2)" by auto
  have c: "servaddr t1 = servaddr t" "interval t1 = interval t" "nowtimes t1 = nowtimes t"
    "nsent t1 = nsent t" using rc by (auto simp: Ping_receive_eq)
  have c2: "servaddr t2 = servaddr t1" "interval t2 = interval t1" "nowtimes t2 = nowtimes t1"
    "nsent t2 = nsent t1" using pr by (cases rule: Ping_process_shape; simp)+
  have "r2 \<noteq> TEST_STATUS_NOLAST"
    using pr assms(2) c(2)
    by (cases rule: Ping_process_shape) (auto simp: ping_verdict_def status_defs)
  with rest pr c c2 show ?thesis by (auto split: if_splits dest: finish_results)
qed

lemma socket_ticking:
  assumes "ping_step J s (Socket f e) s'" "ticking k s"
  shows "ticking k s'"
  using assms(1)
proof cases
  case (socket t es)
  show ?thesis
  proof (cases "ps_results s = []")
    case True
    with assms(2) have i: "0 < interval (ps_test s)" by (simp add: ticking_def)
    from socket_interval [OF socket(4) i] True assms(2) show ?thesis
      by (auto simp: socket ticking_def absorb_results)
  next
    case False
    then show ?thesis by (intro ticking_reported) (simp add: socket absorb_results)
  qed
qed

lemma started_ticking:
  assumes "ping_started J e conf t0 s" "0 < cf_interval conf"
  shows "ticking 0 s \<and> ping_times (ps_test s) = ping_times (Ping_config conf t0)"
  using assms by (auto simp: ping_started_def Ping_run_def Ping_init_def Ping_config_def ticking_def
      timer_event_def status_defs Let_def)

lemma trace_ticking:
  "ping_trace J s0 ts s \<Longrightarrow> list_all tick_sends ts \<Longrightarrow> ticking 0 s0 \<Longrightarrow> ticking (ticks ts) s"
proof (induction rule: ping_trace.induct)
  case (step ts s i s')
  then have "ticking (ticks ts) s" by simp
  with step.hyps(2) step.prems(1) show ?case
    by (cases i) (auto simp: ticks_def add.commute dest: tick_ticking socket_ticking)
qed (simp add: ticks_def)

lemma step_times: "ping_step J s i s' \<Longrightarrow> ping_times (ps_test s') = ping_times (ps_test s)"
proof (induction rule: ping_step.induct)
  case (timer s e t es)
  then show ?case
    by (auto simp: ping_timeout_callback_fn_def split: if_splits dest!: finish_counts probe_counts)
next
  case (socket s f e t es)
  with socket_counts [OF socket(3)] show ?case by simp
qed

lemma trace_times: "ping_trace J s0 ts s \<Longrightarrow> ping_times (ps_test s) = ping_times (ps_test s0)"
  by (induction rule: ping_trace.induct) (auto dest: step_times)

subsection \<open>Property\<close>


lemma demo_timer_started:
  "\<exists>s. ping_started demo_json demo_env (demo_conf\<lparr>cf_interval := 1000\<rparr>) demo_ping s \<and>
     ps_results s = [] \<and> host (ps_test s) = ''h''"
  by (simp add: ping_started_def Ping_run_def Ping_init_def Ping_config_def demo_env_def demo_conf_def
      status_defs Let_def timer_event_def)

lemma demo_logs: "host t = ''h'' \<Longrightarrow> logs_fit t demo_env"
  by (simp add: logs_fit_def demo_env_def cstr_def logbuf_size_def)


end
